(* ===== verification/Go_Base.thy ===== *)
theory Go_Base
  imports Main "HOL-Library.AList" "HOL-Library.Multiset" "HOL-Library.Word"
begin

text \<open>
  The prelude of the development: the parts of Go and of its standard library that the controller
  manager uses, and the lemmas on them that the component theories share.

  \<^item> errors, results and panics (\<open>error\<close>, \<open>res\<close>) and effectful calls (\<open>io\<close>);
  \<^item> \<open>strings\<close>: Contains, Cut, SplitN, Trim, TrimRight, ReplaceAll, Join, ToLower;
  \<^item> \<open>strconv.Atoi\<close> with its 64-bit range, and the decimal rendering of integers;
  \<^item> \<open>fmt.Sprintf\<close> on formats without verbs, which is how the reconciler builds its keys;
  \<^item> maps with string keys as association lists, with the iteration order of \<open>range\<close> left open.

  A Go string is a byte string, and a HOL \<^typ>\<open>string\<close> is a list of 8-bit characters, so
  \<^const>\<open>length\<close> is Go's \<open>len\<close>.
\<close>

named_theorems go_simps \<open>evaluation of the Go primitives on concrete arguments\<close>

section \<open>Errors, results and effects\<close>

text \<open>
  An \<open>error\<close> value: \<open>ErrorMsg\<close> is \<open>errors.New\<close> or \<open>fmt.Errorf\<close> without \<open>%w\<close>; \<open>Wrapped p e\<close> is
  \<open>fmt.Errorf\<close> whose format ends in \<open>%w\<close>, with \<open>p\<close> the text before it; \<open>ErrorResponse\<close> is the
  error type of the cloudscale SDK with its HTTP status code; \<open>ForeignError\<close> stands for every
  other error value that code outside the repository returns.
\<close>

datatype error =
    ErrorMsg string
  | Wrapped string error
  | ErrorResponse int
  | ForeignError string

text \<open>\<open>errors.As(err, &response)\<close>: the status code of the first SDK error in the chain.\<close>

fun errors_As_response :: "error \<Rightarrow> int option" where
  "errors_As_response (ErrorResponse c) = Some c"
| "errors_As_response (Wrapped p e) = errors_As_response e"
| "errors_As_response (ErrorMsg m) = None"
| "errors_As_response (ForeignError m) = None"

text \<open>What a Go call delivers: a value, an error, or a panic.\<close>

datatype 'a res = Ok 'a | Err error | Panic string

primrec bind_res :: "'a res \<Rightarrow> ('a \<Rightarrow> 'b res) \<Rightarrow> 'b res" where
  "bind_res (Ok x) f = f x"
| "bind_res (Err e) f = Err e"
| "bind_res (Panic m) f = Panic m"

text \<open>\<open>fmt.Errorf("...: %w", err)\<close> on the error of a call.\<close>

primrec wrap_res :: "string \<Rightarrow> 'a res \<Rightarrow> 'a res" where
  "wrap_res p (Ok x) = Ok x"
| "wrap_res p (Err e) = Err (Wrapped p e)"
| "wrap_res p (Panic m) = Panic m"

text \<open>A call with effects: it reads and changes the world \<open>'w\<close> outside the program.\<close>

type_synonym ('w, 'a) io = "'w \<Rightarrow> 'a res \<times> 'w"

definition return_io :: "'a \<Rightarrow> ('w, 'a) io" where
  "return_io x = (\<lambda>w. (Ok x, w))"

definition res_io :: "'a res \<Rightarrow> ('w, 'a) io" where
  "res_io r = (\<lambda>w. (r, w))"

definition bind_io :: "('w, 'a) io \<Rightarrow> ('a \<Rightarrow> ('w, 'b) io) \<Rightarrow> ('w, 'b) io" where
  "bind_io m f = (\<lambda>w. case m w of
       (Ok x, w') \<Rightarrow> f x w'
     | (Err e, w') \<Rightarrow> (Err e, w')
     | (Panic s, w') \<Rightarrow> (Panic s, w'))"

definition wrap_io :: "string \<Rightarrow> ('w, 'a) io \<Rightarrow> ('w, 'a) io" where
  "wrap_io p m = (\<lambda>w. case m w of (r, w') \<Rightarrow> (wrap_res p r, w'))"

text \<open>The result of an SDK call that returns a value or an error.\<close>

primrec res_of_sum :: "error + 'a \<Rightarrow> 'a res" where
  "res_of_sum (Inl e) = Err e"
| "res_of_sum (Inr x) = Ok x"

section \<open>Strings\<close>

fun strings_HasPrefix :: "string \<Rightarrow> string \<Rightarrow> bool" where
  "strings_HasPrefix s [] = True"
| "strings_HasPrefix [] (p # ps) = False"
| "strings_HasPrefix (c # s) (p # ps) = (c = p \<and> strings_HasPrefix s ps)"

text \<open>
  \<open>strings.Cut\<close>: the text before and after the first occurrence of the separator, \<open>None\<close> when it
  does not occur. \<open>strings.Contains\<close> and \<open>strings.SplitN(s, sep, 2)\<close> are read off it.
\<close>

fun strings_Cut :: "string \<Rightarrow> string \<Rightarrow> (string \<times> string) option" where
  "strings_Cut s sep =
     (if strings_HasPrefix s sep then Some ([], drop (length sep) s)
      else case s of
        [] \<Rightarrow> None
      | c # s' \<Rightarrow> map_option (\<lambda>(b, a). (c # b, a)) (strings_Cut s' sep))"

declare strings_Cut.simps [simp del]

definition strings_Contains :: "string \<Rightarrow> string \<Rightarrow> bool" where
  "strings_Contains s sub \<longleftrightarrow> strings_Cut s sub \<noteq> None"

definition strings_SplitN2 :: "string \<Rightarrow> string \<Rightarrow> string list" where
  "strings_SplitN2 s sep = (case strings_Cut s sep of None \<Rightarrow> [s] | Some (b, a) \<Rightarrow> [b, a])"

text \<open>\<open>strings.TrimLeft\<close>, \<open>TrimRight\<close> and \<open>Trim\<close> with a cutset of single-byte characters.\<close>

definition strings_TrimLeft :: "string \<Rightarrow> string \<Rightarrow> string" where
  "strings_TrimLeft s cutset = dropWhile (\<lambda>c. c \<in> set cutset) s"

definition strings_TrimRight :: "string \<Rightarrow> string \<Rightarrow> string" where
  "strings_TrimRight s cutset = rev (dropWhile (\<lambda>c. c \<in> set cutset) (rev s))"

definition strings_Trim :: "string \<Rightarrow> string \<Rightarrow> string" where
  "strings_Trim s cutset = strings_TrimRight (strings_TrimLeft s cutset) cutset"

text \<open>\<open>strings.ReplaceAll\<close> of a single-byte string.\<close>

definition strings_ReplaceAll :: "string \<Rightarrow> char \<Rightarrow> string \<Rightarrow> string" where
  "strings_ReplaceAll s old new = concat (map (\<lambda>c. if c = old then new else [c]) s)"

fun strings_Join :: "string list \<Rightarrow> string \<Rightarrow> string" where
  "strings_Join [] sep = []"
| "strings_Join [x] sep = x"
| "strings_Join (x # y # xs) sep = x @ sep @ strings_Join (y # xs) sep"

definition char_lower :: "char \<Rightarrow> char" where
  "char_lower c = (let n = (of_char c :: nat) in
     if 65 \<le> n \<and> n \<le> 90 then char_of (n + 32) else c)"

text \<open>
  \<open>strings.ToLower\<close>: byte by byte on an ASCII string; \<open>unicode_lower\<close> stands for the mapping of
  a string with other characters by the Unicode tables.
\<close>

definition strings_ToLower :: "(string \<Rightarrow> string) \<Rightarrow> string \<Rightarrow> string" where
  "strings_ToLower unicode_lower s =
     (if \<forall>c \<in> set s. (of_char c :: nat) < 128 then map char_lower s else unicode_lower s)"

section \<open>Decimal numbers\<close>

definition digit_char :: "nat \<Rightarrow> char" where
  "digit_char d = char_of (48 + d)"

definition char_digit :: "char \<Rightarrow> nat option" where
  "char_digit c = (let n = (of_char c :: nat) in if 48 \<le> n \<and> n \<le> 57 then Some (n - 48) else None)"

fun show_nat :: "nat \<Rightarrow> string" where
  "show_nat n = (if n < 10 then [digit_char n] else show_nat (n div 10) @ [digit_char (n mod 10)])"

declare show_nat.simps [simp del]

text \<open>\<open>%d\<close> and \<open>%v\<close> of an integer.\<close>

definition show_int :: "int \<Rightarrow> string" where
  "show_int i = (if i < 0 then CHR ''-'' # show_nat (nat (- i)) else show_nat (nat i))"

datatype num_error = ErrSyntax | ErrRange

text \<open>
  The loop of \<open>strconv.ParseUint\<close> in base 10: it stops at the first character that is not a digit
  and at the first digit with which the value leaves the range of a \<open>uint64\<close>, in this order.
\<close>

fun parse_uint_loop :: "nat \<Rightarrow> string \<Rightarrow> num_error + nat" where
  "parse_uint_loop n [] = Inr n"
| "parse_uint_loop n (c # s) = (case char_digit c of
       None \<Rightarrow> Inl ErrSyntax
     | Some d \<Rightarrow> if 10 * n + d > 2 ^ 64 - 1 then Inl ErrRange else parse_uint_loop (10 * n + d) s)"

definition split_sign :: "string \<Rightarrow> bool \<times> string" where
  "split_sign s = (case s of
       c # s' \<Rightarrow> if c = CHR ''-'' then (True, s') else if c = CHR ''+'' then (False, s') else (False, s)
     | [] \<Rightarrow> (False, []))"

text \<open>
  \<open>strconv.Atoi\<close> on a 64-bit platform: the value and the error. A value out of range comes with
  the nearest \<open>int64\<close>, a syntax error with 0.
\<close>

definition strconv_Atoi :: "string \<Rightarrow> int \<times> num_error option" where
  "strconv_Atoi s = (case split_sign s of (neg, digits) \<Rightarrow>
     if digits = [] then (0, Some ErrSyntax)
     else case parse_uint_loop 0 digits of
         Inl ErrSyntax \<Rightarrow> (0, Some ErrSyntax)
       | Inl ErrRange \<Rightarrow> (if neg then - (2 ^ 63) else 2 ^ 63 - 1, Some ErrRange)
       | Inr n \<Rightarrow>
           if \<not> neg \<and> n \<ge> 2 ^ 63 then (2 ^ 63 - 1, Some ErrRange)
           else if neg \<and> n > 2 ^ 63 then (- (2 ^ 63), Some ErrRange)
           else (if neg then - int n else int n, None))"

text \<open>The text of the errors of \<open>strconv.Atoi\<close>, which the program wraps.\<close>

primrec num_error_text :: "num_error \<Rightarrow> string" where
  "num_error_text ErrSyntax = ''invalid syntax''"
| "num_error_text ErrRange = ''value out of range''"

section \<open>fmt\<close>

text \<open>
  The arguments of a formatted print: strings, integers, booleans and struct values, the last with
  the name of their type and their \<open>%v\<close> rendering.
\<close>

datatype fmt_arg = GString string | GInt int | GBool bool | GStruct string string

fun fmt_type :: "fmt_arg \<Rightarrow> string" where
  "fmt_type (GString s) = ''string''"
| "fmt_type (GInt i) = ''int''"
| "fmt_type (GBool b) = ''bool''"
| "fmt_type (GStruct t v) = t"

fun fmt_v :: "fmt_arg \<Rightarrow> string" where
  "fmt_v (GString s) = s"
| "fmt_v (GInt i) = show_int i"
| "fmt_v (GBool b) = (if b then ''true'' else ''false'')"
| "fmt_v (GStruct t v) = v"

text \<open>
  Arguments that no verb of the format consumes are appended as
  \<open>%!(EXTRA type=value, type=value)\<close>.
\<close>

definition fmt_extra :: "fmt_arg list \<Rightarrow> string" where
  "fmt_extra args = (if args = [] then [] else
     ''%!(EXTRA '' @ strings_Join (map (\<lambda>a. fmt_type a @ ''='' @ fmt_v a) args) '', '' @ '')'')"

text \<open>
  \<open>fmt.Sprintf\<close> with a format that is itself data. A format without a percent sign is copied and
  all arguments are extra; \<open>verbs\<close> stands for the interpretation of a format with one.
\<close>

definition fmt_Sprintf :: "(string \<Rightarrow> fmt_arg list \<Rightarrow> string) \<Rightarrow> string \<Rightarrow> fmt_arg list \<Rightarrow> string" where
  "fmt_Sprintf verbs format args =
     (if CHR ''%'' \<in> set format then verbs format args else format @ fmt_extra args)"

text \<open>\<open>fmt.Sprint\<close> of strings: a space is only added between operands when neither is a string.\<close>

definition fmt_Sprint_strings :: "string list \<Rightarrow> string" where
  "fmt_Sprint_strings xs = concat xs"

section \<open>Maps with string keys\<close>

text \<open>
  A Go map is an association list with distinct keys. \<open>range\<close> visits the entries in an order the
  runtime chooses anew for every loop: an \<open>order\<close> rearranges the keys, and \<open>range_order\<close> says that
  it visits each key exactly as often as the map holds it.
\<close>

type_synonym 'v go_map = "(string \<times> 'v) list"
type_synonym order = "string list \<Rightarrow> string list"

definition range_order :: "order \<Rightarrow> bool" where
  "range_order ord \<longleftrightarrow> (\<forall>ks. mset (ord ks) = mset ks)"

definition go_range :: "order \<Rightarrow> 'v go_map \<Rightarrow> (string \<times> 'v) list" where
  "go_range ord m =
     List.map_filter (\<lambda>k. map_option (Pair k) (map_of m k)) (ord (map fst m))"

text \<open>\<open>for _, i := range xs { m[key(i)] = i }\<close> from the empty map.\<close>

definition index_by :: "('v \<Rightarrow> string) \<Rightarrow> 'v list \<Rightarrow> 'v go_map" where
  "index_by key xs = foldl (\<lambda>m i. AList.update (key i) i m) [] xs"

section \<open>Laws of results and effects\<close>

lemma bind_res_eq_Ok [simp]: "bind_res r f = Ok y \<longleftrightarrow> (\<exists>x. r = Ok x \<and> f x = Ok y)"
  by (cases r) auto

lemma bind_res_eq_Err: "bind_res r f = Err e \<longleftrightarrow> r = Err e \<or> (\<exists>x. r = Ok x \<and> f x = Err e)"
  by (cases r) auto

lemma bind_res_eq_Panic: "bind_res r f = Panic m \<longleftrightarrow> r = Panic m \<or> (\<exists>x. r = Ok x \<and> f x = Panic m)"
  by (cases r) auto

lemma wrap_res_eq_Ok [simp]: "wrap_res p r = Ok y \<longleftrightarrow> r = Ok y"
  by (cases r) auto

lemma bind_io_apply:
  "bind_io m f w = (case m w of (Ok x, w') \<Rightarrow> f x w'
     | (Err e, w') \<Rightarrow> (Err e, w') | (Panic s, w') \<Rightarrow> (Panic s, w'))"
  by (simp add: bind_io_def)

lemma return_io_apply [simp]: "return_io x w = (Ok x, w)"
  by (simp add: return_io_def)

lemma res_io_apply [simp]: "res_io r w = (r, w)"
  by (simp add: res_io_def)

lemma wrap_io_apply: "wrap_io p m w = (wrap_res p (fst (m w)), snd (m w))"
  by (simp add: wrap_io_def split: prod.split)

lemma bind_io_eq_Ok:
  "bind_io m f w = (Ok y, w'') \<longleftrightarrow> (\<exists>x w'. m w = (Ok x, w') \<and> f x w' = (Ok y, w''))"
  by (auto simp: bind_io_def split: prod.splits res.splits)

lemma wrap_io_eq_Ok: "wrap_io p m w = (Ok y, w') \<longleftrightarrow> m w = (Ok y, w')"
  by (auto simp: wrap_io_def split: prod.splits)

lemma bind_io_run [simp]:
  "m w = (Ok x, w') \<Longrightarrow> bind_io m f w = f x w'"
  "m w = (Err e, w') \<Longrightarrow> bind_io m f w = (Err e, w')"
  "m w = (Panic s, w') \<Longrightarrow> bind_io m f w = (Panic s, w')"
  by (simp_all add: bind_io_def)

section \<open>Laws of strings\<close>

lemma HasPrefix_append [simp]: "strings_HasPrefix (p @ s) p"
  by (induction p) auto

lemma HasPrefix_iff: "strings_HasPrefix s p \<longleftrightarrow> (\<exists>t. s = p @ t)"
proof
  show "strings_HasPrefix s p \<Longrightarrow> \<exists>t. s = p @ t"
    by (induction s p rule: strings_HasPrefix.induct) auto
qed auto

lemma Cut_sound: "strings_Cut s sep = Some (b, a) \<Longrightarrow> s = b @ sep @ a"
proof (induction s arbitrary: b)
  case Nil
  then show ?case
    by (auto simp: strings_Cut.simps [of "[]"] HasPrefix_iff split: if_splits)
next
  case (Cons c s)
  then show ?case
    by (auto simp: strings_Cut.simps [of "c # s"] HasPrefix_iff split: if_splits)
qed

lemma Cut_first:
  assumes "c \<notin> set b"
  shows "strings_Cut (b @ (c # sep) @ a) (c # sep) = Some (b, a)"
  using assms
proof (induction b)
  case Nil
  have "strings_HasPrefix (sep @ a) sep" by simp
  then show ?case by (simp add: strings_Cut.simps [of "c # sep @ a"])
next
  case (Cons d b)
  then show ?case by (auto simp: strings_Cut.simps [of "d # (b @ c # sep @ a)"])
qed

lemma Cut_absent: "c \<notin> set s \<Longrightarrow> strings_Cut s (c # sep) = None"
proof (induction s)
  case Nil
  show ?case by (simp add: strings_Cut.simps [of "[]"])
next
  case (Cons d s)
  then show ?case by (auto simp: strings_Cut.simps [of "d # s"])
qed

lemma Cut_before: "strings_Cut s t = Some (b, a) \<Longrightarrow> t \<noteq> [] \<Longrightarrow> strings_Cut b t = None"
proof (induction s arbitrary: b)
  case Nil
  then show ?case by (cases t) (auto simp: strings_Cut.simps [of "[]"])
next
  case (Cons c s)
  show ?case
  proof (cases "strings_HasPrefix (c # s) t")
    case True
    with Cons.prems show ?thesis
      by (cases t) (auto simp: strings_Cut.simps [of "c # s"] strings_Cut.simps [of "[]"])
  next
    case False
    with Cons.prems obtain b' where b': "strings_Cut s t = Some (b', a)" "b = c # b'"
      by (auto simp: strings_Cut.simps [of "c # s"])
    with Cons have "strings_Cut b' t = None" by blast
    moreover have "\<not> strings_HasPrefix (c # b') t"
    proof
      assume "strings_HasPrefix (c # b') t"
      then obtain r where "c # b' = t @ r" by (auto simp: HasPrefix_iff)
      then have "c # s = t @ r @ t @ a" using Cut_sound [OF b'(1)] by (metis append.assoc append_Cons)
      with False show False by (auto simp: HasPrefix_iff)
    qed
    ultimately show ?thesis by (simp add: b'(2) strings_Cut.simps [of "c # b'"])
  qed
qed

lemma TrimRight_idle: "s = [] \<or> last s \<notin> set cs \<Longrightarrow> strings_TrimRight s cs = s"
  by (cases s rule: rev_cases) (auto simp: strings_TrimRight_def)

lemma Trim_idle: "set s \<inter> set cs = {} \<Longrightarrow> strings_Trim s cs = s"
proof -
  assume none: "set s \<inter> set cs = {}"
  then have "strings_TrimLeft s cs = s"
    by (cases s) (auto simp: strings_TrimLeft_def)
  moreover have "strings_TrimRight s cs = s"
    by (rule TrimRight_idle) (use none last_in_set in \<open>auto simp: disjoint_iff\<close>)
  ultimately show ?thesis by (simp add: strings_Trim_def)
qed

text \<open>Two texts that agree up to the first occurrence of a separator are cut at the same place.\<close>

lemma cut_unique:
  assumes "a @ c # x = b @ c # y" "c \<notin> set a" "c \<notin> set b"
  shows "a = b \<and> x = y"
proof -
  have "takeWhile (\<lambda>d. d \<noteq> c) (a @ c # x) = a" "takeWhile (\<lambda>d. d \<noteq> c) (b @ c # y) = b"
    using assms(2,3) by (auto simp: takeWhile_append2 takeWhile_tail)
  with assms(1) show ?thesis by auto
qed

section \<open>Laws of decimal numbers\<close>

lemma char_digit_char [simp]: "d < 10 \<Longrightarrow> char_digit (digit_char d) = Some d"
  by (simp add: char_digit_def digit_char_def of_char_of)

lemma char_digit_range: "char_digit c = Some d \<Longrightarrow> d < 10"
  by (auto simp: char_digit_def Let_def split: if_splits)

lemma show_nat_digits: "c \<in> set (show_nat n) \<Longrightarrow> \<exists>d. char_digit c = Some d"
proof (induction n rule: show_nat.induct)
  case (1 n)
  then show ?case
    by (cases "n < 10") (auto simp: show_nat.simps [of n])
qed

lemma show_nat_nonempty [simp]: "show_nat n \<noteq> []"
  by (simp add: show_nat.simps [of n])

lemma parse_uint_append:
  "parse_uint_loop n (s @ t) = (case parse_uint_loop n s of Inl e \<Rightarrow> Inl e | Inr m \<Rightarrow> parse_uint_loop m t)"
  by (induction n s rule: parse_uint_loop.induct) (auto split: option.split)

lemma parse_show_nat: "n < 2 ^ 64 \<Longrightarrow> parse_uint_loop 0 (show_nat n) = Inr n"
proof (induction n rule: show_nat.induct)
  case (1 n)
  show ?case
  proof (cases "n < 10")
    case True
    then show ?thesis by (simp add: show_nat.simps [of n])
  next
    case False
    then have ih: "parse_uint_loop 0 (show_nat (n div 10)) = Inr (n div 10)"
      using 1 by auto
    have "10 * (n div 10) + n mod 10 = n" by simp
    moreover have "\<not> n > 2 ^ 64 - 1" using "1.prems" by simp
    ultimately show ?thesis
      using False by (simp add: show_nat.simps [of n] parse_uint_append ih del: One_nat_def)
  qed
qed

lemma show_nat_head:
  assumes "show_nat n = c # s"
  shows "c \<noteq> CHR ''-'' \<and> c \<noteq> CHR ''+''"
proof -
  have "c \<in> set (show_nat n)" using assms by simp
  then obtain d where "char_digit c = Some d" using show_nat_digits by blast
  then show ?thesis by (auto simp: char_digit_def)
qed

lemma split_sign_show_nat: "split_sign (show_nat n) = (False, show_nat n)"
  using show_nat_head by (auto simp: split_sign_def split: list.split)

text \<open>Printing an \<open>int\<close> and reading it back.\<close>

lemma Atoi_show_int:
  assumes "- (2 ^ 63) \<le> i" "i < 2 ^ 63"
  shows "strconv_Atoi (show_int i) = (i, None)"
proof (cases "i < 0")
  case True
  have small: "nat (- i) \<le> 2 ^ 63" using assms by (simp add: nat_le_iff)
  then have "parse_uint_loop 0 (show_nat (nat (- i))) = Inr (nat (- i))"
    by (intro parse_show_nat) (rule le_less_trans, assumption, simp)
  with True small show ?thesis
    by (simp add: strconv_Atoi_def show_int_def split_sign_def)
next
  case False
  have small: "nat i < 2 ^ 63" using assms by (simp add: nat_less_iff)
  then have "parse_uint_loop 0 (show_nat (nat i)) = Inr (nat i)"
    by (intro parse_show_nat) (rule less_trans, assumption, simp)
  with False small show ?thesis
    by (simp add: strconv_Atoi_def show_int_def split_sign_show_nat)
qed

lemma Atoi_range: "strconv_Atoi s = (i, e) \<Longrightarrow> - (2 ^ 63) \<le> i \<and> i < 2 ^ 63"
  by (auto simp: strconv_Atoi_def not_less not_le
      split: prod.splits if_splits sum.splits num_error.splits)

fun digits_value :: "nat \<Rightarrow> string \<Rightarrow> nat" where
  "digits_value n [] = n"
| "digits_value n (c # s) = digits_value (10 * n + (case char_digit c of None \<Rightarrow> 0 | Some d \<Rightarrow> d)) s"

lemma digits_value_append: "digits_value n (s @ t) = digits_value (digits_value n s) t"
  by (induction n s rule: digits_value.induct) auto

lemma digits_value_show_nat: "digits_value 0 (show_nat n) = n"
proof (induction n rule: show_nat.induct)
  case (1 n)
  then show ?case
    by (cases "n < 10") (auto simp: show_nat.simps [of n] digits_value_append)
qed

lemma show_nat_inject [simp]: "show_nat m = show_nat n \<longleftrightarrow> m = n"
  by (metis digits_value_show_nat)

lemma show_int_inject [simp]: "show_int i = show_int j \<longleftrightarrow> i = j"
proof
  assume eq: "show_int i = show_int j"
  show "i = j"
  proof (cases "i < 0"; cases "j < 0")
    assume "i < 0" "\<not> j < 0"
    then show ?thesis
      using eq show_nat_head [of "nat j" "CHR ''-''"] by (simp add: show_int_def) (metis)
  next
    assume "\<not> i < 0" "j < 0"
    then show ?thesis
      using eq show_nat_head [of "nat i" "CHR ''-''"] by (simp add: show_int_def)
  qed (use eq in \<open>auto simp: show_int_def\<close>)
qed simp

lemma show_int_chars:
  assumes "c \<in> set (show_int i)"
  shows "c = CHR ''-'' \<or> (\<exists>d. char_digit c = Some d)"
  using assms show_nat_digits by (auto simp: show_int_def split: if_splits)

lemma show_int_no_comma [simp]: "CHR '','' \<notin> set (show_int i)"
  using show_int_chars [of "CHR '',''" i] by (auto simp: char_digit_def)

text \<open>Evaluation on concrete numbers and letters.\<close>

lemma digit_char_numeral [go_simps]:
  "digit_char 0 = CHR ''0''" "digit_char (Suc 0) = CHR ''1''" "digit_char 2 = CHR ''2''"
  "digit_char 3 = CHR ''3''" "digit_char 4 = CHR ''4''" "digit_char 5 = CHR ''5''"
  "digit_char 6 = CHR ''6''" "digit_char 7 = CHR ''7''" "digit_char 8 = CHR ''8''"
  "digit_char 9 = CHR ''9''"
  unfolding digit_char_def by code_simp+

lemmas decimal_eval [go_simps] =
  show_nat.simps show_int_def strconv_Atoi_def split_sign_def char_digit_def

lemma ToLower_TCP_UDP [simp]:
  "strings_ToLower u ''TCP'' = ''tcp''" "strings_ToLower u ''UDP'' = ''udp''"
  by (simp_all add: strings_ToLower_def char_lower_def) code_simp+

section \<open>Laws of formatted keys\<close>

lemma fmt_extra_percent: "args \<noteq> [] \<Longrightarrow> \<exists>t. fmt_extra args = CHR ''%'' # t"
  by (simp add: fmt_extra_def)

text \<open>
  A key that starts with a name without a percent sign determines the name: the appended
  arguments begin with the first percent sign of the key.
\<close>

lemma Sprintf_inject:
  assumes "CHR ''%'' \<notin> set f" "CHR ''%'' \<notin> set g" "as \<noteq> []" "bs \<noteq> []"
  shows "fmt_Sprintf v f as = fmt_Sprintf v g bs \<longleftrightarrow> f = g \<and> fmt_extra as = fmt_extra bs"
proof -
  obtain x y where x: "fmt_extra as = CHR ''%'' # x" and y: "fmt_extra bs = CHR ''%'' # y"
    using fmt_extra_percent assms(3,4) by blast
  show ?thesis
    using assms(1,2) cut_unique [of f "CHR ''%''" x g y] by (auto simp: fmt_Sprintf_def x y)
qed

section \<open>Laws of maps\<close>

lemma update_dom: "fst ` set (AList.update k v m) = insert k (fst ` set m)"
  by (induction m) auto

lemma update_distinct: "distinct (map fst m) \<Longrightarrow> distinct (map fst (AList.update k v m))"
  by (induction m) (auto simp: update_dom)

lemma index_by_snoc: "index_by key (xs @ [x]) = AList.update (key x) x (index_by key xs)"
  by (simp add: index_by_def)

lemma index_by_Nil [simp]: "index_by key [] = []"
  by (simp add: index_by_def)

lemma index_by_distinct [simp]: "distinct (map fst (index_by key xs))"
  by (induction xs rule: rev_induct) (simp_all add: index_by_snoc update_distinct)

lemma index_by_dom [simp]: "fst ` set (index_by key xs) = key ` set xs"
  by (induction xs rule: rev_induct) (simp_all add: index_by_snoc update_dom)

text \<open>A lookup gives the last element that was stored under the key.\<close>

lemma index_by_lookup: "map_of (index_by key xs) k = find (\<lambda>x. key x = k) (rev xs)"
  by (induction xs rule: rev_induct) (auto simp: index_by_snoc update_conv)

lemma index_by_lookup_Some:
  "map_of (index_by key xs) k = Some x \<Longrightarrow> x \<in> set xs \<and> key x = k"
  unfolding index_by_lookup
  by (metis (mono_tags, lifting) find_Some_iff length_rev nth_mem set_rev)

lemma index_by_lookup_None:
  "map_of (index_by key xs) k = None \<longleftrightarrow> k \<notin> key ` set xs"
  by (simp add: map_of_eq_None_iff)

lemma range_order_set: "range_order ord \<Longrightarrow> set (ord ks) = set ks"
  by (metis range_order_def mset_eq_setD)

lemma range_order_distinct: "range_order ord \<Longrightarrow> distinct (ord ks) = distinct ks"
  by (metis range_order_def mset_eq_imp_distinct_iff)

text \<open>Ranging over a map visits exactly its entries, each once.\<close>

lemma go_range_keys:
  assumes "range_order ord"
  shows "map fst (go_range ord m) = ord (map fst m)"
proof -
  have "\<forall>k \<in> set (ord (map fst m)). map_of m k \<noteq> None"
    using assms by (auto simp: range_order_set map_of_eq_None_iff)
  then show ?thesis
    unfolding go_range_def
    by (induction "ord (map fst m)" arbitrary: m)
       (auto simp: List.map_filter_def comp_def intro!: map_idI)
qed

lemma go_range_set:
  assumes "range_order ord" "distinct (map fst m)"
  shows "set (go_range ord m) = set m"
  using assms
  by (force simp: go_range_def List.map_filter_def range_order_set
      intro: map_of_is_SomeI dest: map_of_SomeD)

lemma go_range_distinct:
  assumes "range_order ord" "distinct (map fst m)"
  shows "distinct (map fst (go_range ord m))"
  using assms by (simp add: go_range_keys range_order_distinct)

end
