(* ===== verification/Compare.thy ===== *)
theory Compare
  imports Go_Base
begin

text \<open>
  Package \<open>compare\<close> (\<open>src/pkg/internal/compare/compare.go\<close>): the keyed difference of two lists,
  from which the reconciler decides what to delete and what to create, and the keyed matching from
  which it decides what to update in place.

  Both functions index their lists by key in a Go map, so of several elements with one key only the
  last counts, and \<open>Diff\<close> returns its lists in the iteration order of the maps. That order is the
  argument \<open>(oc, od)\<close>: the order of the loop over the desired map and of the loop over the actual
  one. The locale \<open>keyed_diff\<close> states what a client may rely on whatever the orders are.
\<close>

section \<open>Operations\<close>

type_synonym orders = "order \<times> order"

definition valid_orders :: "orders \<Rightarrow> bool" where
  "valid_orders ords \<longleftrightarrow> range_order (fst ords) \<and> range_order (snd ords)"

text \<open>\<open>for k, i := range m { if _, ok := n[k]; !ok { out = append(out, i) } }\<close>\<close>

definition missing_from :: "order \<Rightarrow> 'a go_map \<Rightarrow> 'a go_map \<Rightarrow> 'a list" where
  "missing_from ord m n = [i. (k, i) \<leftarrow> go_range ord m, map_of n k = None]"

definition Diff :: "orders \<Rightarrow> 'a list \<Rightarrow> 'a list \<Rightarrow> ('a \<Rightarrow> string) \<Rightarrow> 'a list \<times> 'a list" where
  "Diff ords desired actual key =
     (let d = index_by key desired;
          a = index_by key actual;
          toCreate = missing_from (fst ords) d a;
          toDelete = missing_from (snd ords) a d
      in (toDelete, toCreate))"

definition Match :: "'a list \<Rightarrow> 'a list \<Rightarrow> ('a \<Rightarrow> string) \<Rightarrow> ('a \<times> 'a) list" where
  "Match as bs key =
     (let keys = index_by key bs
      in List.map_filter (\<lambda>a. map_option (Pair a) (map_of keys (key a))) as)"

section \<open>The contract of a keyed difference\<close>

text \<open>How far a collection of keys is from a set of desired keys: the surplus, and one more if a key is missing.\<close>

definition gap :: "string set \<Rightarrow> string multiset \<Rightarrow> nat" where
  "gap K M = size {#k \<in># M. k \<notin> K#} + (if K \<subseteq> set_mset M then 0 else 1)"

lemma gap_zero_iff: "gap K M = 0 \<longleftrightarrow> set_mset M = K"
  by (auto simp: gap_def filter_mset_eq_mempty_iff)

lemma gap_less:
  assumes "R \<subseteq># M" "set_mset N \<subseteq> K" "K \<subseteq> set_mset (R + N)"
    and "\<not> K \<subseteq> set_mset M \<or> (\<exists>k \<in># M - R. k \<notin> K)"
  shows "gap K (R + N) < gap K M"
proof -
  have "{#k \<in># N. k \<notin> K#} = {#}" using assms(2) by (auto simp: filter_mset_eq_mempty_iff)
  then have new: "gap K (R + N) = size {#k \<in># R. k \<notin> K#}" using assms(3) by (simp add: gap_def)
  have "size {#k \<in># M. k \<notin> K#} = size {#k \<in># R. k \<notin> K#} + size {#k \<in># M - R. k \<notin> K#}"
    using assms(1) by (metis filter_union_mset size_union subset_mset.add_diff_inverse)
  then have old: "gap K M = size {#k \<in># R. k \<notin> K#} + size {#k \<in># M - R. k \<notin> K#} + (if K \<subseteq> set_mset M then 0 else 1)"
    by (simp add: gap_def)
  from assms(4) show ?thesis
  proof
    assume "\<exists>k \<in># M - R. k \<notin> K"
    then have "{#k \<in># M - R. k \<notin> K#} \<noteq> {#}" unfolding filter_mset_eq_mempty_iff by blast
    then have "0 < size {#k \<in># M - R. k \<notin> K#}" by (simp only: nonempty_has_size)
    then show ?thesis by (simp add: new old)
  qed (simp add: new old)
qed

text \<open>
  The difference splits off elements of its two arguments, one per key, and its keys are the two
  set differences.
\<close>

locale keyed_diff =
  fixes diff :: "'o \<Rightarrow> 'a list \<Rightarrow> 'a list \<Rightarrow> ('a \<Rightarrow> string) \<Rightarrow> 'a list \<times> 'a list"
    and ok :: "'o \<Rightarrow> bool"
  assumes delete_keys: "ok x \<Longrightarrow> diff x d a key = (del, cre) \<Longrightarrow> key ` set del = key ` set a - key ` set d"
    and create_keys: "ok x \<Longrightarrow> diff x d a key = (del, cre) \<Longrightarrow> key ` set cre = key ` set d - key ` set a"
    and delete_subset: "ok x \<Longrightarrow> diff x d a key = (del, cre) \<Longrightarrow> set del \<subseteq> set a"
    and create_subset: "ok x \<Longrightarrow> diff x d a key = (del, cre) \<Longrightarrow> set cre \<subseteq> set d"
    and delete_once: "ok x \<Longrightarrow> diff x d a key = (del, cre) \<Longrightarrow> distinct (map key del)"
    and create_once: "ok x \<Longrightarrow> diff x d a key = (del, cre) \<Longrightarrow> distinct (map key cre)"
begin

lemma delete_Nil_iff:
  assumes "ok x" "diff x d a key = (del, cre)"
  shows "del = [] \<longleftrightarrow> key ` set a \<subseteq> key ` set d"
  using delete_keys [OF assms] by (metis Diff_eq_empty_iff image_is_empty set_empty)

lemma create_Nil_iff:
  assumes "ok x" "diff x d a key = (del, cre)"
  shows "cre = [] \<longleftrightarrow> key ` set d \<subseteq> key ` set a"
  using create_keys [OF assms] by (metis Diff_eq_empty_iff image_is_empty set_empty)

lemma idle_iff:
  assumes "ok x"
  shows "diff x d a key = ([], []) \<longleftrightarrow> key ` set d = key ` set a"
proof -
  obtain del cre where res: "diff x d a key = (del, cre)" by fastforce
  show ?thesis
    using delete_Nil_iff [OF assms res] create_Nil_iff [OF assms res] res by auto
qed

text \<open>Deleting and creating what the difference names leaves exactly the desired keys.\<close>

lemma apply_keys:
  assumes "ok x" "diff x d a key = (del, cre)"
  shows "key ` set ([i \<leftarrow> a. key i \<notin> key ` set del] @ cre) = key ` set d"
proof -
  have "key ` set [i \<leftarrow> a. key i \<notin> key ` set del] = key ` set a - key ` set del"
    by (auto simp: image_iff)
  moreover have "key ` set a - key ` set del \<union> key ` set cre = key ` set d"
    unfolding delete_keys [OF assms] create_keys [OF assms] by blast
  ultimately show ?thesis by (simp only: set_append image_Un)
qed

text \<open>
  The same with addresses: when the elements with the addresses of the surplus have been removed and
  something with each missing key has been added, the collection is closer to the desired one.
\<close>

lemma delete_spares:
  assumes "ok x" "diff x d a key = (del, cre)" "distinct (map href a)" "i \<in> set a" "key i \<in> key ` set d"
  shows "href i \<notin> href ` set del"
proof
  assume "href i \<in> href ` set del"
  then obtain j where j: "j \<in> set del" "href i = href j" by auto
  then have "i = j" using delete_subset [OF assms(1,2)] assms(3,4) by (metis distinct_map inj_onD subsetD)
  with j(1) assms(5) delete_keys [OF assms(1,2)] show False by blast
qed

lemma apply_gap:
  assumes "ok x" "diff x d a key = (del, cre)" "del \<noteq> [] \<or> cre \<noteq> []" "distinct (map href a)"
    and "N = mset (map key cre)"
  shows "gap (key ` set d) ({#key i. i \<in># mset [i \<leftarrow> a. href i \<notin> href ` set del]#} + N) < gap (key ` set d) (mset (map key a))"
proof (rule gap_less)
  let ?K = "key ` set d" and ?left = "[i \<leftarrow> a. href i \<notin> href ` set del]" and ?gone = "[i \<leftarrow> a. href i \<in> href ` set del]"
  note laws = delete_keys [OF assms(1,2)] create_keys [OF assms(1,2)] delete_subset [OF assms(1,2)]
  have all: "mset (map key a) = image_mset key (mset ?left) + image_mset key (mset ?gone)"
    using multiset_partition [of "mset a" "\<lambda>i. href i \<in> href ` set del"] by (simp add: union_commute flip: image_mset_union)
  then show "image_mset key (mset ?left) \<subseteq># mset (map key a)" by simp
  show "set_mset N \<subseteq> ?K" using laws(2) assms(5) by auto
  show "?K \<subseteq> set_mset (image_mset key (mset ?left) + N)"
  proof
    fix k assume k: "k \<in> ?K"
    show "k \<in> set_mset (image_mset key (mset ?left) + N)"
    proof (cases "k \<in> key ` set a")
      case True
      then obtain i where i: "i \<in> set a" "k = key i" by auto
      with k delete_spares [OF assms(1,2,4)] have "i \<in> set ?left" by simp
      with i(2) show ?thesis by simp
    next
      case False
      with k laws(2) show ?thesis using assms(5) by auto
    qed
  qed
  show "\<not> ?K \<subseteq> set_mset (mset (map key a)) \<or> (\<exists>k \<in># mset (map key a) - image_mset key (mset ?left). k \<notin> ?K)"
  proof (cases "del = []")
    case True
    with assms(3) have "?K - key ` set a \<noteq> {}" by (simp flip: laws(2))
    then show ?thesis by auto
  next
    case False
    then obtain j where j: "j \<in> set del" by (meson list.set_sel(1))
    with laws(1,3) have "j \<in> set ?gone" and new: "key j \<notin> ?K" by auto
    then have "key j \<in># image_mset key (mset ?gone)" by simp
    also have "image_mset key (mset ?gone) = mset (map key a) - image_mset key (mset ?left)" unfolding all by simp
    finally show ?thesis using new by blast
  qed
qed

text \<open>A second difference after applying the first has nothing left to do.\<close>

lemma apply_idle:
  assumes "ok x" "ok y" "diff x d a key = (del, cre)"
  shows "diff y d ([i \<leftarrow> a. key i \<notin> key ` set del] @ cre) key = ([], [])"
  using idle_iff [OF assms(2)] apply_keys [OF assms(1,3)] by metis

end

section \<open>The implementation meets the contract\<close>

lemma index_by_mem: "(k, i) \<in> set (index_by key xs) \<Longrightarrow> i \<in> set xs \<and> key i = k"
  by (metis index_by_distinct index_by_lookup_Some map_of_is_SomeI)

lemma index_by_hit:
  assumes "x \<in> set xs"
  obtains y where "(key x, y) \<in> set (index_by key xs)" "key y = key x"
proof -
  have "map_of (index_by key xs) (key x) \<noteq> None"
    using assms by (simp add: index_by_lookup_None)
  then obtain y where "map_of (index_by key xs) (key x) = Some y" by blast
  then show thesis using that index_by_lookup_Some map_of_SomeD by metis
qed

lemma missing_from_set:
  assumes "range_order ord" "distinct (map fst m)"
  shows "set (missing_from ord m n) = {i. \<exists>k. (k, i) \<in> set m \<and> map_of n k = None}"
  using go_range_set [OF assms] by (auto simp: missing_from_def)

lemma missing_from_keys:
  assumes "range_order ord"
  shows "key ` set (missing_from ord (index_by key xs) (index_by key ys)) = key ` set xs - key ` set ys"
    (is "?L = ?R")
proof
  show "?L \<subseteq> ?R"
    by (auto simp: missing_from_set [OF assms] index_by_lookup_None dest!: index_by_mem)
  show "?R \<subseteq> ?L"
  proof
    fix k assume k: "k \<in> ?R"
    then obtain x where "x \<in> set xs" "key x = k" by auto
    then obtain y where y: "(k, y) \<in> set (index_by key xs)" "key y = k"
      using index_by_hit by metis
    have "map_of (index_by key ys) k = None" using k by (simp add: index_by_lookup_None)
    with y show "k \<in> ?L" by (auto simp: missing_from_set [OF assms])
  qed
qed

lemma missing_from_subset:
  assumes "range_order ord"
  shows "set (missing_from ord (index_by key xs) n) \<subseteq> set xs"
  by (auto simp: missing_from_set [OF assms] dest: index_by_mem)

lemma missing_from_distinct:
  assumes "range_order ord"
  shows "distinct (map key (missing_from ord (index_by key xs) n))"
proof -
  have pick: "map key [i. (k, i) \<leftarrow> ps, map_of n k = None]
      = filter (\<lambda>k. map_of n k = None) (map fst ps)"
    if "\<And>k i. (k, i) \<in> set ps \<Longrightarrow> key i = k" for ps
    using that by (induction ps) (auto split: prod.split)
  have "map key (missing_from ord (index_by key xs) n)
      = filter (\<lambda>k. map_of n k = None) (map fst (go_range ord (index_by key xs)))"
    unfolding missing_from_def by (rule pick) (simp add: go_range_set [OF assms] index_by_mem)
  then show ?thesis
    using distinct_filter [OF go_range_distinct [OF assms index_by_distinct]] by metis
qed

lemmas missing_from_laws = missing_from_keys missing_from_subset missing_from_distinct

lemma DiffD:
  assumes "valid_orders x" "Diff x d a key = (del, cre)"
  shows "del = missing_from (snd x) (index_by key a) (index_by key d)" "range_order (snd x)"
    and "cre = missing_from (fst x) (index_by key d) (index_by key a)" "range_order (fst x)"
  using assms by (auto simp: Diff_def Let_def valid_orders_def)

interpretation go_diff: keyed_diff Diff valid_orders
  by unfold_locales (metis DiffD missing_from_laws)+

lemma index_by_mem_iff:
  assumes "distinct (map key xs)"
  shows "(k, i) \<in> set (index_by key xs) \<longleftrightarrow> i \<in> set xs \<and> key i = k"
proof
  assume i: "i \<in> set xs \<and> key i = k"
  then obtain y where "(k, y) \<in> set (index_by key xs)" "key y = k" using index_by_hit by metis
  moreover from this i have "y = i" using assms index_by_mem by (metis distinct_map inj_onD)
  ultimately show "(k, i) \<in> set (index_by key xs)" by simp
qed (simp add: index_by_mem)

lemma missing_from_exact:
  assumes "range_order ord" "distinct (map key xs)"
  shows "mset (missing_from ord (index_by key xs) (index_by key ys)) = mset [i \<leftarrow> xs. key i \<notin> key ` set ys]"
proof -
  have "set (missing_from ord (index_by key xs) (index_by key ys)) = set [i \<leftarrow> xs. key i \<notin> key ` set ys]"
    by (auto simp: missing_from_set [OF assms(1)] index_by_mem_iff [OF assms(2)] index_by_lookup_None)
  moreover have "distinct (missing_from ord (index_by key xs) (index_by key ys))"
    using missing_from_distinct [OF assms(1), of key xs] by (simp add: distinct_map)
  moreover have "distinct [i \<leftarrow> xs. key i \<notin> key ` set ys]"
    using assms(2) by (simp add: distinct_map)
  ultimately show ?thesis using set_eq_iff_mset_eq_distinct by blast
qed

lemma Match_mem:
  "(x, y) \<in> set (Match as bs key) \<longleftrightarrow> x \<in> set as \<and> find (\<lambda>b. key b = key x) (rev bs) = Some y"
  by (force simp: Match_def Let_def List.map_filter_def index_by_lookup)

lemma MatchD: "(x, y) \<in> set (Match as bs key) \<Longrightarrow> x \<in> set as \<and> y \<in> set bs \<and> key x = key y"
  by (metis Match_mem index_by_lookup index_by_lookup_Some)

section \<open>Properties\<close>

text \<open>
  C19. One round of deleting and creating converges: after the elements named by \<open>Diff\<close> have been
  removed from and added to the actual list, another \<open>Diff\<close> finds nothing to do, whatever orders
  the two runs iterate their maps in.
\<close>

theorem Diff_converges:
  assumes "valid_orders x" "valid_orders y" "Diff x desired actual key = (toDelete, toCreate)"
  shows "Diff y desired ([i \<leftarrow> actual. key i \<notin> key ` set toDelete] @ toCreate) key = ([], [])"
  using assms by (rule go_diff.apply_idle)

theorem Diff_converges_witness:
  "Diff (rev, rev) [2, 3 :: int] ([i \<leftarrow> [1, 2]. show_int i \<notin> show_int ` set [1]] @ [3]) show_int = ([], [])"
proof -
  have v: "valid_orders (rev, rev)" by (simp add: valid_orders_def range_order_def)
  have d: "Diff (rev, rev) [2, 3 :: int] [1, 2] show_int = ([1], [3])"
    by (simp add: Diff_def missing_from_def go_range_def index_by_def List.map_filter_def)
  show ?thesis by (rule Diff_converges [OF v v d])
qed

text \<open>
  C20. On lists without duplicate keys \<open>Diff\<close> is the pair of plain list differences by key, up to the
  order of the results: every surplus element is deleted once and every missing one created once.
\<close>

theorem Diff_exact:
  assumes "valid_orders x" "distinct (map key desired)" "distinct (map key actual)"
    and "Diff x desired actual key = (toDelete, toCreate)"
  shows "mset toDelete = mset [i \<leftarrow> actual. key i \<notin> key ` set desired] \<and>
         mset toCreate = mset [i \<leftarrow> desired. key i \<notin> key ` set actual]"
  using DiffD [OF assms(1,4)] missing_from_exact assms(2,3) by metis

theorem Diff_exact_witness:
  "mset [1] = mset [i \<leftarrow> [1, 2 :: int]. show_int i \<notin> show_int ` set [2, 3]] \<and>
   mset [3] = mset [i \<leftarrow> [2, 3 :: int]. show_int i \<notin> show_int ` set [1, 2]]"
proof -
  have v: "valid_orders (rev, rev)" by (simp add: valid_orders_def range_order_def)
  have d: "Diff (rev, rev) [2, 3 :: int] [1, 2] show_int = ([1], [3])"
    by (simp add: Diff_def missing_from_def go_range_def index_by_def List.map_filter_def)
  have "distinct (map show_int [2, 3])" "distinct (map show_int [1, 2])" by simp_all
  from Diff_exact [OF v this d] show ?thesis by simp
qed

end
