(* ===== verification/Limiter.thy ===== *)
theory Limiter
  imports Go_Base
begin

text \<open>
  Package \<open>limiter\<close> (\<open>src/pkg/internal/limiter/limiter.go\<close>): a list of search results with an error,
  and the ways a caller reads it (all results, exactly one, at most one, none). A pointer result
  \<open>*T\<close> that may be nil is an \<^typ>\<open>'a option\<close>; \<open>Unique\<close> changes its receiver and returns it, so the
  model returns the changed limiter.
\<close>

section \<open>Operations\<close>

record 'a limiter =
  lim_Error :: "error option"
  lim_elements :: "'a list"

definition limiter_New :: "error option \<Rightarrow> 'a list \<Rightarrow> 'a limiter" where
  "limiter_New err elements = \<lparr>lim_Error = err, lim_elements = elements\<rparr>"

definition limiter_join_step :: "'a limiter \<Rightarrow> 'a limiter \<Rightarrow> 'a limiter" where
  "limiter_join_step joined lim =
     (let joined' = (if lim_Error joined \<noteq> None \<and> lim_Error lim \<noteq> None
                     then joined\<lparr>lim_Error := lim_Error lim\<rparr> else joined)
      in joined'\<lparr>lim_elements := lim_elements joined' @ lim_elements lim\<rparr>)"

definition limiter_Join :: "'a limiter list \<Rightarrow> 'a limiter" where
  "limiter_Join limiters = foldl limiter_join_step \<lparr>lim_Error = None, lim_elements = []\<rparr> limiters"

definition unique_step :: "('a \<Rightarrow> 'a \<Rightarrow> bool) \<Rightarrow> 'a list \<Rightarrow> 'a \<Rightarrow> 'a list" where
  "unique_step eq result a = (if list_ex (\<lambda>b. eq a b) result then result else result @ [a])"

definition limiter_Unique :: "('a \<Rightarrow> 'a \<Rightarrow> bool) \<Rightarrow> 'a limiter \<Rightarrow> 'a limiter" where
  "limiter_Unique eq t = t\<lparr>lim_elements := foldl (unique_step eq) [] (lim_elements t)\<rparr>"

definition limiter_All :: "'a limiter \<Rightarrow> 'a list res" where
  "limiter_All t = (case lim_Error t of Some e \<Rightarrow> Err e | None \<Rightarrow> Ok (lim_elements t))"

definition limiter_One :: "'a limiter \<Rightarrow> 'a res" where
  "limiter_One t = (case lim_Error t of
       Some e \<Rightarrow> Err e
     | None \<Rightarrow>
         if length (lim_elements t) > 1 then Err (ErrorMsg ''found more than one'')
         else case lim_elements t of [] \<Rightarrow> Err (ErrorMsg ''found none'') | x # _ \<Rightarrow> Ok x)"

definition limiter_None :: "'a limiter \<Rightarrow> error option" where
  "limiter_None t = (case lim_Error t of
       Some e \<Rightarrow> Some e
     | None \<Rightarrow> if length (lim_elements t) > 0 then Some (ErrorMsg ''found some elements'') else None)"

definition limiter_AtMostOne :: "'a limiter \<Rightarrow> 'a option res" where
  "limiter_AtMostOne t = (case lim_Error t of
       Some e \<Rightarrow> Err e
     | None \<Rightarrow>
         if length (lim_elements t) > 1 then Err (ErrorMsg ''found more than one'')
         else case lim_elements t of [] \<Rightarrow> Ok None | x # _ \<Rightarrow> Ok (Some x))"

definition limiter_Count :: "'a limiter \<Rightarrow> nat" where
  "limiter_Count t = (case lim_Error t of Some e \<Rightarrow> 0 | None \<Rightarrow> length (lim_elements t))"

section \<open>Laws\<close>

lemma New_sel [simp]:
  "lim_Error (limiter_New e xs) = e" "lim_elements (limiter_New e xs) = xs"
  by (simp_all add: limiter_New_def)

lemma AtMostOne_Some_iff:
  "limiter_AtMostOne t = Ok (Some x) \<longleftrightarrow> lim_Error t = None \<and> lim_elements t = [x]"
  by (auto simp: limiter_AtMostOne_def split: option.splits list.splits if_splits)

lemma AtMostOne_None_iff:
  "limiter_AtMostOne t = Ok None \<longleftrightarrow> lim_Error t = None \<and> lim_elements t = []"
  by (auto simp: limiter_AtMostOne_def split: option.splits list.splits if_splits)

lemma AtMostOne_no_panic [simp]: "limiter_AtMostOne t \<noteq> Panic m"
  by (auto simp: limiter_AtMostOne_def split: option.splits list.splits if_splits)

lemma One_iff: "limiter_One t = Ok x \<longleftrightarrow> lim_Error t = None \<and> lim_elements t = [x]"
  by (auto simp: limiter_One_def split: option.splits list.splits if_splits)

lemma One_no_panic [simp]: "limiter_One t \<noteq> Panic m"
  by (auto simp: limiter_One_def split: option.splits list.splits if_splits)

lemma All_iff: "limiter_All t = Ok xs \<longleftrightarrow> lim_Error t = None \<and> lim_elements t = xs"
  by (auto simp: limiter_All_def split: option.splits)

lemma join_fold:
  "lim_Error j = None \<Longrightarrow>
     lim_Error (foldl limiter_join_step j ls) = None \<and>
     lim_elements (foldl limiter_join_step j ls) = lim_elements j @ concat (map lim_elements ls)"
  by (induction ls arbitrary: j) (auto simp: limiter_join_step_def)

lemma Join_sel [simp]:
  "lim_Error (limiter_Join ls) = None"
  "lim_elements (limiter_Join ls) = concat (map lim_elements ls)"
  using join_fold [of "\<lparr>lim_Error = None, lim_elements = []\<rparr>" ls] by (auto simp: limiter_Join_def)

text \<open>
  With a comparison by a field \<open>f\<close>, \<open>Unique\<close> keeps the first element for each value of the field.
\<close>

lemma unique_fold_keys:
  assumes "\<And>a b. eq a b \<longleftrightarrow> f a = f b"
  shows "distinct (map f r) \<Longrightarrow>
     distinct (map f (foldl (unique_step eq) r xs)) \<and>
     f ` set (foldl (unique_step eq) r xs) = f ` set r \<union> f ` set xs \<and>
     set (foldl (unique_step eq) r xs) \<subseteq> set r \<union> set xs"
proof (induction xs arbitrary: r)
  case (Cons x xs)
  have "distinct (map f (unique_step eq r x))"
    using Cons.prems by (auto simp: unique_step_def assms list_ex_iff)
  then show ?case
    using Cons.IH [of "unique_step eq r x"]
    by (auto simp: unique_step_def assms list_ex_iff split: if_splits)
qed simp

lemma Unique_Error [simp]: "lim_Error (limiter_Unique eq t) = lim_Error t"
  by (simp add: limiter_Unique_def)

lemma Unique_keys:
  assumes "\<And>a b. eq a b \<longleftrightarrow> f a = f b"
  shows "distinct (map f (lim_elements (limiter_Unique eq t)))"
    and "f ` set (lim_elements (limiter_Unique eq t)) = f ` set (lim_elements t)"
    and "set (lim_elements (limiter_Unique eq t)) \<subseteq> set (lim_elements t)"
  using unique_fold_keys [OF assms, where r = "[]" and xs = "lim_elements t"] by (auto simp: limiter_Unique_def)

lemma unique_fold_absorb: "\<forall>x \<in> set xs. list_ex (eq x) r \<Longrightarrow> foldl (unique_step eq) r xs = r"
  by (induction xs) (simp_all add: unique_step_def)

section \<open>Properties\<close>

text \<open>
  \<open>Join\<close> loses every error: whatever the joined limiters carry, the result has no error and holds
  their elements in order. Its comment says that the first error is kept.
\<close>

lemma Join_drops_errors:
  "lim_Error (limiter_Join ls) = None \<and>
   limiter_All (limiter_Join ls) = Ok (concat (map lim_elements ls))"
  by (simp add: limiter_All_def)

text \<open>
  \<open>Unique\<close> with a comparison by a field keeps exactly one of the elements for every value of the
  field, drops no value, invents no element and keeps the error.
\<close>

lemma Unique_by_field:
  "distinct (map f (lim_elements (limiter_Unique (\<lambda>a b. f a = f b) t))) \<and>
   f ` set (lim_elements (limiter_Unique (\<lambda>a b. f a = f b) t)) = f ` set (lim_elements t) \<and>
   set (lim_elements (limiter_Unique (\<lambda>a b. f a = f b) t)) \<subseteq> set (lim_elements t) \<and>
   lim_Error (limiter_Unique (\<lambda>a b. f a = f b) t) = lim_Error t"
  using Unique_keys [of "\<lambda>a b. f a = f b" f t] by simp

text \<open>
  The readings of a limiter agree: \<open>One\<close> succeeds exactly on an error-free limiter with a single
  element, which \<open>AtMostOne\<close> then returns too; \<open>AtMostOne\<close> returns nil exactly when \<open>None\<close> succeeds;
  an error on the limiter is the result of each of them.
\<close>

lemma limiter_readings:
  "(limiter_One t = Ok x \<longleftrightarrow> limiter_All t = Ok [x]) \<and>
   (limiter_AtMostOne t = Ok (Some x) \<longleftrightarrow> limiter_One t = Ok x) \<and>
   (limiter_AtMostOne t = Ok None \<longleftrightarrow> limiter_None t = None) \<and>
   (lim_Error t = Some e \<longrightarrow> limiter_All t = Err e \<and> limiter_One t = Err e \<and>
      limiter_AtMostOne t = Err e \<and> limiter_None t = Some e \<and> limiter_Count t = 0)"
  by (auto simp: AtMostOne_Some_iff AtMostOne_None_iff One_iff All_iff)
     (auto simp: limiter_None_def limiter_All_def limiter_One_def limiter_AtMostOne_def limiter_Count_def
       split: option.splits if_splits)

end
