(* ===== verification/Cloud_Types.thy ===== *)
theory Cloud_Types
  imports Compare Limiter
begin

text \<open>
  The data the controller manager exchanges with its surroundings, and the surroundings themselves.

  \<^item> The types of the cloudscale SDK and of Kubernetes, reduced to the fields the program reads or
    writes. They are declared outside the repository; the field names are those the sources use.
  \<^item> The calls the program makes, as fields of the record \<open>client\<close>: the cloudscale API, the
    Kubernetes API, the context and the clock. Each takes the world \<open>'w\<close> and returns it changed, so
    nothing is assumed about what a call does, and two calls may see different worlds.
  \<^item> Pure functions of other packages, as fields of the record \<open>ext\<close>: JSON decoding into SDK types,
    UUIDs, label selectors, and the parts of \<open>fmt\<close> and \<open>strings\<close> the prelude leaves open.

  A pointer that may be nil is an option. Where the identity of a pointer matters, it is a number.
\<close>

section \<open>Resources of the cloudscale API\<close>

text \<open>
  \<open>subnet_rest\<close> is the content of the other fields of a subnet stub. The program copies a stub and
  prints it as a whole, but reads only its UUID.
\<close>

record SubnetStub =
  subnet_UUID :: string
  subnet_rest :: string

record VIPAddress =
  vip_Address :: string
  vip_Subnet :: SubnetStub

record LoadBalancer =
  lb_UUID :: string
  lb_HREF :: string
  lb_Name :: string
  lb_Status :: string
  lb_FlavorSlug :: string
  lb_ZoneSlug :: string
  lb_VIPAddresses :: "VIPAddress list"

record LoadBalancerPool =
  pool_UUID :: string
  pool_HREF :: string
  pool_Name :: string
  pool_Algorithm :: string
  pool_Protocol :: string
  pool_LoadBalancerUUID :: string

record LoadBalancerPoolMember =
  mem_HREF :: string
  mem_Name :: string
  mem_Enabled :: bool
  mem_Address :: string
  mem_Subnet :: SubnetStub
  mem_ProtocolPort :: int
  mem_MonitorPort :: int

record LoadBalancerListener =
  lis_UUID :: string
  lis_HREF :: string
  lis_Name :: string
  lis_PoolUUID :: "string option"
  lis_LoadBalancerUUID :: string
  lis_Protocol :: string
  lis_ProtocolPort :: int
  lis_AllowedCIDRs :: "string list"
  lis_TimeoutClientDataMS :: int
  lis_TimeoutMemberConnectMS :: int
  lis_TimeoutMemberDataMS :: int

text \<open>A \<open>*string\<close>: nil, or an address with the string stored there.\<close>

type_synonym string_ptr = "(nat \<times> string) option"

definition ptr_eq :: "string_ptr \<Rightarrow> string_ptr \<Rightarrow> bool" where
  "ptr_eq p q \<longleftrightarrow> map_option fst p = map_option fst q"

record MonitorHTTP =
  http_Method :: string
  http_URLPath :: string
  http_Version :: string
  http_Host :: string_ptr
  http_ExpectedCodes :: "string list"

record LoadBalancerHealthMonitor =
  mon_UUID :: string
  mon_HREF :: string
  mon_PoolUUID :: string
  mon_DelayS :: int
  mon_TimeoutS :: int
  mon_UpThreshold :: int
  mon_DownThreshold :: int
  mon_Type :: string
  mon_HTTP :: "MonitorHTTP option"

record FloatingIP =
  fip_Network :: string
  fip_LoadBalancerUUID :: "string option"

record Address =
  addr_Address :: string
  addr_Subnet :: SubnetStub

record Interface =
  if_Type :: string
  if_Addresses :: "Address list"

record Server =
  srv_UUID :: string
  srv_Name :: string
  srv_Status :: string
  srv_FlavorSlug :: string
  srv_ZoneSlug :: string
  srv_Interfaces :: "Interface list"

section \<open>Requests to the cloudscale API\<close>

record VIPAddressRequest =
  vipreq_Address :: string
  vipreq_Subnet :: string

record LoadBalancerRequest =
  lbreq_Name :: string
  lbreq_Flavor :: string
  lbreq_VIPAddresses :: "VIPAddressRequest list option"
  lbreq_Zone :: string

record PoolRequest =
  poolreq_Name :: string
  poolreq_LoadBalancer :: string
  poolreq_Algorithm :: string
  poolreq_Protocol :: string

record MemberRequest =
  memreq_Name :: string
  memreq_ProtocolPort :: int
  memreq_MonitorPort :: int
  memreq_Address :: string
  memreq_Subnet :: string

record ListenerRequest =
  lisreq_Pool :: string
  lisreq_Name :: string
  lisreq_Protocol :: string
  lisreq_ProtocolPort :: int
  lisreq_AllowedCIDRs :: "string list option"
  lisreq_TimeoutClientDataMS :: int
  lisreq_TimeoutMemberConnectMS :: int
  lisreq_TimeoutMemberDataMS :: int

record MonitorHTTPRequest =
  httpreq_Method :: string
  httpreq_URLPath :: string
  httpreq_Version :: string
  httpreq_Host :: string_ptr
  httpreq_ExpectedCodes :: "string list"

record MonitorRequest =
  monreq_Pool :: string
  monreq_DelayS :: int
  monreq_TimeoutS :: int
  monreq_UpThreshold :: int
  monreq_DownThreshold :: int
  monreq_Type :: string
  monreq_HTTP :: "MonitorHTTPRequest option"

record http_request =
  req_Method :: string
  req_URL :: string

text \<open>The zero values a composite literal leaves in the fields it does not name.\<close>

definition zero_LoadBalancerRequest :: LoadBalancerRequest where
  "zero_LoadBalancerRequest =
     \<lparr>lbreq_Name = [], lbreq_Flavor = [], lbreq_VIPAddresses = None, lbreq_Zone = []\<rparr>"

definition zero_ListenerRequest :: ListenerRequest where
  "zero_ListenerRequest =
     \<lparr>lisreq_Pool = [], lisreq_Name = [], lisreq_Protocol = [], lisreq_ProtocolPort = 0,
      lisreq_AllowedCIDRs = None, lisreq_TimeoutClientDataMS = 0,
      lisreq_TimeoutMemberConnectMS = 0, lisreq_TimeoutMemberDataMS = 0\<rparr>"

definition zero_MonitorHTTP :: MonitorHTTP where
  "zero_MonitorHTTP =
     \<lparr>http_Method = [], http_URLPath = [], http_Version = [], http_Host = None, http_ExpectedCodes = []\<rparr>"

definition zero_MonitorHTTPRequest :: MonitorHTTPRequest where
  "zero_MonitorHTTPRequest =
     \<lparr>httpreq_Method = [], httpreq_URLPath = [], httpreq_Version = [], httpreq_Host = None,
      httpreq_ExpectedCodes = []\<rparr>"

definition zero_MonitorRequest :: MonitorRequest where
  "zero_MonitorRequest =
     \<lparr>monreq_Pool = [], monreq_DelayS = 0, monreq_TimeoutS = 0, monreq_UpThreshold = 0,
      monreq_DownThreshold = 0, monreq_Type = [], monreq_HTTP = None\<rparr>"

definition zero_Listener :: LoadBalancerListener where
  "zero_Listener =
     \<lparr>lis_UUID = [], lis_HREF = [], lis_Name = [], lis_PoolUUID = None, lis_LoadBalancerUUID = [],
      lis_Protocol = [], lis_ProtocolPort = 0, lis_AllowedCIDRs = [], lis_TimeoutClientDataMS = 0,
      lis_TimeoutMemberConnectMS = 0, lis_TimeoutMemberDataMS = 0\<rparr>"

definition zero_Monitor :: LoadBalancerHealthMonitor where
  "zero_Monitor =
     \<lparr>mon_UUID = [], mon_HREF = [], mon_PoolUUID = [], mon_DelayS = 0, mon_TimeoutS = 0,
      mon_UpThreshold = 0, mon_DownThreshold = 0, mon_Type = [], mon_HTTP = None\<rparr>"

section \<open>Kubernetes objects\<close>

record ServicePort =
  port_Name :: string
  port_Protocol :: string
  port_Port :: int
  port_NodePort :: int

text \<open>A nil annotation map is \<open>None\<close>.\<close>

record Service =
  svc_Name :: string
  svc_Namespace :: string
  svc_UID :: string
  svc_Annotations :: "(string \<times> string) list option"
  svc_Type :: string
  svc_LoadBalancerClass :: "string option"
  svc_Ports :: "ServicePort list"
  svc_ExternalTrafficPolicy :: string
  svc_HealthCheckNodePort :: int

record Node =
  node_Name :: string
  node_ProviderID :: string
  node_Labels :: "(string \<times> string) list"

record ServicePage =
  page_Items :: "Service list"
  page_Continue :: string

record KubeVersion =
  kube_Major :: string
  kube_Minor :: string

text \<open>One operation of a JSON patch; the value is a string or the empty object.\<close>

datatype patch_value = PatchString string | PatchEmptyObject

record patch_op =
  patch_Op :: string
  patch_Path :: string
  patch_Value :: patch_value

section \<open>The surroundings\<close>

text \<open>
  Where \<open>nextLbActions\<close> compares lists: the pools, the members, listeners and monitors of the pool
  with the given position, and the floating IPs. Each comparison ranges over two maps, in orders
  the runtime picks.
\<close>

datatype diff_site = PoolsSite | MembersSite nat | ListenersSite nat | MonitorsSite nat | FloatingSite

type_synonym site_orders = "diff_site \<Rightarrow> orders"

definition valid_site_orders :: "site_orders \<Rightarrow> bool" where
  "valid_site_orders ro \<longleftrightarrow> (\<forall>s. valid_orders (ro s))"

text \<open>
  The calls with effects. \<open>LoadBalancers_Create\<close> and its like return the error of the call;
  \<open>ctx_Err\<close> is the error of the context; \<open>wait_or_done\<close> is the \<open>select\<close> between \<open>ctx.Done()\<close> and a
  timer, true when it takes the branch of the context; \<open>range_orders\<close> are the map iteration orders
  of the next comparison run.
\<close>

record 'w client =
  LoadBalancers_Create :: "LoadBalancerRequest \<Rightarrow> 'w \<Rightarrow> error option \<times> 'w"
  LoadBalancers_Update :: "string \<Rightarrow> LoadBalancerRequest \<Rightarrow> 'w \<Rightarrow> error option \<times> 'w"
  LoadBalancers_Get :: "string \<Rightarrow> 'w \<Rightarrow> (error + LoadBalancer) \<times> 'w"
  LoadBalancers_List :: "'w \<Rightarrow> (error + LoadBalancer list) \<times> 'w"
  Pools_Create :: "PoolRequest \<Rightarrow> 'w \<Rightarrow> error option \<times> 'w"
  Pools_List :: "'w \<Rightarrow> (error + LoadBalancerPool list) \<times> 'w"
  Members_Create :: "string \<Rightarrow> MemberRequest \<Rightarrow> 'w \<Rightarrow> error option \<times> 'w"
  Members_List :: "string \<Rightarrow> 'w \<Rightarrow> (error + LoadBalancerPoolMember list) \<times> 'w"
  Listeners_Create :: "ListenerRequest \<Rightarrow> 'w \<Rightarrow> error option \<times> 'w"
  Listeners_Update :: "string \<Rightarrow> ListenerRequest \<Rightarrow> 'w \<Rightarrow> error option \<times> 'w"
  Listeners_List :: "'w \<Rightarrow> (error + LoadBalancerListener list) \<times> 'w"
  Monitors_Create :: "MonitorRequest \<Rightarrow> 'w \<Rightarrow> error option \<times> 'w"
  Monitors_Update :: "string \<Rightarrow> MonitorRequest \<Rightarrow> 'w \<Rightarrow> error option \<times> 'w"
  Monitors_List :: "'w \<Rightarrow> (error + LoadBalancerHealthMonitor list) \<times> 'w"
  FloatingIPs_Update :: "string \<Rightarrow> string \<Rightarrow> 'w \<Rightarrow> error option \<times> 'w"
  FloatingIPs_List :: "'w \<Rightarrow> (error + FloatingIP list) \<times> 'w"
  Servers_Get :: "string \<Rightarrow> 'w \<Rightarrow> (error + Server) \<times> 'w"
  Servers_List :: "'w \<Rightarrow> (error + Server list) \<times> 'w"
  client_NewRequest :: "string \<Rightarrow> string \<Rightarrow> error + http_request"
  client_Do :: "http_request \<Rightarrow> 'w \<Rightarrow> error option \<times> 'w"
  ctx_Err :: "'w \<Rightarrow> error option"
  wait_or_done :: "int \<Rightarrow> 'w \<Rightarrow> bool \<times> 'w"
  rand_Intn :: "int \<Rightarrow> 'w \<Rightarrow> int \<times> 'w"
  range_orders :: "'w \<Rightarrow> site_orders"

record 'w k8s =
  Services_List :: "string \<Rightarrow> int \<Rightarrow> 'w \<Rightarrow> (error + ServicePage) \<times> 'w"
  Services_Patch :: "string \<Rightarrow> string \<Rightarrow> patch_op list \<Rightarrow> 'w \<Rightarrow> error option \<times> 'w"
  ServerVersion :: "'w \<Rightarrow> (error + KubeVersion) \<times> 'w"

text \<open>
  The pure functions of other packages. \<open>x_json_vip\<close> and \<open>x_json_http\<close> are \<open>json.Unmarshal\<close> into a
  \<open>[]VIPAddressRequest\<close> and into a pointer to the HTTP options of a monitor, whose JSON field names
  are part of the SDK; the pointer stays nil for the JSON text \<open>null\<close>.
\<close>

type_synonym uuid = "8 word list"

record ext =
  x_json_vip :: "string \<Rightarrow> error + VIPAddressRequest list"
  x_json_http :: "string \<Rightarrow> error + MonitorHTTP option"
  x_uuid_Parse :: "string \<Rightarrow> error + uuid"
  x_uuid_String :: "uuid \<Rightarrow> string"
  x_labels_Parse :: "string \<Rightarrow> error + ((string \<times> string) list \<Rightarrow> bool)"
  x_show_subnet :: "SubnetStub \<Rightarrow> string"
  x_sprintf :: "string \<Rightarrow> fmt_arg list \<Rightarrow> string"
  x_unicode_lower :: "string \<Rightarrow> string"
  x_show_duration :: "int \<Rightarrow> string"
  x_show_pointer :: "string_ptr \<Rightarrow> string"

section \<open>A concrete instance of the pure parameters, for evaluating definitions\<close>

definition sample_uuid_text :: string where
  "sample_uuid_text = ''80b95e35-4b8a-4c1d-9d0b-2c6f7e1f5b3a''"

definition sample_ext :: ext where
  "sample_ext =
     \<lparr>x_json_vip = (\<lambda>s. if s = ''[]'' then Inr [] else Inl (ForeignError ''encoding/json'')),
      x_json_http = (\<lambda>s. if s = ''null'' then Inr None else Inr (Some zero_MonitorHTTP)),
      x_uuid_Parse = (\<lambda>s. if s = sample_uuid_text then Inr [128, 185] else Inl (ForeignError ''uuid'')),
      x_uuid_String = (\<lambda>u. sample_uuid_text),
      x_labels_Parse = (\<lambda>s. Inr (\<lambda>ls. map_of ls ''zone'' = Some s)),
      x_show_subnet = (\<lambda>n. ''{'' @ subnet_rest n @ '' '' @ subnet_UUID n @ ''}''),
      x_sprintf = (\<lambda>f as. f @ fmt_extra as),
      x_unicode_lower = (\<lambda>s. s),
      x_show_duration = show_int,
      x_show_pointer = (\<lambda>p. ''0xc000012345'')\<rparr>"

text \<open>Surroundings in which nothing exists and every change succeeds.\<close>

definition idle_client :: "'w client" where
  "idle_client =
     \<lparr>LoadBalancers_Create = (\<lambda>r w. (None, w)), LoadBalancers_Update = (\<lambda>u r w. (None, w)),
      LoadBalancers_Get = (\<lambda>u w. (Inl (ErrorResponse 404), w)), LoadBalancers_List = (\<lambda>w. (Inr [], w)),
      Pools_Create = (\<lambda>r w. (None, w)), Pools_List = (\<lambda>w. (Inr [], w)),
      Members_Create = (\<lambda>u r w. (None, w)), Members_List = (\<lambda>u w. (Inr [], w)),
      Listeners_Create = (\<lambda>r w. (None, w)), Listeners_Update = (\<lambda>u r w. (None, w)),
      Listeners_List = (\<lambda>w. (Inr [], w)),
      Monitors_Create = (\<lambda>r w. (None, w)), Monitors_Update = (\<lambda>u r w. (None, w)),
      Monitors_List = (\<lambda>w. (Inr [], w)),
      FloatingIPs_Update = (\<lambda>i u w. (None, w)), FloatingIPs_List = (\<lambda>w. (Inr [], w)),
      Servers_Get = (\<lambda>u w. (Inl (ErrorResponse 404), w)), Servers_List = (\<lambda>w. (Inr [], w)),
      client_NewRequest = (\<lambda>m u. Inr \<lparr>req_Method = m, req_URL = u\<rparr>),
      client_Do = (\<lambda>r w. (None, w)),
      ctx_Err = (\<lambda>w. None), wait_or_done = (\<lambda>d w. (False, w)), rand_Intn = (\<lambda>n w. (0, w)),
      range_orders = (\<lambda>w s. (id, id))\<rparr>"

definition sample_k8s :: "'w k8s" where
  "sample_k8s =
     \<lparr>Services_List = (\<lambda>cont limit w. (Inr \<lparr>page_Items = [], page_Continue = []\<rparr>, w)),
      Services_Patch = (\<lambda>ns name ops w. (None, w)),
      ServerVersion = (\<lambda>w. (Inr \<lparr>kube_Major = show_int 1, kube_Minor = show_int 31\<rparr>, w))\<rparr>"

definition sample_lb :: LoadBalancer where
  "sample_lb = \<lparr>lb_UUID = ''4a04'', lb_HREF = ''https://api/lb/4a04'', lb_Name = ''k8s-service-deadbeef'',
     lb_Status = ''running'', lb_FlavorSlug = ''lb-standard'', lb_ZoneSlug = ''lpg1'',
     lb_VIPAddresses = [\<lparr>vip_Address = ''10.0.0.7'', vip_Subnet = \<lparr>subnet_UUID = ''sn'', subnet_rest = []\<rparr>\<rparr>]\<rparr>"

definition sample_server :: Server where
  "sample_server = \<lparr>srv_UUID = sample_uuid_text, srv_Name = ''worker-1'', srv_Status = ''running'',
     srv_FlavorSlug = ''flex-4-2'', srv_ZoneSlug = ''lpg1'',
     srv_Interfaces = [\<lparr>if_Type = ''private'',
       if_Addresses = [\<lparr>addr_Address = ''10.0.0.1'', addr_Subnet = \<lparr>subnet_UUID = ''sn'', subnet_rest = []\<rparr>\<rparr>]\<rparr>]\<rparr>"

definition sample_node :: Node where
  "sample_node = \<lparr>node_Name = ''worker-1'', node_ProviderID = [], node_Labels = []\<rparr>"

lemmas zero_defs =
  zero_LoadBalancerRequest_def zero_ListenerRequest_def zero_MonitorHTTP_def
  zero_MonitorHTTPRequest_def zero_MonitorRequest_def zero_Listener_def zero_Monitor_def

lemma valid_site_ordersD [dest]: "valid_site_orders ro \<Longrightarrow> valid_orders (ro s)"
  by (simp add: valid_site_orders_def)

end
