(* ===== verification/Json_List.thy ===== *)
theory Json_List
  imports Go_Base
begin

text \<open>
  \<open>json.Unmarshal\<close> of \<open>encoding/json\<close> into a \<open>[]string\<close>, as \<open>serviceInfo.annotationList\<close>
  (\<open>src/pkg/cloudscale_ccm/service_info.go\<close>) uses it.

  The decoder accepts \<open>null\<close> and an array whose elements are strings and \<open>null\<close>, which decodes to the
  empty string; every other text is an error, either because it is not JSON or because its type
  does not fit. All errors of the package are one value here. Strings are decoded byte by byte:
  escapes, \<open>\u\<close> escapes with surrogate pairs, and bytes that are not UTF-8, which become U+FFFD.
\<close>

section \<open>Unicode\<close>

abbreviation byte_of :: "char \<Rightarrow> nat" where
  "byte_of c \<equiv> of_char c"

definition in_range :: "nat \<Rightarrow> nat \<Rightarrow> char \<Rightarrow> bool" where
  "in_range lo hi c \<longleftrightarrow> lo \<le> byte_of c \<and> byte_of c \<le> hi"

text \<open>The number of bytes of the UTF-8 sequence at the head of the text, 0 when it is not one.\<close>

definition utf8_len :: "string \<Rightarrow> nat" where
  "utf8_len s =
     (case s of
        [] \<Rightarrow> 0
      | a # t \<Rightarrow>
          if byte_of a < 128 then 1
          else if in_range 194 223 a then
            (case t of b # _ \<Rightarrow> if in_range 128 191 b then 2 else 0 | [] \<Rightarrow> 0)
          else if in_range 224 239 a then
            (case t of
               b # c # _ \<Rightarrow>
                 if in_range (if byte_of a = 224 then 160 else 128) (if byte_of a = 237 then 159 else 191) b
                    \<and> in_range 128 191 c then 3 else 0
             | _ \<Rightarrow> 0)
          else if in_range 240 244 a then
            (case t of
               b # c # d # _ \<Rightarrow>
                 if in_range (if byte_of a = 240 then 144 else 128) (if byte_of a = 244 then 143 else 191) b
                    \<and> in_range 128 191 c \<and> in_range 128 191 d then 4 else 0
             | _ \<Rightarrow> 0)
          else 0)"

text \<open>The UTF-8 encoding of a code point.\<close>

definition utf8_encode :: "nat \<Rightarrow> string" where
  "utf8_encode r =
     (if r < 128 then [char_of r]
      else if r < 2048 then [char_of (192 + r div 64), char_of (128 + r mod 64)]
      else if r < 65536 then
        [char_of (224 + r div 4096), char_of (128 + r div 64 mod 64), char_of (128 + r mod 64)]
      else
        [char_of (240 + r div 262144), char_of (128 + r div 4096 mod 64),
         char_of (128 + r div 64 mod 64), char_of (128 + r mod 64)])"

abbreviation replacement_char :: nat where
  "replacement_char \<equiv> 65533"

section \<open>JSON texts\<close>

definition json_space :: "char \<Rightarrow> bool" where
  "json_space c \<longleftrightarrow> byte_of c \<in> {32, 9, 13, 10}"

definition skip_ws :: "string \<Rightarrow> string" where
  "skip_ws s = dropWhile json_space s"

definition hex_digit :: "char \<Rightarrow> nat option" where
  "hex_digit c =
     (if in_range 48 57 c then Some (byte_of c - 48)
      else if in_range 97 102 c then Some (byte_of c - 87)
      else if in_range 65 70 c then Some (byte_of c - 55)
      else None)"

text \<open>The four hexadecimal digits after \<open>\u\<close>.\<close>

definition getu4 :: "string \<Rightarrow> nat option" where
  "getu4 s = (case s of
       a # b # c # d # _ \<Rightarrow>
         (case (hex_digit a, hex_digit b, hex_digit c, hex_digit d) of
            (Some w, Some x, Some y, Some z) \<Rightarrow> Some (((w * 16 + x) * 16 + y) * 16 + z)
          | _ \<Rightarrow> None)
     | _ \<Rightarrow> None)"

text \<open>
  The code point of a \<open>\u\<close> escape whose digits have been read, and how much of the following text it
  uses up: a high surrogate takes a following \<open>\u\<close> escape with a low surrogate, any other
  surrogate becomes U+FFFD.
\<close>

definition decode_u :: "nat \<Rightarrow> string \<Rightarrow> nat \<times> nat" where
  "decode_u r rest =
     (if 55296 \<le> r \<and> r < 57344 then
        (case rest of
           p # q # t \<Rightarrow>
             if p = CHR 0x5C \<and> q = CHR ''u'' then
               (case getu4 t of
                  Some r2 \<Rightarrow>
                    if r < 56320 \<and> 56320 \<le> r2 \<and> r2 < 57344
                    then ((r - 55296) * 1024 + (r2 - 56320) + 65536, 6)
                    else (replacement_char, 0)
                | None \<Rightarrow> (replacement_char, 0))
             else (replacement_char, 0)
         | _ \<Rightarrow> (replacement_char, 0))
      else (r, 0))"

definition simple_escape :: "char \<Rightarrow> string option" where
  "simple_escape c =
     (if c = CHR 0x22 \<or> c = CHR 0x5C \<or> c = CHR ''/'' then Some [c]
      else if c = CHR ''b'' then Some [char_of (8 :: nat)]
      else if c = CHR ''f'' then Some [char_of (12 :: nat)]
      else if c = CHR ''n'' then Some [char_of (10 :: nat)]
      else if c = CHR ''r'' then Some [char_of (13 :: nat)]
      else if c = CHR ''t'' then Some [char_of (9 :: nat)]
      else None)"

text \<open>The rest of a string literal after its opening quote: its value and the text after it.\<close>

function json_string :: "string \<Rightarrow> (string \<times> string) option" where
  "json_string [] = None"
| "json_string (c # s) =
     (if c = CHR 0x22 then Some ([], s)
      else if c = CHR 0x5C then
        (case s of
           [] \<Rightarrow> None
         | e # t \<Rightarrow>
             if e = CHR ''u'' then
               (case getu4 t of
                  None \<Rightarrow> None
                | Some r \<Rightarrow>
                    (case decode_u r (drop 4 t) of (p, n) \<Rightarrow>
                       map_option (\<lambda>(v, u). (utf8_encode p @ v, u)) (json_string (drop (4 + n) t))))
             else (case simple_escape e of
                     None \<Rightarrow> None
                   | Some x \<Rightarrow> map_option (\<lambda>(v, u). (x @ v, u)) (json_string t)))
      else if byte_of c < 32 then None
      else let n = utf8_len (c # s) in
        if n = 0 then map_option (\<lambda>(v, u). (utf8_encode replacement_char @ v, u)) (json_string s)
        else map_option (\<lambda>(v, u). (take n (c # s) @ v, u)) (json_string (drop (n - 1) s)))"
  by pat_completeness auto
termination
  by (relation "measure length") auto

lemma json_string_shorter: "json_string s = Some (v, u) \<Longrightarrow> length u < length s"
proof (induction s arbitrary: v u rule: measure_induct_rule [where f = length])
  case (less s)
  have ih: "json_string t = Some (a, u) \<Longrightarrow> length t < length s \<Longrightarrow> length u < length s" for t a
    using less.IH by fastforce
  show ?case
  proof (cases s)
    case Nil
    with less.prems show ?thesis by simp
  next
    case (Cons c s')
    with less.prems consider "u = s'" | t a where "json_string t = Some (a, u)" "length t < length s"
      by (auto simp: Let_def split: if_splits list.splits option.splits prod.splits)
    then show ?thesis using ih Cons by cases auto
  qed
qed

text \<open>One element of the array, a string or \<open>null\<close>.\<close>

definition json_element :: "string \<Rightarrow> (string \<times> string) option" where
  "json_element s =
     (case s of
        c # t \<Rightarrow>
          if c = CHR 0x22 then json_string t
          else if strings_HasPrefix s ''null'' then Some ([], drop 4 s)
          else None
      | [] \<Rightarrow> None)"

lemma json_element_shorter: "json_element s = Some (v, u) \<Longrightarrow> length u < length s"
  by (auto simp: json_element_def dest!: json_string_shorter split: list.splits if_splits)

text \<open>The elements of an array after its bracket, and the text after the closing bracket.\<close>

function json_elements :: "string \<Rightarrow> (string list \<times> string) option" where
  "json_elements s =
     (case json_element (skip_ws s) of
        None \<Rightarrow> None
      | Some (v, t) \<Rightarrow>
          (case skip_ws t of
             [] \<Rightarrow> None
           | c # u \<Rightarrow>
               if c = CHR '','' then map_option (\<lambda>(vs, w). (v # vs, w)) (json_elements u)
               else if c = CHR 0x5D then Some ([v], u)
               else None))"
  by pat_completeness auto
termination
proof (relation "measure length")
  fix s p v t c u
  assume "json_element (skip_ws s) = Some p" "(v, t) = p" "skip_ws t = c # u"
  then have "length t < length (skip_ws s)" "length (c # u) \<le> length t"
    using json_element_shorter by (auto simp: skip_ws_def length_dropWhile_le simp flip: \<open>skip_ws t = c # u\<close>)
  moreover have "length (skip_ws s) \<le> length s" by (simp add: skip_ws_def length_dropWhile_le)
  ultimately show "(u, s) \<in> measure length" by simp
qed simp

declare json_elements.simps [simp del]

abbreviation json_error :: error where
  "json_error \<equiv> ForeignError ''encoding/json''"

definition json_end :: "'a \<Rightarrow> string \<Rightarrow> error + 'a" where
  "json_end x s = (if skip_ws s = [] then Inr x else Inl json_error)"

definition json_Unmarshal_list :: "string \<Rightarrow> error + string list" where
  "json_Unmarshal_list data =
     (let s = skip_ws data in
      if strings_HasPrefix s ''null'' then json_end [] (drop 4 s)
      else case s of
          c # t \<Rightarrow>
            if c \<noteq> CHR 0x5B then Inl json_error
            else if strings_HasPrefix (skip_ws t) [CHR 0x5D] then json_end [] (drop 1 (skip_ws t))
            else (case json_elements t of
                    None \<Rightarrow> Inl json_error
                  | Some (vs, u) \<Rightarrow> json_end vs u)
        | [] \<Rightarrow> Inl json_error)"

section \<open>Printing a list and decoding it\<close>

text \<open>Characters that a JSON string holds without an escape and that are a code point of their own.\<close>

definition plain_json :: "char \<Rightarrow> bool" where
  "plain_json c \<longleftrightarrow> 32 \<le> byte_of c \<and> byte_of c < 128 \<and> c \<noteq> CHR 0x22 \<and> c \<noteq> CHR 0x5C"

definition json_quote :: "string \<Rightarrow> string" where
  "json_quote s = CHR 0x22 # s @ [CHR 0x22]"

definition json_print :: "string list \<Rightarrow> string" where
  "json_print xs = CHR 0x5B # strings_Join (map json_quote xs) '','' @ [CHR 0x5D]"

lemma json_string_plain:
  "list_all plain_json s \<Longrightarrow> json_string (s @ CHR 0x22 # t) = Some (s, t)"
  by (induction s) (auto simp: plain_json_def utf8_len_def)

lemma skip_ws_quote [simp]: "skip_ws (CHR 0x22 # s) = CHR 0x22 # s"
  by (simp add: skip_ws_def json_space_def)

lemma skip_ws_comma [simp]: "skip_ws (CHR '','' # s) = CHR '','' # s"
  by (simp add: skip_ws_def json_space_def)

lemma skip_ws_close [simp]: "skip_ws (CHR 0x5D # s) = CHR 0x5D # s"
  by (simp add: skip_ws_def json_space_def)

lemma json_element_quote:
  "list_all plain_json s \<Longrightarrow> json_element (json_quote s @ t) = Some (s, t)"
  by (simp add: json_element_def json_quote_def json_string_plain)

lemma json_elements_print:
  assumes "list_all (list_all plain_json) xs" "xs \<noteq> []"
  shows "json_elements (strings_Join (map json_quote xs) '','' @ CHR 0x5D # t) = Some (xs, t)"
  using assms
proof (induction xs rule: induct_list012)
  case (2 x)
  then show ?case
    using json_element_quote [of x "CHR 0x5D # t"]
    by (simp add: json_elements.simps json_quote_def)
next
  case (3 x y zs)
  then show ?case
    using json_element_quote [of x "'','' @ strings_Join (map json_quote (y # zs)) '','' @ CHR 0x5D # t"]
    by (simp add: json_elements.simps [of "json_quote x @ _"])
       (simp add: json_quote_def)
qed simp

lemma Unmarshal_print:
  assumes "list_all (list_all plain_json) xs"
  shows "json_Unmarshal_list (json_print xs) = Inr xs"
proof (cases xs)
  case Nil
  then show ?thesis
    by (simp add: json_Unmarshal_list_def json_print_def json_end_def skip_ws_def json_space_def)
next
  case (Cons y ys)
  obtain r where r: "strings_Join (map json_quote xs) '','' = CHR 0x22 # r"
    using Cons by (cases ys) (auto simp: json_quote_def)
  have "json_elements (CHR 0x22 # r @ [CHR 0x5D]) = Some (xs, [])"
    using json_elements_print [OF assms, of "[]"] Cons unfolding r by simp
  moreover have "skip_ws (CHR 0x5B # t) = CHR 0x5B # t" for t
    by (simp add: skip_ws_def json_space_def)
  ultimately show ?thesis
    by (simp add: json_Unmarshal_list_def json_print_def r json_end_def) (simp add: skip_ws_def)
qed

end
