(* ===== verification/Service_Info.thy ===== *)
theory Service_Info
  imports Cloud_Types Json_List
begin

text \<open>
  A service with its annotations (\<open>src/pkg/cloudscale_ccm/service_info.go\<close>), and the names of the
  annotations (\<open>src/pkg/cloudscale_ccm/loadbalancer.go\<close>). The annotations are the configuration of
  a load balancer; every reading of them goes through \<open>annotation\<close>, which supplies the defaults.
\<close>

section \<open>The annotations\<close>

text \<open>The part all names have in common, kept apart so that comparing two names is quick.\<close>

definition annotation_prefix :: string where
  "annotation_prefix = ''k8s.cloudscale.ch/loadbalancer-''"

definition LoadBalancerUUID :: string where
  "LoadBalancerUUID = annotation_prefix @ ''uuid''"

definition LoadBalancerConfigVersion :: string where
  "LoadBalancerConfigVersion = annotation_prefix @ ''config-version''"

definition LoadBalancerName :: string where
  "LoadBalancerName = annotation_prefix @ ''name''"

definition LoadBalancerFlavor :: string where
  "LoadBalancerFlavor = annotation_prefix @ ''flavor''"

definition LoadBalancerZone :: string where
  "LoadBalancerZone = annotation_prefix @ ''zone''"

definition LoadBalancerVIPAddresses :: string where
  "LoadBalancerVIPAddresses = annotation_prefix @ ''vip-addresses''"

definition LoadBalancerFloatingIPs :: string where
  "LoadBalancerFloatingIPs = annotation_prefix @ ''floating-ips''"

definition LoadBalancerPoolAlgorithm :: string where
  "LoadBalancerPoolAlgorithm = annotation_prefix @ ''pool-algorithm''"

definition LoadBalancerPoolProtocol :: string where
  "LoadBalancerPoolProtocol = annotation_prefix @ ''pool-protocol''"

definition LoadBalancerForceHostname :: string where
  "LoadBalancerForceHostname = annotation_prefix @ ''force-hostname''"

definition LoadBalancerIPMode :: string where
  "LoadBalancerIPMode = annotation_prefix @ ''ip-mode''"

definition LoadBalancerHealthMonitorDelayS :: string where
  "LoadBalancerHealthMonitorDelayS = annotation_prefix @ ''health-monitor-delay-s''"

definition LoadBalancerHealthMonitorTimeoutS :: string where
  "LoadBalancerHealthMonitorTimeoutS = annotation_prefix @ ''health-monitor-timeout-s''"

definition LoadBalancerHealthMonitorUpThreshold :: string where
  "LoadBalancerHealthMonitorUpThreshold = annotation_prefix @ ''health-monitor-up-threshold''"

definition LoadBalancerHealthMonitorDownThreshold :: string where
  "LoadBalancerHealthMonitorDownThreshold = annotation_prefix @ ''health-monitor-down-threshold''"

definition LoadBalancerHealthMonitorType :: string where
  "LoadBalancerHealthMonitorType = annotation_prefix @ ''health-monitor-type''"

definition LoadBalancerHealthMonitorHTTP :: string where
  "LoadBalancerHealthMonitorHTTP = annotation_prefix @ ''health-monitor-http''"

definition LoadBalancerListenerProtocol :: string where
  "LoadBalancerListenerProtocol = annotation_prefix @ ''listener-protocol''"

definition LoadBalancerListenerAllowedCIDRs :: string where
  "LoadBalancerListenerAllowedCIDRs = annotation_prefix @ ''listener-allowed-cidrs''"

definition LoadBalancerListenerTimeoutClientDataMS :: string where
  "LoadBalancerListenerTimeoutClientDataMS = annotation_prefix @ ''timeout-client-data-ms''"

definition LoadBalancerListenerTimeoutMemberConnectMS :: string where
  "LoadBalancerListenerTimeoutMemberConnectMS = annotation_prefix @ ''timeout-member-connect-ms''"

definition LoadBalancerListenerTimeoutMemberDataMS :: string where
  "LoadBalancerListenerTimeoutMemberDataMS = annotation_prefix @ ''timeout-member-data-ms''"

definition LoadBalancerListenerAllowedSubnets :: string where
  "LoadBalancerListenerAllowedSubnets = annotation_prefix @ ''listener-allowed-subnets''"

definition LoadBalancerNodeSelector :: string where
  "LoadBalancerNodeSelector = annotation_prefix @ ''node-selector''"

lemmas annotation_names =
  LoadBalancerUUID_def LoadBalancerConfigVersion_def LoadBalancerName_def LoadBalancerFlavor_def
  LoadBalancerZone_def LoadBalancerVIPAddresses_def LoadBalancerFloatingIPs_def
  LoadBalancerPoolAlgorithm_def LoadBalancerPoolProtocol_def LoadBalancerForceHostname_def
  LoadBalancerIPMode_def LoadBalancerHealthMonitorDelayS_def LoadBalancerHealthMonitorTimeoutS_def
  LoadBalancerHealthMonitorUpThreshold_def LoadBalancerHealthMonitorDownThreshold_def
  LoadBalancerHealthMonitorType_def LoadBalancerHealthMonitorHTTP_def LoadBalancerListenerProtocol_def
  LoadBalancerListenerAllowedCIDRs_def LoadBalancerListenerTimeoutClientDataMS_def
  LoadBalancerListenerTimeoutMemberConnectMS_def LoadBalancerListenerTimeoutMemberDataMS_def
  LoadBalancerListenerAllowedSubnets_def LoadBalancerNodeSelector_def

section \<open>Operations\<close>

record serviceInfo =
  si_Service :: Service
  si_clusterName :: string

text \<open>The service is a pointer; a nil pointer is a panic.\<close>

definition newServiceInfo :: "Service option \<Rightarrow> string \<Rightarrow> serviceInfo res" where
  "newServiceInfo service clusterName = (case service of
       None \<Rightarrow> Panic ''v1.Service pointer is nil''
     | Some s \<Rightarrow> Ok \<lparr>si_Service = s, si_clusterName = clusterName\<rparr>)"

definition isSupported :: "serviceInfo \<Rightarrow> bool \<times> error option" where
  "isSupported s = (case svc_LoadBalancerClass (si_Service s) of
       Some cls \<Rightarrow> (False, Some (ErrorMsg (''not supported LoadBalancerClass: '' @ cls)))
     | None \<Rightarrow> (True, None))"

definition annotationOrElse :: "serviceInfo \<Rightarrow> string \<Rightarrow> (unit \<Rightarrow> string) \<Rightarrow> string" where
  "annotationOrElse s key fn = (case svc_Annotations (si_Service s) of
       None \<Rightarrow> fn ()
     | Some m \<Rightarrow> (case map_of m key of None \<Rightarrow> fn () | Some v \<Rightarrow> v))"

definition annotationOrDefault :: "serviceInfo \<Rightarrow> string \<Rightarrow> string \<Rightarrow> string" where
  "annotationOrDefault s key v = annotationOrElse s key (\<lambda>_. v)"

definition annotation :: "serviceInfo \<Rightarrow> string \<Rightarrow> string" where
  "annotation s key =
     (if key = LoadBalancerConfigVersion then ''1''
      else if key = LoadBalancerName then annotationOrElse s key (\<lambda>_. ''k8s-service-'' @ svc_UID (si_Service s))
      else if key = LoadBalancerZone then annotationOrDefault s key ''''
      else if key = LoadBalancerUUID then annotationOrDefault s key ''''
      else if key = LoadBalancerPoolProtocol then annotationOrDefault s key ''tcp''
      else if key = LoadBalancerForceHostname then annotationOrDefault s key ''''
      else if key = LoadBalancerIPMode then annotationOrDefault s key ''Proxy''
      else if key = LoadBalancerFlavor then annotationOrDefault s key ''lb-standard''
      else if key = LoadBalancerVIPAddresses then annotationOrDefault s key ''[]''
      else if key = LoadBalancerFloatingIPs then annotationOrDefault s key ''[]''
      else if key = LoadBalancerPoolAlgorithm then annotationOrDefault s key ''round_robin''
      else if key = LoadBalancerHealthMonitorDelayS then annotationOrDefault s key ''2''
      else if key = LoadBalancerHealthMonitorTimeoutS then annotationOrDefault s key ''1''
      else if key = LoadBalancerHealthMonitorUpThreshold then annotationOrDefault s key ''2''
      else if key = LoadBalancerHealthMonitorDownThreshold then annotationOrDefault s key ''3''
      else if key = LoadBalancerHealthMonitorType then annotationOrDefault s key ''tcp''
      else if key = LoadBalancerHealthMonitorHTTP then annotationOrDefault s key ''{}''
      else if key = LoadBalancerListenerProtocol then annotationOrDefault s key ''tcp''
      else if key = LoadBalancerListenerAllowedCIDRs then annotationOrDefault s key ''[]''
      else if key = LoadBalancerListenerTimeoutClientDataMS then annotationOrDefault s key ''50000''
      else if key = LoadBalancerListenerTimeoutMemberConnectMS then annotationOrDefault s key ''5000''
      else if key = LoadBalancerListenerTimeoutMemberDataMS then annotationOrDefault s key ''50000''
      else if key = LoadBalancerListenerAllowedSubnets then annotationOrDefault s key ''[]''
      else if key = LoadBalancerNodeSelector then annotationOrDefault s key ''''
      else annotationOrElse s key (\<lambda>_. []))"

definition annotationInt :: "serviceInfo \<Rightarrow> string \<Rightarrow> int res" where
  "annotationInt s key = (case strconv_Atoi (annotation s key) of
       (v, Some e) \<Rightarrow> Err (Wrapped (''cannot convert '' @ annotation s key @ '' to int ('' @
          LoadBalancerHealthMonitorDelayS @ ''): '') (ForeignError (num_error_text e)))
     | (v, None) \<Rightarrow> Ok v)"

definition annotationList :: "serviceInfo \<Rightarrow> string \<Rightarrow> string list res" where
  "annotationList s key =
     (let value = annotation s key in
      if strings_Trim value '' '' = [] then Ok []
      else case json_Unmarshal_list value of
          Inl e \<Rightarrow> Err (Wrapped (''not a valid JSON string list: '' @ value @ '' ('' @
             LoadBalancerHealthMonitorDelayS @ ''): '') e)
        | Inr xs \<Rightarrow> Ok xs)"

text \<open>\<open>annotationMarshal\<close> decodes into the type of its target: \<open>decode\<close> is the decoder of that type.\<close>

definition annotationMarshal :: "(string \<Rightarrow> error + 'a) \<Rightarrow> serviceInfo \<Rightarrow> string \<Rightarrow> 'a res" where
  "annotationMarshal decode s key = (case decode (annotation s key) of
       Inl e \<Rightarrow> Err (Wrapped (''failed to parse '' @ key @ '': '') e)
     | Inr v \<Rightarrow> Ok v)"

section \<open>A concrete service\<close>

definition sample_service :: Service where
  "sample_service = \<lparr>svc_Name = ''web'', svc_Namespace = ''default'', svc_UID = ''deadbeef'',
     svc_Annotations = Some [(LoadBalancerZone, ''lpg1''),
       (LoadBalancerFloatingIPs, json_print [''5.102.150.123/32'', ''2a06:c01::123/128''])],
     svc_Type = ''LoadBalancer'', svc_LoadBalancerClass = None,
     svc_Ports = [\<lparr>port_Name = ''http'', port_Protocol = ''TCP'', port_Port = 80, port_NodePort = 30080\<rparr>],
     svc_ExternalTrafficPolicy = ''Cluster'', svc_HealthCheckNodePort = 0\<rparr>"

definition sample_info :: serviceInfo where
  "sample_info = \<lparr>si_Service = sample_service, si_clusterName = ''kubernetes''\<rparr>"

section \<open>Laws\<close>

lemma newServiceInfo_Some [simp]:
  "newServiceInfo (Some s) c = Ok \<lparr>si_Service = s, si_clusterName = c\<rparr>"
  by (simp add: newServiceInfo_def)

text \<open>The value of each annotation: the one on the service, or the default.\<close>

lemma annotation_ConfigVersion [simp]: "annotation s LoadBalancerConfigVersion = ''1''"
  by (simp add: annotation_def)

lemma annotation_Name:
  "annotation s LoadBalancerName = annotationOrElse s LoadBalancerName (\<lambda>_. ''k8s-service-'' @ svc_UID (si_Service s))"
  by (simp add: annotation_def LoadBalancerName_def LoadBalancerConfigVersion_def)

lemma annotation_defaults:
  "annotation s LoadBalancerZone = annotationOrDefault s LoadBalancerZone ''''"
  "annotation s LoadBalancerUUID = annotationOrDefault s LoadBalancerUUID ''''"
  "annotation s LoadBalancerPoolProtocol = annotationOrDefault s LoadBalancerPoolProtocol ''tcp''"
  "annotation s LoadBalancerForceHostname = annotationOrDefault s LoadBalancerForceHostname ''''"
  "annotation s LoadBalancerIPMode = annotationOrDefault s LoadBalancerIPMode ''Proxy''"
  "annotation s LoadBalancerFlavor = annotationOrDefault s LoadBalancerFlavor ''lb-standard''"
  "annotation s LoadBalancerVIPAddresses = annotationOrDefault s LoadBalancerVIPAddresses ''[]''"
  "annotation s LoadBalancerFloatingIPs = annotationOrDefault s LoadBalancerFloatingIPs ''[]''"
  "annotation s LoadBalancerPoolAlgorithm = annotationOrDefault s LoadBalancerPoolAlgorithm ''round_robin''"
  "annotation s LoadBalancerHealthMonitorDelayS = annotationOrDefault s LoadBalancerHealthMonitorDelayS ''2''"
  "annotation s LoadBalancerHealthMonitorTimeoutS = annotationOrDefault s LoadBalancerHealthMonitorTimeoutS ''1''"
  "annotation s LoadBalancerHealthMonitorUpThreshold = annotationOrDefault s LoadBalancerHealthMonitorUpThreshold ''2''"
  "annotation s LoadBalancerHealthMonitorDownThreshold = annotationOrDefault s LoadBalancerHealthMonitorDownThreshold ''3''"
  "annotation s LoadBalancerHealthMonitorType = annotationOrDefault s LoadBalancerHealthMonitorType ''tcp''"
  "annotation s LoadBalancerHealthMonitorHTTP = annotationOrDefault s LoadBalancerHealthMonitorHTTP ''{}''"
  "annotation s LoadBalancerListenerProtocol = annotationOrDefault s LoadBalancerListenerProtocol ''tcp''"
  "annotation s LoadBalancerListenerAllowedCIDRs = annotationOrDefault s LoadBalancerListenerAllowedCIDRs ''[]''"
  "annotation s LoadBalancerListenerTimeoutClientDataMS = annotationOrDefault s LoadBalancerListenerTimeoutClientDataMS ''50000''"
  "annotation s LoadBalancerListenerTimeoutMemberConnectMS = annotationOrDefault s LoadBalancerListenerTimeoutMemberConnectMS ''5000''"
  "annotation s LoadBalancerListenerTimeoutMemberDataMS = annotationOrDefault s LoadBalancerListenerTimeoutMemberDataMS ''50000''"
  "annotation s LoadBalancerListenerAllowedSubnets = annotationOrDefault s LoadBalancerListenerAllowedSubnets ''[]''"
  "annotation s LoadBalancerNodeSelector = annotationOrDefault s LoadBalancerNodeSelector ''''"
  by (simp_all add: annotation_def annotation_names)

lemma annotation_present:
  assumes "svc_Annotations (si_Service s) = Some m" "map_of m key = Some v"
    and "key \<noteq> LoadBalancerConfigVersion"
  shows "annotation s key = v"
proof -
  have "annotationOrElse s key fn = v" for fn
    using assms(1,2) by (simp add: annotationOrElse_def)
  then have "annotationOrElse s key = (\<lambda>_. v)" "annotationOrDefault s key = (\<lambda>_. v)"
    by (simp_all add: fun_eq_iff annotationOrDefault_def)
  then show ?thesis
    unfolding annotation_def by (simp only: if_cancel assms(3) if_False)
qed

lemma annotationOrDefault_absent:
  "svc_Annotations (si_Service s) = None \<Longrightarrow> annotationOrDefault s key v = v"
  by (simp add: annotationOrDefault_def annotationOrElse_def)

lemma annotationList_no_panic [simp]: "annotationList s key \<noteq> Panic m"
  by (simp add: annotationList_def Let_def split: sum.split)

lemma annotationInt_no_panic [simp]: "annotationInt s key \<noteq> Panic m"
  by (simp add: annotationInt_def split: prod.split option.split)

lemma annotationMarshal_no_panic [simp]: "annotationMarshal d s key \<noteq> Panic m"
  by (simp add: annotationMarshal_def split: sum.split)

lemma json_print_not_blank: "strings_Trim (json_print xs) '' '' \<noteq> []"
proof -
  have "strings_TrimLeft (json_print xs) '' '' = json_print xs"
    by (simp add: strings_TrimLeft_def json_print_def)
  moreover have "strings_TrimRight (json_print xs) '' '' = json_print xs"
    by (rule TrimRight_idle) (simp add: json_print_def)
  ultimately show ?thesis by (simp add: strings_Trim_def json_print_def)
qed

text \<open>The annotations of the concrete service.\<close>

lemma sample_zone: "annotation sample_info LoadBalancerZone = ''lpg1''"
  by (simp add: annotation_defaults annotationOrDefault_def annotationOrElse_def)
     (simp add: sample_info_def sample_service_def annotation_names)

lemma sample_defaults:
  "annotation sample_info LoadBalancerVIPAddresses = ''[]''"
  "annotation sample_info LoadBalancerHealthMonitorDelayS = ''2''"
  "annotation sample_info LoadBalancerHealthMonitorTimeoutS = ''1''"
  "annotation sample_info LoadBalancerHealthMonitorUpThreshold = ''2''"
  "annotation sample_info LoadBalancerHealthMonitorDownThreshold = ''3''"
  "annotation sample_info LoadBalancerHealthMonitorHTTP = ''{}''"
  "annotation sample_info LoadBalancerListenerAllowedCIDRs = ''[]''"
  "annotation sample_info LoadBalancerListenerTimeoutClientDataMS = ''50000''"
  "annotation sample_info LoadBalancerListenerTimeoutMemberConnectMS = ''5000''"
  "annotation sample_info LoadBalancerListenerTimeoutMemberDataMS = ''50000''"
  "annotation sample_info LoadBalancerListenerAllowedSubnets = ''[]''"
  by (simp_all add: annotation_defaults annotationOrDefault_def annotationOrElse_def)
     (simp_all add: sample_info_def sample_service_def annotation_names)

lemma sample_ints:
  "annotationInt sample_info LoadBalancerHealthMonitorDelayS = Ok 2"
  "annotationInt sample_info LoadBalancerHealthMonitorTimeoutS = Ok 1"
  "annotationInt sample_info LoadBalancerHealthMonitorUpThreshold = Ok 2"
  "annotationInt sample_info LoadBalancerHealthMonitorDownThreshold = Ok 3"
  "annotationInt sample_info LoadBalancerListenerTimeoutClientDataMS = Ok 50000"
  "annotationInt sample_info LoadBalancerListenerTimeoutMemberConnectMS = Ok 5000"
  "annotationInt sample_info LoadBalancerListenerTimeoutMemberDataMS = Ok 50000"
  by (simp_all add: annotationInt_def sample_defaults go_simps)

lemma sample_lists:
  "annotationList sample_info LoadBalancerListenerAllowedCIDRs = Ok []"
  "annotationList sample_info LoadBalancerListenerAllowedSubnets = Ok []"
proof -
  have "strings_Trim ''[]'' '' '' = ''[]''" "json_Unmarshal_list ''[]'' = Inr []" by code_simp+
  then show "annotationList sample_info LoadBalancerListenerAllowedCIDRs = Ok []"
    "annotationList sample_info LoadBalancerListenerAllowedSubnets = Ok []"
    by (simp_all add: annotationList_def sample_defaults)
qed

lemma sample_floating:
  "annotationList sample_info LoadBalancerFloatingIPs = Ok [''5.102.150.123/32'', ''2a06:c01::123/128'']"
proof -
  have "annotation sample_info LoadBalancerFloatingIPs = json_print [''5.102.150.123/32'', ''2a06:c01::123/128'']"
    by (simp add: annotation_defaults annotationOrDefault_def annotationOrElse_def)
       (simp add: sample_info_def sample_service_def annotation_names)
  moreover have "list_all (list_all plain_json) [''5.102.150.123/32'', ''2a06:c01::123/128'']"
    by (simp add: plain_json_def)
  ultimately show ?thesis
    using json_print_not_blank Unmarshal_print by (simp add: annotationList_def)
qed

lemmas sample_values = sample_zone sample_defaults sample_ints sample_lists sample_floating

section \<open>Properties\<close>

text \<open>
  What the user sets on the service wins over the defaults, for every annotation but the
  configuration version, which is always 1 whatever the service says.
\<close>

lemma annotation_user_value:
  assumes "svc_Annotations (si_Service s) = Some m" "map_of m key = Some v"
  shows "annotation s key = (if key = LoadBalancerConfigVersion then ''1'' else v)"
  using annotation_present [OF assms] by simp

text \<open>
  C33. List annotations round trip: a service annotated with a JSON list of plain ASCII strings, as
  printed with quotes and commas, is read as that list.
\<close>

theorem annotationList_roundtrip:
  assumes "svc_Annotations (si_Service s) = Some m" "map_of m key = Some (json_print xs)"
    and "key \<noteq> LoadBalancerConfigVersion" "list_all (list_all plain_json) xs"
  shows "annotationList s key = Ok xs"
  using annotation_present [OF assms(1-3)] json_print_not_blank [of xs] Unmarshal_print [OF assms(4)]
  by (simp add: annotationList_def)

theorem annotationList_roundtrip_witness:
  "annotationList sample_info LoadBalancerFloatingIPs = Ok [''5.102.150.123/32'', ''2a06:c01::123/128'']"
proof (rule annotationList_roundtrip)
  show "svc_Annotations (si_Service sample_info) = Some (the (svc_Annotations sample_service))"
    by (simp add: sample_info_def sample_service_def)
  show "map_of (the (svc_Annotations sample_service)) LoadBalancerFloatingIPs
      = Some (json_print [''5.102.150.123/32'', ''2a06:c01::123/128''])"
    by (simp add: sample_service_def annotation_names)
  show "LoadBalancerFloatingIPs \<noteq> LoadBalancerConfigVersion" by (simp add: annotation_names)
  show "list_all (list_all plain_json) [''5.102.150.123/32'', ''2a06:c01::123/128'']"
    by (simp add: plain_json_def)
qed

end
