(* ===== verification/Reconcile_Desired.thy ===== *)
theory Reconcile_Desired
  imports Service_Info
begin

text \<open>
  The state of a load balancer and the state a service asks for
  (\<open>src/pkg/cloudscale_ccm/reconcile.go\<close>: \<open>lbState\<close>, \<open>desiredLbState\<close>, \<open>listenerForPort\<close>,
  \<open>healthMonitorForPort\<close> and the naming functions).

  The code refers to the members, monitors and listeners of a pool through the pointer to the pool.
  A pointer is a number here, nil is \<open>None\<close>, and \<open>st_pools\<close> lists the pointers with what they point
  to; pools are never changed once they are in a state. \<open>desiredLbState\<close> allocates the pointers
  0, 1, 2 and so on, one for each port. Reading a Go map at a key it does not hold gives the empty
  slice, so the three maps are functions into lists.
\<close>

section \<open>The state\<close>

type_synonym pool_ptr = "nat option"
type_synonym pool_ref = "nat \<times> LoadBalancerPool"

record lbState =
  st_lb :: "LoadBalancer option"
  st_pools :: "pool_ref list"
  st_members :: "pool_ptr \<Rightarrow> LoadBalancerPoolMember list"
  st_monitors :: "pool_ptr \<Rightarrow> LoadBalancerHealthMonitor list"
  st_listeners :: "pool_ptr \<Rightarrow> LoadBalancerListener list"
  st_floatingIPs :: "string list"

text \<open>\<open>&lbState{}\<close>\<close>

definition empty_lbState :: lbState where
  "empty_lbState = \<lparr>st_lb = None, st_pools = [], st_members = (\<lambda>_. []), st_monitors = (\<lambda>_. []),
     st_listeners = (\<lambda>_. []), st_floatingIPs = []\<rparr>"

definition newLbState :: "LoadBalancer \<Rightarrow> lbState" where
  "newLbState lb = empty_lbState\<lparr>st_lb := Some lb\<rparr>"

text \<open>\<open>m[p] = append(m[p], x)\<close>\<close>

definition append_at :: "pool_ptr \<Rightarrow> 'a list \<Rightarrow> (pool_ptr \<Rightarrow> 'a list) \<Rightarrow> pool_ptr \<Rightarrow> 'a list" where
  "append_at p xs m = m(p := m p @ xs)"

section \<open>Names\<close>

definition poolName :: "ext \<Rightarrow> string \<Rightarrow> string \<Rightarrow> string" where
  "poolName x protocol name =
     (let p = strings_ToLower (x_unicode_lower x) protocol in if name = [] then p else p @ ''/'' @ name)"

definition poolMemberName :: "string \<Rightarrow> int \<Rightarrow> string" where
  "poolMemberName address port =
     (let address' = (if strings_Contains address '':'' then ''['' @ address @ '']'' else address)
      in address' @ '':'' @ show_int port)"

definition listenerName :: "ext \<Rightarrow> string \<Rightarrow> int \<Rightarrow> string" where
  "listenerName x protocol port =
     strings_ToLower (x_unicode_lower x) (protocol @ ''/'' @ show_int port)"

section \<open>Listeners and monitors of a port\<close>

definition listenerForPort :: "ext \<Rightarrow> serviceInfo \<Rightarrow> ServicePort \<Rightarrow> LoadBalancerListener res" where
  "listenerForPort x info port =
     (let listenerProtocol = (if port_Protocol port \<noteq> ''TCP'' then ''udp''
                              else annotation info LoadBalancerListenerProtocol) in
      bind_res (annotationInt info LoadBalancerListenerTimeoutClientDataMS) (\<lambda>clientData.
      bind_res (annotationInt info LoadBalancerListenerTimeoutMemberConnectMS) (\<lambda>memberConnect.
      bind_res (annotationInt info LoadBalancerListenerTimeoutMemberDataMS) (\<lambda>memberData.
      bind_res (annotationList info LoadBalancerListenerAllowedCIDRs) (\<lambda>cidrs.
        Ok (zero_Listener\<lparr>lis_Protocol := listenerProtocol, lis_ProtocolPort := port_Port port,
          lis_Name := listenerName x listenerProtocol (port_Port port),
          lis_TimeoutClientDataMS := clientData, lis_TimeoutMemberConnectMS := memberConnect,
          lis_TimeoutMemberDataMS := memberData, lis_AllowedCIDRs := cidrs\<rparr>))))))"

text \<open>The defaults that the API fills in, for the later comparison.\<close>

definition http_defaults :: "MonitorHTTP \<Rightarrow> MonitorHTTP" where
  "http_defaults h =
     (let h1 = (if http_Method h = [] then h\<lparr>http_Method := ''GET''\<rparr> else h);
          h2 = (if http_URLPath h1 = [] then h1\<lparr>http_URLPath := ''/''\<rparr> else h1);
          h3 = (if http_ExpectedCodes h2 = [] then h2\<lparr>http_ExpectedCodes := [''200'']\<rparr> else h2)
      in if http_Version h3 = [] then h3\<lparr>http_Version := ''1.1''\<rparr> else h3)"

text \<open>
  The HTTP options of the annotation: \<open>nil\<close> for the text \<open>{}\<close>, an error for a text that does not
  decode, and a nil pointer dereference when decoding leaves the pointer nil.
\<close>

definition monitor_http :: "ext \<Rightarrow> string \<Rightarrow> MonitorHTTP option res" where
  "monitor_http x http =
     (if http = ''{}'' then Ok None
      else case x_json_http x http of
          Inl e \<Rightarrow> Err (Wrapped (''invalid json in '' @ LoadBalancerHealthMonitorHTTP @ '': '') e)
        | Inr None \<Rightarrow> Panic ''nil pointer dereference''
        | Inr (Some h) \<Rightarrow> Ok (Some (http_defaults h)))"

definition livez_http :: MonitorHTTP where
  "livez_http = \<lparr>http_Method = ''GET'', http_URLPath = ''/livez'', http_Version = ''1.0'', http_Host = None,
     http_ExpectedCodes = [''200'']\<rparr>"

definition healthMonitorForPort :: "ext \<Rightarrow> serviceInfo \<Rightarrow> LoadBalancerHealthMonitor res" where
  "healthMonitorForPort x info =
     bind_res (annotationInt info LoadBalancerHealthMonitorDelayS) (\<lambda>delay.
     bind_res (annotationInt info LoadBalancerHealthMonitorTimeoutS) (\<lambda>timeout.
     bind_res (annotationInt info LoadBalancerHealthMonitorUpThreshold) (\<lambda>up.
     bind_res (annotationInt info LoadBalancerHealthMonitorDownThreshold) (\<lambda>down.
       let http = annotation info LoadBalancerHealthMonitorHTTP in
       bind_res (monitor_http x http) (\<lambda>options.
         let monitor = zero_Monitor\<lparr>mon_Type := annotation info LoadBalancerHealthMonitorType,
               mon_DelayS := delay, mon_TimeoutS := timeout, mon_UpThreshold := up,
               mon_DownThreshold := down, mon_HTTP := options\<rparr> in
         if svc_ExternalTrafficPolicy (si_Service info) = ''Local'' then
           Ok (if http \<noteq> ''{}'' then monitor\<lparr>mon_Type := ''http''\<rparr>
               else monitor\<lparr>mon_Type := ''http'', mon_HTTP := Some livez_http\<rparr>)
         else Ok monitor)))))"

section \<open>The desired state\<close>

fun zone_loop :: "string \<Rightarrow> Server list \<Rightarrow> string res" where
  "zone_loop zone [] = Ok zone"
| "zone_loop zone (s # servers) =
     (if zone \<noteq> [] \<and> zone \<noteq> srv_ZoneSlug s
      then Err (ErrorMsg ''no loadbalancer zone set and nodes in multiple zones'')
      else zone_loop (srv_ZoneSlug s) servers)"

definition desired_zone :: "serviceInfo \<Rightarrow> Server list \<Rightarrow> string res" where
  "desired_zone info servers =
     (let zone = annotation info LoadBalancerZone in
      if zone = [] then
        bind_res (zone_loop zone servers) (\<lambda>z.
          if z = [] then Err (ErrorMsg (''no loadbalancer zone set and no server zone information '' @
                ''available - nodes may not be provisioned yet''))
          else Ok z)
      else Ok zone)"

definition desired_vips :: "VIPAddressRequest list \<Rightarrow> VIPAddress list" where
  "desired_vips vips = map (\<lambda>v. \<lparr>vip_Address = vipreq_Address v,
     vip_Subnet = \<lparr>subnet_UUID = vipreq_Subnet v, subnet_rest = []\<rparr>\<rparr>) vips"

text \<open>One member for each private address of each server in an allowed subnet.\<close>

definition pool_members :: "string list \<Rightarrow> int \<Rightarrow> int \<Rightarrow> Server list \<Rightarrow> LoadBalancerPoolMember list" where
  "pool_members allowedSubnets nodePort monitorPort servers =
     [\<lparr>mem_HREF = [], mem_Name = poolMemberName (addr_Address addr) nodePort, mem_Enabled = True,
       mem_Address = addr_Address addr, mem_Subnet = addr_Subnet addr,
       mem_ProtocolPort = nodePort, mem_MonitorPort = monitorPort\<rparr>.
      server \<leftarrow> servers, iface \<leftarrow> srv_Interfaces server, if_Type iface \<noteq> ''public'',
      addr \<leftarrow> if_Addresses iface, subnet_UUID (addr_Subnet addr) \<noteq> [],
      \<not> (length allowedSubnets > 0 \<and> subnet_UUID (addr_Subnet addr) \<notin> set allowedSubnets)]"

definition monitor_port :: "Service \<Rightarrow> int \<Rightarrow> int" where
  "monitor_port svc nodePort =
     (if svc_ExternalTrafficPolicy svc = ''Local'' \<and> svc_HealthCheckNodePort svc > 0
      then svc_HealthCheckNodePort svc else nodePort)"

definition pool_for_port :: "ext \<Rightarrow> string \<Rightarrow> string \<Rightarrow> ServicePort \<Rightarrow> LoadBalancerPool" where
  "pool_for_port x algorithm protocol port =
     \<lparr>pool_UUID = [], pool_HREF = [], pool_Name = poolName x (port_Protocol port) (port_Name port),
      pool_Algorithm = algorithm,
      pool_Protocol = (if port_Protocol port \<noteq> ''TCP'' then ''udp'' else protocol),
      pool_LoadBalancerUUID = []\<rparr>"

text \<open>The body of the loop over the ports; \<open>p\<close> is the pointer of the new pool.\<close>

definition desired_port ::
  "ext \<Rightarrow> serviceInfo \<Rightarrow> Server list \<Rightarrow> string \<Rightarrow> string \<Rightarrow> nat \<Rightarrow> ServicePort \<Rightarrow> lbState \<Rightarrow> lbState res" where
  "desired_port x info servers algorithm protocol p port s =
     (let svc = si_Service info; nodePort = port_NodePort port in
      if port_Protocol port \<noteq> ''TCP'' \<and> port_Protocol port \<noteq> ''UDP'' then
        Err (ErrorMsg (''service '' @ svc_Name svc @ '': cannot use '' @ port_Protocol port @ '' for '' @
          show_int (port_Port port) @ '', only TCP and UDP are supported''))
      else if nodePort = 0 then
        Err (ErrorMsg (''service '' @ svc_Name svc @ '': unknown port: '' @ show_int (port_NodePort port)))
      else
        bind_res (annotationList info LoadBalancerListenerAllowedSubnets) (\<lambda>allowedSubnets.
        bind_res (healthMonitorForPort x info) (\<lambda>monitor.
        bind_res (listenerForPort x info port) (\<lambda>listener.
          Ok (s\<lparr>st_pools := st_pools s @ [(p, pool_for_port x algorithm protocol port)],
                st_members := append_at (Some p)
                  (pool_members allowedSubnets nodePort (monitor_port svc nodePort) servers) (st_members s),
                st_monitors := append_at (Some p) [monitor] (st_monitors s),
                st_listeners := append_at (Some p) [listener] (st_listeners s)\<rparr>)))))"

fun desired_ports ::
  "ext \<Rightarrow> serviceInfo \<Rightarrow> Server list \<Rightarrow> string \<Rightarrow> string \<Rightarrow> nat \<Rightarrow> ServicePort list \<Rightarrow> lbState \<Rightarrow> lbState res" where
  "desired_ports x info servers algorithm protocol p [] s = Ok s"
| "desired_ports x info servers algorithm protocol p (port # ports) s =
     bind_res (desired_port x info servers algorithm protocol p port s) (\<lambda>s'.
       desired_ports x info servers algorithm protocol (Suc p) ports s')"

definition desiredLbState :: "ext \<Rightarrow> serviceInfo \<Rightarrow> Node list \<Rightarrow> Server list \<Rightarrow> lbState res" where
  "desiredLbState x info nodes servers =
     (if length nodes \<noteq> length servers then Err (ErrorMsg ''bad node to server mapping'')
      else
        bind_res (desired_zone info servers) (\<lambda>zone.
        bind_res (annotationMarshal (x_json_vip x) info LoadBalancerVIPAddresses) (\<lambda>vips.
        let s = newLbState \<lparr>lb_UUID = [], lb_HREF = [], lb_Name = annotation info LoadBalancerName,
              lb_Status = [], lb_FlavorSlug = annotation info LoadBalancerFlavor, lb_ZoneSlug = zone,
              lb_VIPAddresses = desired_vips vips\<rparr> in
        (case annotationList info LoadBalancerFloatingIPs of
           Err e \<Rightarrow> Err (ErrorMsg (''could not parse '' @ LoadBalancerFloatingIPs))
         | Panic m \<Rightarrow> Panic m
         | Ok ips \<Rightarrow>
             desired_ports x info servers (annotation info LoadBalancerPoolAlgorithm)
               (annotation info LoadBalancerPoolProtocol) 0 (svc_Ports (si_Service info))
               (s\<lparr>st_floatingIPs := ips\<rparr>)))))"

section \<open>Laws\<close>

lemma newLbState_sel [simp]:
  "st_lb (newLbState lb) = Some lb" "st_pools (newLbState lb) = []" "st_members (newLbState lb) q = []"
  "st_monitors (newLbState lb) q = []" "st_listeners (newLbState lb) q = []" "st_floatingIPs (newLbState lb) = []"
  by (simp_all add: newLbState_def empty_lbState_def)

lemma append_at_apply [simp]: "append_at p xs m q = (if q = p then m q @ xs else m q)"
  by (simp add: append_at_def)

text \<open>What a port contributes to the state.\<close>

definition port_contribution ::
  "ext \<Rightarrow> serviceInfo \<Rightarrow> Server list \<Rightarrow> ServicePort \<Rightarrow> LoadBalancerPoolMember list \<Rightarrow>
   LoadBalancerHealthMonitor \<Rightarrow> LoadBalancerListener \<Rightarrow> bool" where
  "port_contribution x info servers port members monitor listener \<longleftrightarrow>
     (port_Protocol port = ''TCP'' \<or> port_Protocol port = ''UDP'') \<and> port_NodePort port \<noteq> 0 \<and>
     healthMonitorForPort x info = Ok monitor \<and> listenerForPort x info port = Ok listener \<and>
     (\<exists>allowed. annotationList info LoadBalancerListenerAllowedSubnets = Ok allowed \<and>
        members = pool_members allowed (port_NodePort port)
          (monitor_port (si_Service info) (port_NodePort port)) servers)"

lemma desired_port_Ok:
  "desired_port x info servers alg prot p port s = Ok s' \<longleftrightarrow>
     (\<exists>ms mon lis. port_contribution x info servers port ms mon lis \<and>
        s' = s\<lparr>st_pools := st_pools s @ [(p, pool_for_port x alg prot port)],
               st_members := append_at (Some p) ms (st_members s),
               st_monitors := append_at (Some p) [mon] (st_monitors s),
               st_listeners := append_at (Some p) [lis] (st_listeners s)\<rparr>)"
  by (auto simp: desired_port_def port_contribution_def Let_def)

text \<open>One round of the loop over the ports, for the inductions below.\<close>

lemma desired_ports_ConsE:
  assumes "desired_ports x info servers alg prot p (port # ports) s = Ok s'"
  obtains s1 ms mon lis where
    "port_contribution x info servers port ms mon lis"
    "s1 = s\<lparr>st_pools := st_pools s @ [(p, pool_for_port x alg prot port)],
        st_members := append_at (Some p) ms (st_members s),
        st_monitors := append_at (Some p) [mon] (st_monitors s),
        st_listeners := append_at (Some p) [lis] (st_listeners s)\<rparr>"
    "desired_ports x info servers alg prot (Suc p) ports s1 = Ok s'"
  using assms by (auto simp: desired_port_Ok)

lemma desired_ports_frame:
  assumes "desired_ports x info servers alg prot p ports s = Ok s'"
  shows "st_lb s' = st_lb s \<and> st_floatingIPs s' = st_floatingIPs s \<and>
    st_pools s' = st_pools s @ zip [p..<p + length ports] (map (pool_for_port x alg prot) ports)"
    and "q < p \<Longrightarrow> st_members s' (Some q) = st_members s (Some q) \<and>
      st_monitors s' (Some q) = st_monitors s (Some q) \<and> st_listeners s' (Some q) = st_listeners s (Some q)"
  using assms
proof (induction ports arbitrary: p s)
  case (Cons port ports)
  { case 1
    then show ?case
      by (elim desired_ports_ConsE) (use Cons.IH(1) in \<open>fastforce simp: upt_conv_Cons simp del: upt_Suc\<close>)
  next
    case 2
    from "2.prems"(2) show ?case
      by (elim desired_ports_ConsE) (use Cons.IH(2) [of "Suc p"] "2.prems"(1) in force)
  }
qed simp_all

text \<open>Every pool of the result is the contribution of its port.\<close>

lemma desired_ports_contributions:
  assumes "desired_ports x info servers alg prot p ports s = Ok s'"
    and "\<And>q. p \<le> q \<Longrightarrow> st_members s (Some q) = [] \<and> st_monitors s (Some q) = [] \<and> st_listeners s (Some q) = []"
    and "i < length ports"
  shows "\<exists>mon lis. port_contribution x info servers (ports ! i) (st_members s' (Some (p + i))) mon lis \<and>
     st_monitors s' (Some (p + i)) = [mon] \<and> st_listeners s' (Some (p + i)) = [lis]"
  using assms
proof (induction ports arbitrary: p s i)
  case (Cons port ports)
  from Cons.prems(1) obtain s1 ms mon lis where
    c: "port_contribution x info servers port ms mon lis" and
    s1: "s1 = s\<lparr>st_pools := st_pools s @ [(p, pool_for_port x alg prot port)],
        st_members := append_at (Some p) ms (st_members s),
        st_monitors := append_at (Some p) [mon] (st_monitors s),
        st_listeners := append_at (Some p) [lis] (st_listeners s)\<rparr>" and
    rest: "desired_ports x info servers alg prot (Suc p) ports s1 = Ok s'"
    by (rule desired_ports_ConsE)
  show ?case
  proof (cases i)
    case 0
    then show ?thesis
      using c Cons.prems(2) [of p] desired_ports_frame(2) [OF rest, of p] by (auto simp: s1)
  next
    case (Suc j)
    have "\<exists>mon lis. port_contribution x info servers (ports ! j) (st_members s' (Some (Suc p + j))) mon lis \<and>
       st_monitors s' (Some (Suc p + j)) = [mon] \<and> st_listeners s' (Some (Suc p + j)) = [lis]"
      by (rule Cons.IH [OF rest]) (use Cons.prems(2,3) Suc in \<open>auto simp: s1\<close>)
    then show ?thesis using Suc by simp
  qed
qed simp

lemma desiredLbState_Ok:
  assumes "desiredLbState x info nodes servers = Ok s"
  obtains zone vips ips where
    "length nodes = length servers" "desired_zone info servers = Ok zone"
    "annotationMarshal (x_json_vip x) info LoadBalancerVIPAddresses = Ok vips"
    "annotationList info LoadBalancerFloatingIPs = Ok ips"
    "desired_ports x info servers (annotation info LoadBalancerPoolAlgorithm)
       (annotation info LoadBalancerPoolProtocol) 0 (svc_Ports (si_Service info))
       (newLbState \<lparr>lb_UUID = [], lb_HREF = [], lb_Name = annotation info LoadBalancerName,
          lb_Status = [], lb_FlavorSlug = annotation info LoadBalancerFlavor, lb_ZoneSlug = zone,
          lb_VIPAddresses = desired_vips vips\<rparr>\<lparr>st_floatingIPs := ips\<rparr>) = Ok s"
  using assms that
  by (cases "annotationList info LoadBalancerFloatingIPs")
     (auto simp: desiredLbState_def Let_def split: if_splits)

lemma zone_loop_Ok_nonempty:
  "zone \<noteq> [] \<Longrightarrow> (\<forall>s \<in> set servers. srv_ZoneSlug s \<noteq> []) \<Longrightarrow>
     zone_loop zone servers = Ok z \<longleftrightarrow> z = zone \<and> (\<forall>s \<in> set servers. srv_ZoneSlug s = zone)"
  by (induction zone servers rule: zone_loop.induct) auto

lemma pool_members_mem:
  "m \<in> set (pool_members allowed np mp servers) \<longleftrightarrow>
     (\<exists>server \<in> set servers. \<exists>iface \<in> set (srv_Interfaces server). \<exists>addr \<in> set (if_Addresses iface).
        if_Type iface \<noteq> ''public'' \<and> subnet_UUID (addr_Subnet addr) \<noteq> [] \<and>
        (allowed = [] \<or> subnet_UUID (addr_Subnet addr) \<in> set allowed) \<and>
        m = \<lparr>mem_HREF = [], mem_Name = poolMemberName (addr_Address addr) np, mem_Enabled = True,
             mem_Address = addr_Address addr, mem_Subnet = addr_Subnet addr,
             mem_ProtocolPort = np, mem_MonitorPort = mp\<rparr>)"
  by (auto simp: pool_members_def)

text \<open>What the service asks for, port by port.\<close>

lemma desiredLbState_port:
  assumes "desiredLbState x info nodes servers = Ok s" "i < length (svc_Ports (si_Service info))"
  shows "\<exists>mon lis. port_contribution x info servers (svc_Ports (si_Service info) ! i) (st_members s (Some i)) mon lis \<and>
    st_monitors s (Some i) = [mon] \<and> st_listeners s (Some i) = [lis]"
  using assms(1)
proof (rule desiredLbState_Ok)
  fix zone vips ips
  assume ports: "desired_ports x info servers (annotation info LoadBalancerPoolAlgorithm)
       (annotation info LoadBalancerPoolProtocol) 0 (svc_Ports (si_Service info))
       (newLbState \<lparr>lb_UUID = [], lb_HREF = [], lb_Name = annotation info LoadBalancerName,
          lb_Status = [], lb_FlavorSlug = annotation info LoadBalancerFlavor, lb_ZoneSlug = zone,
          lb_VIPAddresses = desired_vips vips\<rparr>\<lparr>st_floatingIPs := ips\<rparr>) = Ok s"
  show ?thesis using desired_ports_contributions [OF ports _ assms(2)] by simp
qed

lemma desiredLbState_pools:
  assumes "desiredLbState x info nodes servers = Ok s"
  shows "st_pools s = zip [0..<length (svc_Ports (si_Service info))]
     (map (pool_for_port x (annotation info LoadBalancerPoolAlgorithm) (annotation info LoadBalancerPoolProtocol))
       (svc_Ports (si_Service info)))"
  using assms by (rule desiredLbState_Ok) (auto dest: desired_ports_frame(1))

text \<open>
  The JSON text \<open>null\<close> in the annotation of the HTTP options leaves the pointer to them nil without an
  error, and the code goes on to dereference it.
\<close>

lemma null_http_panics:
  assumes "annotationInt info LoadBalancerHealthMonitorDelayS = Ok delay"
    "annotationInt info LoadBalancerHealthMonitorTimeoutS = Ok timeout"
    "annotationInt info LoadBalancerHealthMonitorUpThreshold = Ok up"
    "annotationInt info LoadBalancerHealthMonitorDownThreshold = Ok down"
    and "annotation info LoadBalancerHealthMonitorHTTP = ''null''" "x_json_http x ''null'' = Inr None"
  shows "healthMonitorForPort x info = Panic ''nil pointer dereference''"
  using assms by (simp add: healthMonitorForPort_def monitor_http_def)

text \<open>Distinct ports have distinct pool names.\<close>

lemma poolName_inject:
  assumes "p \<in> {''TCP'', ''UDP''}" "q \<in> {''TCP'', ''UDP''}"
  shows "poolName x p a = poolName x q b \<longleftrightarrow> p = q \<and> a = b"
  using assms by (auto simp: poolName_def Let_def split: if_splits)

text \<open>A concrete pool, and the state asked for by a concrete service.\<close>

definition sample_pool :: LoadBalancerPool where
  "sample_pool = \<lparr>pool_UUID = ''p1'', pool_HREF = ''https://api/pools/p1'', pool_Name = ''tcp/http'',
     pool_Algorithm = ''round_robin'', pool_Protocol = ''tcp'', pool_LoadBalancerUUID = ''4a04''\<rparr>"

definition sample_desired :: lbState where
  "sample_desired =
     (case desiredLbState sample_ext sample_info [sample_node] [sample_server] of Ok s \<Rightarrow> s | _ \<Rightarrow> empty_lbState)"

lemma sample_port [simp]:
  "svc_Ports (si_Service sample_info) =
     [\<lparr>port_Name = ''http'', port_Protocol = ''TCP'', port_Port = 80, port_NodePort = 30080\<rparr>]"
  "svc_ExternalTrafficPolicy (si_Service sample_info) = ''Cluster''"
  by (simp_all add: sample_info_def sample_service_def)

lemma sample_desired_Ok: "desiredLbState sample_ext sample_info [sample_node] [sample_server] = Ok sample_desired"
proof -
  have v: "annotationMarshal (x_json_vip sample_ext) sample_info LoadBalancerVIPAddresses = Ok []"
    by (simp add: annotationMarshal_def sample_values) (simp add: sample_ext_def)
  have m: "\<exists>mon. healthMonitorForPort sample_ext sample_info = Ok mon"
    by (simp add: healthMonitorForPort_def monitor_http_def Let_def sample_values)
  have l: "\<exists>lis. listenerForPort sample_ext sample_info port = Ok lis" for port
    by (simp add: listenerForPort_def Let_def sample_values)
  have "\<exists>s'. desired_port sample_ext sample_info [sample_server] a q 0 (svc_Ports (si_Service sample_info) ! 0) s = Ok s'" for a q s
    using m l by (auto simp: desired_port_Ok port_contribution_def sample_values)
  then have "\<exists>s. desiredLbState sample_ext sample_info [sample_node] [sample_server] = Ok s"
    by (simp add: desiredLbState_def desired_zone_def sample_values v)
  then show ?thesis by (auto simp: sample_desired_def)
qed

section \<open>Properties\<close>

text \<open>
  C14. The desired state has one pool for each port of the service, in the order of the ports, named
  and configured for its port; each pool has exactly one health monitor and one listener, those of
  its port; every port is TCP or UDP and has a node port, or there is no desired state. The load
  balancer carries the name, flavor, zone and addresses of the annotations.
\<close>

theorem desiredLbState_shape:
  assumes "desiredLbState x info nodes servers = Ok s" "i < length (svc_Ports (si_Service info))"
  shows "length (st_pools s) = length (svc_Ports (si_Service info)) \<and>
    (let port = svc_Ports (si_Service info) ! i in
      st_pools s ! i = (i, pool_for_port x (annotation info LoadBalancerPoolAlgorithm)
                              (annotation info LoadBalancerPoolProtocol) port) \<and>
      port_Protocol port \<in> {''TCP'', ''UDP''} \<and> port_NodePort port \<noteq> 0 \<and>
      (\<exists>mon lis. healthMonitorForPort x info = Ok mon \<and> listenerForPort x info port = Ok lis \<and>
        st_monitors s (Some i) = [mon] \<and> st_listeners s (Some i) = [lis])) \<and>
    (\<exists>lb. st_lb s = Some lb \<and> lb_Name lb = annotation info LoadBalancerName \<and>
       lb_FlavorSlug lb = annotation info LoadBalancerFlavor \<and> desired_zone info servers = Ok (lb_ZoneSlug lb)) \<and>
    annotationList info LoadBalancerFloatingIPs = Ok (st_floatingIPs s)"
proof -
  have "\<exists>lb. st_lb s = Some lb \<and> lb_Name lb = annotation info LoadBalancerName \<and>
      lb_FlavorSlug lb = annotation info LoadBalancerFlavor \<and> desired_zone info servers = Ok (lb_ZoneSlug lb)"
    and "annotationList info LoadBalancerFloatingIPs = Ok (st_floatingIPs s)"
    using assms(1) by (rule desiredLbState_Ok, auto dest!: desired_ports_frame(1))+
  then show ?thesis
    using desiredLbState_port [OF assms] desiredLbState_pools [OF assms(1)] assms(2)
    by (auto simp: port_contribution_def Let_def)
qed

theorem desiredLbState_shape_witness:
  "map (pool_Name \<circ> snd) (st_pools sample_desired) = [''tcp/http'']"
proof -
  have i: "0 < length (svc_Ports (si_Service sample_info))" by simp
  have "length (st_pools sample_desired) = 1" "st_pools sample_desired ! 0 =
      (0, pool_for_port sample_ext (annotation sample_info LoadBalancerPoolAlgorithm)
         (annotation sample_info LoadBalancerPoolProtocol) (svc_Ports (si_Service sample_info) ! 0))"
    using desiredLbState_shape [OF sample_desired_Ok i]
    by (simp_all add: Let_def)
  then show ?thesis
    by (cases "st_pools sample_desired")
       (simp_all add: pool_for_port_def poolName_def)
qed

text \<open>
  C15. The members of the pool of a port are exactly the private addresses of the given servers that
  lie in a subnet, restricted to the allowed subnets where the service names any; each member
  receives the traffic on the node port and is checked on the health check node port under the
  traffic policy \<open>Local\<close>. When no address lies in an allowed subnet, the pool is empty and there is no
  error.
\<close>

theorem desired_members_exact:
  assumes "desiredLbState x info nodes servers = Ok s" "i < length (svc_Ports (si_Service info))"
    and "annotationList info LoadBalancerListenerAllowedSubnets = Ok allowed"
  shows "m \<in> set (st_members s (Some i)) \<longleftrightarrow>
    (\<exists>server \<in> set servers. \<exists>iface \<in> set (srv_Interfaces server). \<exists>addr \<in> set (if_Addresses iface).
       if_Type iface \<noteq> ''public'' \<and> subnet_UUID (addr_Subnet addr) \<noteq> [] \<and>
       (allowed = [] \<or> subnet_UUID (addr_Subnet addr) \<in> set allowed) \<and>
       (let np = port_NodePort (svc_Ports (si_Service info) ! i);
            svc = si_Service info in
        m = \<lparr>mem_HREF = [], mem_Name = poolMemberName (addr_Address addr) np, mem_Enabled = True,
             mem_Address = addr_Address addr, mem_Subnet = addr_Subnet addr, mem_ProtocolPort = np,
             mem_MonitorPort = (if svc_ExternalTrafficPolicy svc = ''Local'' \<and> svc_HealthCheckNodePort svc > 0
                then svc_HealthCheckNodePort svc else np)\<rparr>))"
proof -
  let ?port = "svc_Ports (si_Service info) ! i"
  have "st_members s (Some i) = pool_members allowed (port_NodePort ?port)
      (monitor_port (si_Service info) (port_NodePort ?port)) servers"
    using desiredLbState_port [OF assms(1,2)] assms(3) by (auto simp: port_contribution_def)
  then show ?thesis by (simp add: pool_members_mem monitor_port_def Let_def)
qed

theorem desired_members_exact_witness:
  "\<lparr>mem_HREF = [], mem_Name = ''10.0.0.1:30080'', mem_Enabled = True, mem_Address = ''10.0.0.1'',
    mem_Subnet = \<lparr>subnet_UUID = ''sn'', subnet_rest = []\<rparr>, mem_ProtocolPort = 30080, mem_MonitorPort = 30080\<rparr>
   \<in> set (st_members sample_desired (Some 0))" (is "?m \<in> _")
proof -
  have i: "0 < length (svc_Ports (si_Service sample_info))" by simp
  have "strings_Contains ''10.0.0.1'' '':'' = False" by code_simp
  then have "poolMemberName ''10.0.0.1'' 30080 = ''10.0.0.1:30080''"
    by (simp add: poolMemberName_def go_simps)
  then show ?thesis
    unfolding desired_members_exact [OF sample_desired_Ok i sample_lists(2)]
    by (simp add: sample_server_def)
qed

text \<open>
  Without a zone annotation the zone is that of the servers: the load balancer gets a zone
  exactly when there is a server and all servers are in that one zone (each server having one).
\<close>

lemma desired_zone_single:
  assumes "annotation info LoadBalancerZone = []" "\<forall>s \<in> set servers. srv_ZoneSlug s \<noteq> []"
  shows "desired_zone info servers = Ok z \<longleftrightarrow>
    servers \<noteq> [] \<and> (\<forall>s \<in> set servers. srv_ZoneSlug s = z)"
proof (cases servers)
  case Nil
  then show ?thesis using assms(1) by (simp add: desired_zone_def)
next
  case (Cons s0 rest)
  then show ?thesis
    using assms zone_loop_Ok_nonempty [of "srv_ZoneSlug s0" rest] by (auto simp: desired_zone_def)
qed

text \<open>
  C30. Pools are told apart by their names: two ports of the service with different names or
  protocols get pools with different names, so that a pool of the load balancer is found again by
  its name.
\<close>

theorem desired_pool_names_distinct:
  assumes "desiredLbState x info nodes servers = Ok s"
    and "distinct (map (\<lambda>p. (port_Protocol p, port_Name p)) (svc_Ports (si_Service info)))"
  shows "distinct (map (pool_Name \<circ> snd) (st_pools s))"
proof -
  let ?ports = "svc_Ports (si_Service info)"
  have prots: "port_Protocol p \<in> {''TCP'', ''UDP''}" if "p \<in> set ?ports" for p
    using that desiredLbState_port [OF assms(1)]
    by (fastforce simp: in_set_conv_nth port_contribution_def)
  have "map (pool_Name \<circ> snd) (st_pools s) = map (\<lambda>p. poolName x (port_Protocol p) (port_Name p)) ?ports"
    unfolding desiredLbState_pools [OF assms(1)] map_map [symmetric]
    by (simp add: pool_for_port_def)
  then show ?thesis
    using assms(2) prots by (auto simp: distinct_map inj_on_def poolName_inject)
qed

theorem desired_pool_names_distinct_witness: "distinct (map (pool_Name \<circ> snd) (st_pools sample_desired))"
  by (rule desired_pool_names_distinct [OF sample_desired_Ok]) simp

end
