(* ===== verification/Actions.thy ===== *)
theory Actions
  imports Cloud_Types
begin

text \<open>
  Package \<open>actions\<close> (\<open>src/pkg/internal/actions/actions.go\<close>, \<open>control.go\<close>): the steps a
  reconciliation consists of. An action is a value of the datatype \<open>action\<close>, one constructor per
  action type of the source with its fields in the same order; \<open>Label\<close> and \<open>Run\<close> are the two methods
  of the \<open>Action\<close> interface. \<open>Run\<close> delivers the control code and the error of the call.

  The locale \<open>action_contract\<close> states what the runner of the actions relies on.
\<close>

section \<open>Control codes\<close>

type_synonym Control = int

definition Errored :: Control where "Errored = 0"
definition Proceed :: Control where "Proceed = 10"
definition Refresh :: Control where "Refresh = 20"

definition ProceedOnSuccess :: "error option \<Rightarrow> Control \<times> error option" where
  "ProceedOnSuccess err = (case err of Some e \<Rightarrow> (Errored, Some e) | None \<Rightarrow> (Proceed, None))"

definition RefreshOnSuccess :: "error option \<Rightarrow> Control \<times> error option" where
  "RefreshOnSuccess err = (case err of Some e \<Rightarrow> (Errored, Some e) | None \<Rightarrow> (Refresh, None))"

section \<open>Actions\<close>

text \<open>Durations are counted in nanoseconds, as in \<open>time.Duration\<close>.\<close>

abbreviation Millisecond :: int where "Millisecond \<equiv> 1000000"
abbreviation Second :: int where "Second \<equiv> 1000000000"

datatype action =
    RefetchAction
  | CreateLbAction LoadBalancer
  | RenameLbAction string string
  | AwaitLbAction LoadBalancer
  | DeleteResourceAction string
  | SleepAction int
  | CreatePoolAction string LoadBalancerPool
  | CreatePoolMemberAction string LoadBalancerPoolMember
  | CreateListenerAction string LoadBalancerListener
  | UpdateListenerAllowedCIDRsAction string "string list"
  | UpdateListenerTimeoutAction string int string
  | CreateHealthMonitorAction string LoadBalancerHealthMonitor
  | UpdateMonitorHTTPMethodAction string string
  | UpdateMonitorHTTPPathAction string string
  | UpdateMonitorHTTPHostAction string string_ptr
  | UpdateMonitorHTTPExpectedCodesAction string "string list"
  | UpdateMonitorNumberAction string int string
  | AssignFloatingIPAction string string

text \<open>
  \<open>%s\<close> of a duration and \<open>%v\<close> of a string pointer are the library's: \<open>x_show_duration\<close> and
  \<open>x_show_pointer\<close>. A string slice under \<open>%s\<close> is its elements in brackets, separated by spaces.
\<close>

fun Label :: "ext \<Rightarrow> action \<Rightarrow> string" where
  "Label x RefetchAction = ''refetch''"
| "Label x (CreateLbAction lb) = ''create-lb('' @ lb_Name lb @ '')''"
| "Label x (RenameLbAction uuid name) = ''rename-lb('' @ uuid @ '' -> '' @ name @ '')''"
| "Label x (AwaitLbAction lb) = ''await-lb('' @ lb_Name lb @ '' is '' @ lb_Status lb @ '')''"
| "Label x (DeleteResourceAction url) = ''delete-resource('' @ url @ '')''"
| "Label x (SleepAction d) = ''sleep-'' @ x_show_duration x d"
| "Label x (CreatePoolAction lbUUID pool) = ''create-pool('' @ lbUUID @ ''/'' @ pool_Name pool @ '')''"
| "Label x (CreatePoolMemberAction poolUUID m) =
     ''create-pool-member('' @ poolUUID @ ''/'' @ mem_Name m @ '')''"
| "Label x (CreateListenerAction poolUUID l) = ''create-listener('' @ poolUUID @ ''/'' @ lis_Name l @ '')''"
| "Label x (UpdateListenerAllowedCIDRsAction uuid cidrs) =
     ''update-cidrs('' @ uuid @ ''/'' @ strings_Join cidrs '','' @ '')''"
| "Label x (UpdateListenerTimeoutAction uuid timeout key) =
     ''update-listener-timeout-'' @ key @ ''('' @ uuid @ '': '' @ show_int timeout @ ''ms)''"
| "Label x (CreateHealthMonitorAction poolUUID m) = ''create-monitor('' @ poolUUID @ ''/'' @ mon_Type m @ '')''"
| "Label x (UpdateMonitorHTTPMethodAction uuid method) =
     ''update-monitor-http-method ('' @ uuid @ '': '' @ method @ '')''"
| "Label x (UpdateMonitorHTTPPathAction uuid path) =
     ''update-monitor-http-path ('' @ uuid @ '': '' @ path @ '')''"
| "Label x (UpdateMonitorHTTPHostAction uuid host) =
     ''update-monitor-http-host ('' @ uuid @ '': '' @ x_show_pointer x host @ '')''"
| "Label x (UpdateMonitorHTTPExpectedCodesAction uuid codes) =
     ''update-monitor-http-expected-codes ('' @ uuid @ '': ['' @ strings_Join codes '' '' @ ''])''"
| "Label x (UpdateMonitorNumberAction uuid number key) =
     ''update-monitor-'' @ key @ ''('' @ uuid @ '': '' @ show_int number @ '')''"
| "Label x (AssignFloatingIPAction ip lbUUID) = ''assign-floating-ip('' @ ip @ '' -> '' @ lbUUID @ '')''"

section \<open>Running an action\<close>

definition proceed_call :: "('w \<Rightarrow> error option \<times> 'w) \<Rightarrow> 'w \<Rightarrow> (Control \<times> error option) \<times> 'w" where
  "proceed_call call w = (case call w of (err, w') \<Rightarrow> (ProceedOnSuccess err, w'))"

definition CreateLb_request :: "LoadBalancer \<Rightarrow> LoadBalancerRequest" where
  "CreateLb_request lb =
     \<lparr>lbreq_Name = lb_Name lb, lbreq_Flavor = lb_FlavorSlug lb,
      lbreq_VIPAddresses = Some (map (\<lambda>a. \<lparr>vipreq_Address = vip_Address a,
         vipreq_Subnet = subnet_UUID (vip_Subnet a)\<rparr>) (lb_VIPAddresses lb)),
      lbreq_Zone = lb_ZoneSlug lb\<rparr>"

definition CreatePool_request :: "string \<Rightarrow> LoadBalancerPool \<Rightarrow> PoolRequest" where
  "CreatePool_request lbUUID pool =
     \<lparr>poolreq_Name = pool_Name pool, poolreq_LoadBalancer = lbUUID,
      poolreq_Algorithm = pool_Algorithm pool, poolreq_Protocol = pool_Protocol pool\<rparr>"

definition CreatePoolMember_request :: "LoadBalancerPoolMember \<Rightarrow> MemberRequest" where
  "CreatePoolMember_request m =
     \<lparr>memreq_Name = mem_Name m, memreq_ProtocolPort = mem_ProtocolPort m,
      memreq_MonitorPort = mem_MonitorPort m, memreq_Address = mem_Address m,
      memreq_Subnet = subnet_UUID (mem_Subnet m)\<rparr>"

definition CreateListener_request :: "string \<Rightarrow> LoadBalancerListener \<Rightarrow> ListenerRequest" where
  "CreateListener_request poolUUID l =
     \<lparr>lisreq_Pool = poolUUID, lisreq_Name = lis_Name l, lisreq_Protocol = lis_Protocol l,
      lisreq_ProtocolPort = lis_ProtocolPort l, lisreq_AllowedCIDRs = Some (lis_AllowedCIDRs l),
      lisreq_TimeoutClientDataMS = lis_TimeoutClientDataMS l,
      lisreq_TimeoutMemberConnectMS = lis_TimeoutMemberConnectMS l,
      lisreq_TimeoutMemberDataMS = lis_TimeoutMemberDataMS l\<rparr>"

definition CreateHealthMonitor_request :: "string \<Rightarrow> LoadBalancerHealthMonitor \<Rightarrow> MonitorRequest" where
  "CreateHealthMonitor_request poolUUID m =
     (let http = (case mon_HTTP m of Some h \<Rightarrow> h | None \<Rightarrow> zero_MonitorHTTP) in
     \<lparr>monreq_Pool = poolUUID, monreq_DelayS = mon_DelayS m, monreq_TimeoutS = mon_TimeoutS m,
      monreq_UpThreshold = mon_UpThreshold m, monreq_DownThreshold = mon_DownThreshold m,
      monreq_Type = mon_Type m,
      monreq_HTTP = Some \<lparr>httpreq_Method = http_Method http, httpreq_URLPath = http_URLPath http,
        httpreq_Version = http_Version http, httpreq_Host = http_Host http,
        httpreq_ExpectedCodes = http_ExpectedCodes http\<rparr>\<rparr>)"

text \<open>The request of \<open>UpdateListenerTimeoutAction\<close>: the switch on the key, \<open>None\<close> in its default branch.\<close>

definition UpdateListenerTimeout_request :: "string \<Rightarrow> int \<Rightarrow> ListenerRequest option" where
  "UpdateListenerTimeout_request key timeout =
     (if key = ''client-data-ms'' then Some (zero_ListenerRequest\<lparr>lisreq_TimeoutClientDataMS := timeout\<rparr>)
      else if key = ''member-connect-ms'' then Some (zero_ListenerRequest\<lparr>lisreq_TimeoutMemberConnectMS := timeout\<rparr>)
      else if key = ''member-data-ms'' then Some (zero_ListenerRequest\<lparr>lisreq_TimeoutMemberDataMS := timeout\<rparr>)
      else None)"

definition UpdateMonitorNumber_request :: "string \<Rightarrow> int \<Rightarrow> MonitorRequest option" where
  "UpdateMonitorNumber_request key number =
     (if key = ''delay-s'' then Some (zero_MonitorRequest\<lparr>monreq_DelayS := number\<rparr>)
      else if key = ''timeout-s'' then Some (zero_MonitorRequest\<lparr>monreq_TimeoutS := number\<rparr>)
      else if key = ''up-threshold'' then Some (zero_MonitorRequest\<lparr>monreq_UpThreshold := number\<rparr>)
      else if key = ''down-threshold'' then Some (zero_MonitorRequest\<lparr>monreq_DownThreshold := number\<rparr>)
      else None)"

definition http_only :: "MonitorHTTPRequest \<Rightarrow> MonitorRequest" where
  "http_only h = zero_MonitorRequest\<lparr>monreq_HTTP := Some h\<rparr>"

definition unknown_key :: "string \<Rightarrow> Control \<times> error option" where
  "unknown_key key = (Errored, Some (ErrorMsg (''unknown timeout key: '' @ key)))"

text \<open>The method \<open>Run\<close> of each action type.\<close>

definition RefetchAction_Run :: "'w client \<Rightarrow> 'w \<Rightarrow> (Control \<times> error option) \<times> 'w" where
  "RefetchAction_Run c w =
     ((Refresh, None), w)"

definition CreateLbAction_Run :: "'w client \<Rightarrow> LoadBalancer \<Rightarrow> 'w \<Rightarrow> (Control \<times> error option) \<times> 'w" where
  "CreateLbAction_Run c lb w =
     proceed_call (LoadBalancers_Create c (CreateLb_request lb)) w"

definition RenameLbAction_Run :: "'w client \<Rightarrow> string \<Rightarrow> string \<Rightarrow> 'w \<Rightarrow> (Control \<times> error option) \<times> 'w" where
  "RenameLbAction_Run c uuid name w =
     proceed_call (LoadBalancers_Update c uuid (zero_LoadBalancerRequest\<lparr>lbreq_Name := name\<rparr>)) w"

definition AwaitLbAction_Run :: "'w client \<Rightarrow> LoadBalancer \<Rightarrow> 'w \<Rightarrow> (Control \<times> error option) \<times> 'w" where
  "AwaitLbAction_Run c lb w =
     ((if lb_Status lb = ''changing'' then Refresh else Proceed, None), w)"

definition DeleteResourceAction_Run :: "'w client \<Rightarrow> string \<Rightarrow> 'w \<Rightarrow> (Control \<times> error option) \<times> 'w" where
  "DeleteResourceAction_Run c url w =
     (case client_NewRequest c ''DELETE'' url of
        Inl e \<Rightarrow> ((Errored, Some (Wrapped (''delete resource action for '' @ url @ '' failed: '') e)), w)
      | Inr req \<Rightarrow> proceed_call (client_Do c req) w)"

definition SleepAction_Run :: "'w client \<Rightarrow> int \<Rightarrow> 'w \<Rightarrow> (Control \<times> error option) \<times> 'w" where
  "SleepAction_Run c d w =
     (case wait_or_done c d w of (done, w') \<Rightarrow>
        if done then ((Errored, Some (ErrorMsg ''action has been aborted'')), w')
        else ((Proceed, None), w'))"

definition CreatePoolAction_Run :: "'w client \<Rightarrow> string \<Rightarrow> LoadBalancerPool \<Rightarrow> 'w \<Rightarrow> (Control \<times> error option) \<times> 'w" where
  "CreatePoolAction_Run c lbUUID pool w =
     proceed_call (Pools_Create c (CreatePool_request lbUUID pool)) w"

definition CreatePoolMemberAction_Run :: "'w client \<Rightarrow> string \<Rightarrow> LoadBalancerPoolMember \<Rightarrow> 'w \<Rightarrow> (Control \<times> error option) \<times> 'w" where
  "CreatePoolMemberAction_Run c poolUUID m w =
     proceed_call (Members_Create c poolUUID (CreatePoolMember_request m)) w"

definition CreateListenerAction_Run :: "'w client \<Rightarrow> string \<Rightarrow> LoadBalancerListener \<Rightarrow> 'w \<Rightarrow> (Control \<times> error option) \<times> 'w" where
  "CreateListenerAction_Run c poolUUID l w =
     proceed_call (Listeners_Create c (CreateListener_request poolUUID l)) w"

definition UpdateListenerAllowedCIDRsAction_Run :: "'w client \<Rightarrow> string \<Rightarrow> string list \<Rightarrow> 'w \<Rightarrow> (Control \<times> error option) \<times> 'w" where
  "UpdateListenerAllowedCIDRsAction_Run c uuid cidrs w =
     proceed_call (Listeners_Update c uuid (zero_ListenerRequest\<lparr>lisreq_AllowedCIDRs := Some cidrs\<rparr>)) w"

definition UpdateListenerTimeoutAction_Run :: "'w client \<Rightarrow> string \<Rightarrow> int \<Rightarrow> string \<Rightarrow> 'w \<Rightarrow> (Control \<times> error option) \<times> 'w" where
  "UpdateListenerTimeoutAction_Run c uuid timeout key w =
     (case UpdateListenerTimeout_request key timeout of
        Some req \<Rightarrow> proceed_call (Listeners_Update c uuid req) w
      | None \<Rightarrow> (unknown_key key, w))"

definition CreateHealthMonitorAction_Run :: "'w client \<Rightarrow> string \<Rightarrow> LoadBalancerHealthMonitor \<Rightarrow> 'w \<Rightarrow> (Control \<times> error option) \<times> 'w" where
  "CreateHealthMonitorAction_Run c poolUUID m w =
     proceed_call (Monitors_Create c (CreateHealthMonitor_request poolUUID m)) w"

definition UpdateMonitorHTTPMethodAction_Run :: "'w client \<Rightarrow> string \<Rightarrow> string \<Rightarrow> 'w \<Rightarrow> (Control \<times> error option) \<times> 'w" where
  "UpdateMonitorHTTPMethodAction_Run c uuid method w =
     proceed_call (Monitors_Update c uuid (http_only (zero_MonitorHTTPRequest\<lparr>httpreq_Method := method\<rparr>))) w"

definition UpdateMonitorHTTPPathAction_Run :: "'w client \<Rightarrow> string \<Rightarrow> string \<Rightarrow> 'w \<Rightarrow> (Control \<times> error option) \<times> 'w" where
  "UpdateMonitorHTTPPathAction_Run c uuid path w =
     proceed_call (Monitors_Update c uuid (http_only (zero_MonitorHTTPRequest\<lparr>httpreq_URLPath := path\<rparr>))) w"

definition UpdateMonitorHTTPHostAction_Run :: "'w client \<Rightarrow> string \<Rightarrow> string_ptr \<Rightarrow> 'w \<Rightarrow> (Control \<times> error option) \<times> 'w" where
  "UpdateMonitorHTTPHostAction_Run c uuid host w =
     proceed_call (Monitors_Update c uuid (http_only (zero_MonitorHTTPRequest\<lparr>httpreq_Host := host\<rparr>))) w"

definition UpdateMonitorHTTPExpectedCodesAction_Run :: "'w client \<Rightarrow> string \<Rightarrow> string list \<Rightarrow> 'w \<Rightarrow> (Control \<times> error option) \<times> 'w" where
  "UpdateMonitorHTTPExpectedCodesAction_Run c uuid codes w =
     proceed_call (Monitors_Update c uuid (http_only (zero_MonitorHTTPRequest\<lparr>httpreq_ExpectedCodes := codes\<rparr>))) w"

definition UpdateMonitorNumberAction_Run :: "'w client \<Rightarrow> string \<Rightarrow> int \<Rightarrow> string \<Rightarrow> 'w \<Rightarrow> (Control \<times> error option) \<times> 'w" where
  "UpdateMonitorNumberAction_Run c uuid number key w =
     (case UpdateMonitorNumber_request key number of
        Some req \<Rightarrow> proceed_call (Monitors_Update c uuid req) w
      | None \<Rightarrow> (unknown_key key, w))"

definition AssignFloatingIPAction_Run :: "'w client \<Rightarrow> string \<Rightarrow> string \<Rightarrow> 'w \<Rightarrow> (Control \<times> error option) \<times> 'w" where
  "AssignFloatingIPAction_Run c ip lbUUID w =
     proceed_call (FloatingIPs_Update c
       (case strings_Cut ip ''/'' of Some (before, after) \<Rightarrow> before | None \<Rightarrow> ip) lbUUID) w"

text \<open>A call of \<open>Run\<close> through the interface picks the method of the type.\<close>

fun Run :: "'w client \<Rightarrow> action \<Rightarrow> 'w \<Rightarrow> (Control \<times> error option) \<times> 'w" where
  "Run c RefetchAction w = RefetchAction_Run c w"
| "Run c (CreateLbAction lb) w = CreateLbAction_Run c lb w"
| "Run c (RenameLbAction uuid name) w = RenameLbAction_Run c uuid name w"
| "Run c (AwaitLbAction lb) w = AwaitLbAction_Run c lb w"
| "Run c (DeleteResourceAction url) w = DeleteResourceAction_Run c url w"
| "Run c (SleepAction d) w = SleepAction_Run c d w"
| "Run c (CreatePoolAction lbUUID pool) w = CreatePoolAction_Run c lbUUID pool w"
| "Run c (CreatePoolMemberAction poolUUID m) w = CreatePoolMemberAction_Run c poolUUID m w"
| "Run c (CreateListenerAction poolUUID l) w = CreateListenerAction_Run c poolUUID l w"
| "Run c (UpdateListenerAllowedCIDRsAction uuid cidrs) w = UpdateListenerAllowedCIDRsAction_Run c uuid cidrs w"
| "Run c (UpdateListenerTimeoutAction uuid timeout key) w = UpdateListenerTimeoutAction_Run c uuid timeout key w"
| "Run c (CreateHealthMonitorAction poolUUID m) w = CreateHealthMonitorAction_Run c poolUUID m w"
| "Run c (UpdateMonitorHTTPMethodAction uuid method) w = UpdateMonitorHTTPMethodAction_Run c uuid method w"
| "Run c (UpdateMonitorHTTPPathAction uuid path) w = UpdateMonitorHTTPPathAction_Run c uuid path w"
| "Run c (UpdateMonitorHTTPHostAction uuid host) w = UpdateMonitorHTTPHostAction_Run c uuid host w"
| "Run c (UpdateMonitorHTTPExpectedCodesAction uuid codes) w = UpdateMonitorHTTPExpectedCodesAction_Run c uuid codes w"
| "Run c (UpdateMonitorNumberAction uuid number key) w = UpdateMonitorNumberAction_Run c uuid number key w"
| "Run c (AssignFloatingIPAction ip lbUUID) w = AssignFloatingIPAction_Run c ip lbUUID w"

lemmas Run_methods [simp] =
  RefetchAction_Run_def
  CreateLbAction_Run_def
  RenameLbAction_Run_def
  AwaitLbAction_Run_def
  DeleteResourceAction_Run_def
  SleepAction_Run_def
  CreatePoolAction_Run_def
  CreatePoolMemberAction_Run_def
  CreateListenerAction_Run_def
  UpdateListenerAllowedCIDRsAction_Run_def
  UpdateListenerTimeoutAction_Run_def
  CreateHealthMonitorAction_Run_def
  UpdateMonitorHTTPMethodAction_Run_def
  UpdateMonitorHTTPPathAction_Run_def
  UpdateMonitorHTTPHostAction_Run_def
  UpdateMonitorHTTPExpectedCodesAction_Run_def
  UpdateMonitorNumberAction_Run_def
  AssignFloatingIPAction_Run_def

section \<open>The contract of an action\<close>

text \<open>
  An action reports an error exactly with the code \<open>Errored\<close>, and otherwise one of the two codes
  that let the run go on or start over.
\<close>

locale action_contract =
  fixes run :: "'act \<Rightarrow> 'w \<Rightarrow> (Control \<times> error option) \<times> 'w"
  assumes code_Errored: "run a w = ((ctl, Some e), w') \<Longrightarrow> ctl = Errored"
    and code_success: "run a w = ((ctl, None), w') \<Longrightarrow> ctl = Proceed \<or> ctl = Refresh"
begin

lemma outcomes:
  obtains e w' where "run a w = ((Errored, Some e), w')"
  | w' where "run a w = ((Proceed, None), w')"
  | w' where "run a w = ((Refresh, None), w')"
proof -
  obtain ctl err w' where r: "run a w = ((ctl, err), w')" by (metis prod.exhaust)
  show thesis
    by (cases err) (use r code_Errored code_success that in \<open>metis+\<close>)
qed

end

lemmas control_defs = Errored_def Proceed_def Refresh_def

lemma proceed_call_cases:
  "proceed_call call w = ((ctl, err), w') \<Longrightarrow>
     (err = None \<and> ctl = Proceed) \<or> (err \<noteq> None \<and> ctl = Errored)"
  by (auto simp: proceed_call_def ProceedOnSuccess_def split: prod.splits option.splits)

text \<open>The actions that can ask for a fresh look at the state.\<close>

fun refreshing :: "action \<Rightarrow> bool" where
  "refreshing RefetchAction = True"
| "refreshing (AwaitLbAction lb) = (lb_Status lb = ''changing'')"
| "refreshing _ = False"

lemma Run_codes:
  "Run c a w = ((ctl, err), w') \<Longrightarrow>
     (err = None \<and> ctl = (if refreshing a then Refresh else Proceed)) \<or>
     (err \<noteq> None \<and> ctl = Errored \<and> \<not> refreshing a)"
  by (cases a)
     (auto dest!: proceed_call_cases simp: unknown_key_def split: prod.splits sum.splits option.splits if_splits)

interpretation ccm_actions: action_contract "Run c" for c :: "'w client"
  by unfold_locales (metis Run_codes option.distinct(1))+

section \<open>Properties\<close>

text \<open>
  C34. Control codes of every action: a run either fails, with the code \<open>Errored\<close> and an error, or
  succeeds, and then it is \<open>Refresh\<close> exactly for a refetch and for waiting on a load balancer that is
  still changing, and \<open>Proceed\<close> for every other action.
\<close>

theorem Run_control:
  "(\<exists>e w'. Run c a w = ((Errored, Some e), w') \<and> \<not> refreshing a) \<or>
   (\<exists>w'. Run c a w = ((if refreshing a then Refresh else Proceed, None), w'))"
proof -
  obtain ctl err w' where r: "Run c a w = ((ctl, err), w')" by (metis prod.exhaust)
  from Run_codes [OF this] show ?thesis by (cases err) (auto simp only: r)
qed

text \<open>
  A floating IP given in CIDR notation is assigned by its address: the prefix length is cut off
  before the call, and the load balancer of the action is passed on.
\<close>

lemma AssignFloatingIP_address:
  assumes "CHR ''/'' \<notin> set addr"
  shows "Run c (AssignFloatingIPAction (addr @ ''/'' @ len) lbUUID) w
       = Run c (AssignFloatingIPAction addr lbUUID) w \<and>
         Run c (AssignFloatingIPAction addr lbUUID) w = proceed_call (FloatingIPs_Update c addr lbUUID) w"
  using Cut_first [OF assms, of "[]" len] Cut_absent [OF assms, of "[]"] by simp

end
