(* ===== verification/Reconcile_Next.thy ===== *)
theory Reconcile_Next
  imports Reconcile_Desired Actions
begin

text \<open>
  The plan that takes a load balancer from its actual to its desired state
  (\<open>src/pkg/cloudscale_ccm/reconcile.go\<close>: \<open>nextLbActions\<close>, \<open>poolsByName\<close>). The argument \<open>ro\<close> gives the
  iteration orders of the maps in the calls of \<open>compare.Diff\<close>, one pair of orders for each call; the
  argument \<open>x\<close> the rendering of subnets and of formats with verbs in the keys.
\<close>

section \<open>Keys\<close>

definition poolKey :: "LoadBalancerPool \<Rightarrow> string" where
  "poolKey p = fmt_Sprint_strings [pool_Name p, pool_Algorithm p, pool_Protocol p]"

definition poolMemberKey :: "ext \<Rightarrow> LoadBalancerPoolMember \<Rightarrow> string" where
  "poolMemberKey x m = fmt_Sprintf (x_sprintf x) (mem_Name m)
     [GBool (mem_Enabled m), GInt (mem_MonitorPort m), GInt (mem_ProtocolPort m), GString (mem_Address m),
      GStruct ''cloudscale.SubnetStub'' (x_show_subnet x (mem_Subnet m))]"

definition listenerKey :: "ext \<Rightarrow> LoadBalancerListener \<Rightarrow> string" where
  "listenerKey x l = fmt_Sprintf (x_sprintf x) (lis_Name l) [GString (lis_Protocol l), GInt (lis_ProtocolPort l)]"

definition monitorKey :: "ext \<Rightarrow> LoadBalancerHealthMonitor \<Rightarrow> string" where
  "monitorKey x m =
     (let httpVersion = (case mon_HTTP m of
          Some h \<Rightarrow> if http_Version h \<noteq> [] then http_Version h else ''1.1''
        | None \<Rightarrow> ''1.1'')
      in fmt_Sprintf (x_sprintf x) (mon_Type m) [GString httpVersion])"

section \<open>Parts of the plan\<close>

definition deleteResource :: "string \<Rightarrow> action list" where
  "deleteResource url = [DeleteResourceAction url, SleepAction (500 * Millisecond)]"

text \<open>
  \<open>slices.EqualFunc\<close> on the virtual IP addresses: the desired address may be missing, the subnet
  may not.
\<close>

definition vip_matches :: "VIPAddress \<Rightarrow> VIPAddress \<Rightarrow> bool" where
  "vip_matches d a \<longleftrightarrow>
     \<not> (vip_Address d \<noteq> [] \<and> vip_Address d \<noteq> vip_Address a) \<and>
     subnet_UUID (vip_Subnet d) = subnet_UUID (vip_Subnet a)"

definition delete_pool :: "lbState \<Rightarrow> pool_ref \<Rightarrow> action list" where
  "delete_pool actual p =
     concat (map (deleteResource \<circ> mem_HREF) (st_members actual (Some (fst p)))) @ deleteResource (pool_HREF (snd p))"

text \<open>
  The three blocks that delete and create the members, the listeners and the monitors of a pool have
  one shape: deletions, a pause when there is both to delete and to create, then creations.
\<close>

definition recreate ::
  "orders \<Rightarrow> 'a list \<Rightarrow> 'a list \<Rightarrow> ('a \<Rightarrow> string) \<Rightarrow> ('a \<Rightarrow> string) \<Rightarrow> ('a \<Rightarrow> action) \<Rightarrow> action list" where
  "recreate ords desired actual key href create =
     (case Diff ords desired actual key of (toDelete, toCreate) \<Rightarrow>
        concat (map (deleteResource \<circ> href) toDelete) @
        (if length toDelete > 0 \<and> length toCreate > 0 then [SleepAction (5 * Second)] else []) @
        map create toCreate)"

definition poolsByName :: "lbState \<Rightarrow> pool_ref go_map" where
  "poolsByName s = index_by (pool_Name \<circ> snd) (st_pools s)"

text \<open>The body of the first loop over the desired pools; \<open>i\<close> counts the rounds.\<close>

definition recreate_pool :: "ext \<Rightarrow> site_orders \<Rightarrow> lbState \<Rightarrow> lbState \<Rightarrow> nat \<Rightarrow> pool_ref \<Rightarrow> action list res" where
  "recreate_pool x ro desired actual i d =
     (case map_of (poolsByName actual) (pool_Name (snd d)) of
        None \<Rightarrow> Err (ErrorMsg (''no existing pool found for '' @ pool_Name (snd d)))
      | Some a \<Rightarrow>
          Ok (recreate (ro (MembersSite i)) (st_members desired (Some (fst d))) (st_members actual (Some (fst a)))
                (poolMemberKey x) mem_HREF (CreatePoolMemberAction (pool_UUID (snd a))) @
              recreate (ro (ListenersSite i)) (st_listeners desired (Some (fst d))) (st_listeners actual (Some (fst a)))
                (listenerKey x) lis_HREF (CreateListenerAction (pool_UUID (snd a))) @
              recreate (ro (MonitorsSite i)) (st_monitors desired (Some (fst d))) (st_monitors actual (Some (fst a)))
                (monitorKey x) mon_HREF (CreateHealthMonitorAction (pool_UUID (snd a)))))"

fun recreate_pools ::
  "ext \<Rightarrow> site_orders \<Rightarrow> lbState \<Rightarrow> lbState \<Rightarrow> nat \<Rightarrow> pool_ref list \<Rightarrow> action list res" where
  "recreate_pools x ro desired actual i [] = Ok []"
| "recreate_pools x ro desired actual i (d # ds) =
     bind_res (recreate_pool x ro desired actual i d) (\<lambda>here.
     bind_res (recreate_pools x ro desired actual (Suc i) ds) (\<lambda>rest. Ok (here @ rest)))"

definition update_listener :: "LoadBalancerListener \<times> LoadBalancerListener \<Rightarrow> action list" where
  "update_listener match = (case match of (dl, al) \<Rightarrow>
     (if lis_AllowedCIDRs dl \<noteq> lis_AllowedCIDRs al
      then [UpdateListenerAllowedCIDRsAction (lis_UUID al) (lis_AllowedCIDRs dl)] else []) @
     (if lis_TimeoutClientDataMS dl \<noteq> lis_TimeoutClientDataMS al
      then [UpdateListenerTimeoutAction (lis_UUID al) (lis_TimeoutClientDataMS dl) ''client-data-ms''] else []) @
     (if lis_TimeoutMemberConnectMS dl \<noteq> lis_TimeoutMemberConnectMS al
      then [UpdateListenerTimeoutAction (lis_UUID al) (lis_TimeoutMemberConnectMS dl) ''member-connect-ms''] else []) @
     (if lis_TimeoutMemberDataMS dl \<noteq> lis_TimeoutMemberDataMS al
      then [UpdateListenerTimeoutAction (lis_UUID al) (lis_TimeoutMemberDataMS dl) ''member-data-ms''] else []))"

definition update_monitor_http :: "string \<Rightarrow> MonitorHTTP \<Rightarrow> MonitorHTTP \<Rightarrow> action list" where
  "update_monitor_http uuid dh ah =
     (if \<not> ptr_eq (http_Host dh) (http_Host ah) then [UpdateMonitorHTTPHostAction uuid (http_Host dh)] else []) @
     (if http_URLPath dh \<noteq> http_URLPath ah then [UpdateMonitorHTTPPathAction uuid (http_URLPath dh)] else []) @
     (if http_Method dh \<noteq> http_Method ah then [UpdateMonitorHTTPMethodAction uuid (http_Method dh)] else []) @
     (if http_ExpectedCodes dh \<noteq> http_ExpectedCodes ah
      then [UpdateMonitorHTTPExpectedCodesAction uuid (http_ExpectedCodes dh)] else [])"

definition update_monitor :: "LoadBalancerHealthMonitor \<times> LoadBalancerHealthMonitor \<Rightarrow> action list" where
  "update_monitor match = (case match of (dm, am) \<Rightarrow>
     (case (mon_HTTP dm, mon_HTTP am) of
        (Some dh, Some ah) \<Rightarrow> update_monitor_http (mon_UUID am) dh ah
      | _ \<Rightarrow> []) @
     (if mon_DelayS dm \<noteq> mon_DelayS am
      then [UpdateMonitorNumberAction (mon_UUID am) (mon_DelayS dm) ''delay-s''] else []) @
     (if mon_TimeoutS dm \<noteq> mon_TimeoutS am
      then [UpdateMonitorNumberAction (mon_UUID am) (mon_TimeoutS dm) ''timeout-s''] else []) @
     (if mon_UpThreshold dm \<noteq> mon_UpThreshold am
      then [UpdateMonitorNumberAction (mon_UUID am) (mon_UpThreshold dm) ''up-threshold''] else []) @
     (if mon_DownThreshold dm \<noteq> mon_DownThreshold am
      then [UpdateMonitorNumberAction (mon_UUID am) (mon_DownThreshold dm) ''down-threshold''] else []))"

text \<open>
  The body of the second loop over the desired pools. A name that is not in the map gives the nil
  pointer.
\<close>

definition update_pool :: "ext \<Rightarrow> lbState \<Rightarrow> lbState \<Rightarrow> pool_ref \<Rightarrow> action list" where
  "update_pool x desired actual d =
     (let a = map_option fst (map_of (poolsByName actual) (pool_Name (snd d))) in
      concat (map update_listener
        (Match (st_listeners desired (Some (fst d))) (st_listeners actual a) (listenerKey x))) @
      concat (map update_monitor
        (Match (st_monitors desired (Some (fst d))) (st_monitors actual a) (monitorKey x))))"

definition assign_floating :: "site_orders \<Rightarrow> LoadBalancer \<Rightarrow> lbState \<Rightarrow> lbState \<Rightarrow> action list" where
  "assign_floating ro lb desired actual =
     (case Diff (ro FloatingSite) (st_floatingIPs desired) (st_floatingIPs actual) (\<lambda>ip. ip) of
        (_, assign) \<Rightarrow> map (\<lambda>ip. AssignFloatingIPAction ip (lb_UUID lb)) assign)"

section \<open>The plan\<close>

text \<open>The plan for a load balancer that exists and is desired, after the checks of what cannot change.\<close>

definition change_actions ::
  "ext \<Rightarrow> site_orders \<Rightarrow> LoadBalancer \<Rightarrow> LoadBalancer \<Rightarrow> lbState \<Rightarrow> lbState \<Rightarrow> action list res" where
  "change_actions x ro dlb alb desired actual =
     (let next = AwaitLbAction alb #
        (if lb_Name dlb \<noteq> lb_Name alb then [RenameLbAction (lb_UUID alb) (lb_Name dlb)] else []) in
      case Diff (ro PoolsSite) (st_pools desired) (st_pools actual) (poolKey \<circ> snd) of
        (poolsToDelete, poolsToCreate) \<Rightarrow>
          if length poolsToDelete > 0 \<or> length poolsToCreate > 0 then
            Ok (next @ concat (map (delete_pool actual) poolsToDelete) @
                map (CreatePoolAction (lb_UUID alb) \<circ> snd) poolsToCreate @ [RefetchAction])
          else
            bind_res (recreate_pools x ro desired actual 0 (st_pools desired)) (\<lambda>changes.
              if changes \<noteq> [] then Ok (next @ changes @ [RefetchAction])
              else Ok (next @ concat (map (update_pool x desired actual) (st_pools desired)) @
                       assign_floating ro alb desired actual)))"

definition nextLbActions :: "ext \<Rightarrow> site_orders \<Rightarrow> lbState option \<Rightarrow> lbState option \<Rightarrow> action list res" where
  "nextLbActions x ro desired_ptr actual_ptr = (case (desired_ptr, actual_ptr) of
       (None, _) \<Rightarrow> Err (ErrorMsg ''no desired state given'')
     | (_, None) \<Rightarrow> Err (ErrorMsg ''no desired state given'')
     | (Some desired, Some actual) \<Rightarrow> (case (st_lb desired, st_lb actual) of
           (None, None) \<Rightarrow> Ok []
         | (Some dlb, None) \<Rightarrow> Ok [CreateLbAction dlb, RefetchAction]
         | (None, Some alb) \<Rightarrow> Ok [AwaitLbAction alb, DeleteResourceAction (lb_HREF alb)]
         | (Some dlb, Some alb) \<Rightarrow>
             if length (lb_VIPAddresses dlb) > 0 \<and>
                \<not> list_all2 vip_matches (lb_VIPAddresses dlb) (lb_VIPAddresses alb) then
               Err (ErrorMsg (''VIP addresses for '' @ lb_HREF alb @ '' changed, please re-create the service''))
             else if lb_FlavorSlug dlb \<noteq> lb_FlavorSlug alb then
               Err (ErrorMsg (''flavor for '' @ lb_HREF alb @
                 '' changed, please configure the previous flavor or contact support''))
             else if lb_ZoneSlug dlb \<noteq> lb_ZoneSlug alb then
               Err (ErrorMsg (''zone for '' @ lb_HREF alb @
                 '' changed, please configure the previous zone or contact support''))
             else change_actions x ro dlb alb desired actual))"

section \<open>Laws of the parts\<close>

lemma deleteResource_set [simp]: "act \<in> set (deleteResource u) \<longleftrightarrow> act = DeleteResourceAction u \<or> act = SleepAction (500 * Millisecond)"
  by (auto simp: deleteResource_def)

lemma deleteResource_nonempty [simp]: "deleteResource u \<noteq> []"
  by (simp add: deleteResource_def)

text \<open>A block is empty exactly when desired and actual have the same keys.\<close>

lemma recreate_Nil_iff:
  assumes "valid_orders ords"
  shows "recreate ords d a key href create = [] \<longleftrightarrow> key ` set d = key ` set a"
proof -
  have "recreate ords d a key href create = [] \<longleftrightarrow> Diff ords d a key = ([], [])"
    by (cases "Diff ords d a key") (auto simp: recreate_def)
  then show ?thesis using go_diff.idle_iff [OF assms] by simp
qed

text \<open>A block only deletes what is not desired and only creates what is missing.\<close>

lemma recreate_mem:
  assumes "valid_orders ords" "act \<in> set (recreate ords d a key href create)"
  obtains (pause) t where "act = SleepAction t"
  | (delete) i where "i \<in> set a" "key i \<notin> key ` set d" "act = DeleteResourceAction (href i)"
  | (create) i where "i \<in> set d" "key i \<notin> key ` set a" "act = create i"
proof -
  obtain del cre where diff: "Diff ords d a key = (del, cre)" by fastforce
  note laws = go_diff.delete_keys [OF assms(1) diff] go_diff.delete_subset [OF assms(1) diff]
    go_diff.create_keys [OF assms(1) diff] go_diff.create_subset [OF assms(1) diff]
  from assms(2) consider t where "act = SleepAction t" | i where "i \<in> set del" "act = DeleteResourceAction (href i)"
    | i where "i \<in> set cre" "act = create i"
    by (auto simp: recreate_def diff split: if_splits)
  then show thesis
  proof cases
    case (2 i)
    moreover from this laws(1,2) have "i \<in> set a" "key i \<notin> key ` set d" by blast+
    ultimately show thesis using delete by blast
  next
    case (3 i)
    moreover from this laws(3,4) have "i \<in> set d" "key i \<notin> key ` set a" by blast+
    ultimately show thesis using create by blast
  qed (rule pause)
qed

text \<open>Something is created for every key that is missing.\<close>

lemma recreate_creates:
  assumes "valid_orders ords" "i \<in> set d" "key i \<notin> key ` set a"
  shows "\<exists>j \<in> set d. key j = key i \<and> create j \<in> set (recreate ords d a key href create)"
proof -
  obtain del cre where diff: "Diff ords d a key = (del, cre)" by fastforce
  have "key i \<in> key ` set cre"
    using assms(2,3) unfolding go_diff.create_keys [OF assms(1) diff] by blast
  then obtain j where "j \<in> set cre" "key j = key i" by force
  then show ?thesis
    using go_diff.create_subset [OF assms(1) diff] by (auto simp: recreate_def diff)
qed

abbreviation counterpart :: "lbState \<Rightarrow> pool_ref \<Rightarrow> pool_ref option" where
  "counterpart actual d \<equiv> map_of (poolsByName actual) (pool_Name (snd d))"

lemma counterpart_mem: "counterpart actual d = Some a \<Longrightarrow> a \<in> set (st_pools actual) \<and> pool_Name (snd a) = pool_Name (snd d)"
  using index_by_lookup_Some [of "pool_Name \<circ> snd" "st_pools actual"] by (fastforce simp: poolsByName_def)

lemma counterpart_None: "counterpart actual d = None \<longleftrightarrow> pool_Name (snd d) \<notin> (pool_Name \<circ> snd) ` set (st_pools actual)"
  unfolding poolsByName_def by (rule index_by_lookup_None)

text \<open>The members, listeners and monitors of a desired pool agree with those of an actual one, by key.\<close>

definition keys_agree :: "ext \<Rightarrow> lbState \<Rightarrow> lbState \<Rightarrow> pool_ref \<Rightarrow> pool_ref \<Rightarrow> bool" where
  "keys_agree x desired actual d a \<longleftrightarrow>
     poolMemberKey x ` set (st_members desired (Some (fst d))) = poolMemberKey x ` set (st_members actual (Some (fst a))) \<and>
     listenerKey x ` set (st_listeners desired (Some (fst d))) = listenerKey x ` set (st_listeners actual (Some (fst a))) \<and>
     monitorKey x ` set (st_monitors desired (Some (fst d))) = monitorKey x ` set (st_monitors actual (Some (fst a)))"

lemma recreate_pool_Nil_iff:
  assumes "valid_site_orders ro"
  shows "recreate_pool x ro desired actual i d = Ok [] \<longleftrightarrow>
    (\<exists>a. counterpart actual d = Some a \<and> keys_agree x desired actual d a)"
  by (cases "counterpart actual d")
     (simp_all add: recreate_pool_def recreate_Nil_iff valid_site_ordersD [OF assms] keys_agree_def)

lemma recreate_pools_Nil_iff:
  assumes "valid_site_orders ro"
  shows "recreate_pools x ro desired actual i ds = Ok [] \<longleftrightarrow>
    (\<forall>d \<in> set ds. \<exists>a. counterpart actual d = Some a \<and> keys_agree x desired actual d a)"
  by (induction ds arbitrary: i) (auto simp: recreate_pool_Nil_iff [OF assms])

lemma recreate_pools_mem:
  assumes "recreate_pools x ro desired actual i ds = Ok acts" "act \<in> set acts"
  shows "\<exists>d \<in> set ds. \<exists>j here. recreate_pool x ro desired actual j d = Ok here \<and> act \<in> set here"
  using assms
proof (induction ds arbitrary: i acts)
  case (Cons d ds)
  then obtain here rest where
    "recreate_pool x ro desired actual i d = Ok here" "recreate_pools x ro desired actual (Suc i) ds = Ok rest"
    "act \<in> set here \<or> act \<in> set rest" by auto
  with Cons.IH show ?case by (meson list.set_intros)
qed simp

lemma recreate_pools_total:
  "(\<exists>acts. recreate_pools x ro desired actual i ds = Ok acts) \<longleftrightarrow> (\<forall>d \<in> set ds. counterpart actual d \<noteq> None)"
  by (induction ds arbitrary: i) (auto simp: recreate_pool_def split: option.splits)

lemma recreate_pools_incl:
  assumes "recreate_pools x ro desired actual i ds = Ok acts" "d \<in> set ds"
  shows "\<exists>j here. recreate_pool x ro desired actual j d = Ok here \<and> set here \<subseteq> set acts"
  using assms
proof (induction ds arbitrary: i acts)
  case (Cons e ds)
  then obtain here rest where
    "recreate_pool x ro desired actual i e = Ok here" "recreate_pools x ro desired actual (Suc i) ds = Ok rest"
    "acts = here @ rest" by auto
  with Cons show ?case by (cases "d = e") (fastforce, force)
qed simp

text \<open>The kinds of actions in the parts of a plan.\<close>

fun structural :: "action \<Rightarrow> bool" where
  "structural (CreatePoolMemberAction u m) = True"
| "structural (CreateListenerAction u l) = True"
| "structural (CreateHealthMonitorAction u m) = True"
| "structural (DeleteResourceAction u) = True"
| "structural (SleepAction t) = True"
| "structural _ = False"

fun in_place :: "action \<Rightarrow> bool" where
  "in_place (UpdateListenerAllowedCIDRsAction u c) = True"
| "in_place (UpdateListenerTimeoutAction u t k) = True"
| "in_place (UpdateMonitorHTTPMethodAction u m) = True"
| "in_place (UpdateMonitorHTTPPathAction u p) = True"
| "in_place (UpdateMonitorHTTPHostAction u h) = True"
| "in_place (UpdateMonitorHTTPExpectedCodesAction u c) = True"
| "in_place (UpdateMonitorNumberAction u n k) = True"
| "in_place (AssignFloatingIPAction i u) = True"
| "in_place _ = False"

lemma recreate_structural:
  assumes "valid_orders ords" "\<And>i. structural (create i)" "act \<in> set (recreate ords d a key href create)"
  shows "structural act"
  using assms(1,3) by (rule recreate_mem) (use assms(2) in auto)

lemma recreate_pools_structural:
  assumes "valid_site_orders ro" "recreate_pools x ro desired actual i ds = Ok acts" "act \<in> set acts"
  shows "structural act"
proof -
  obtain d j here where "recreate_pool x ro desired actual j d = Ok here" "act \<in> set here"
    using recreate_pools_mem [OF assms(2,3)] by blast
  then show ?thesis
    by (auto simp: recreate_pool_def split: option.splits
        elim!: recreate_structural [OF valid_site_ordersD [OF assms(1)], rotated])
qed

lemma update_in_place:
  "act \<in> set (update_pool x desired actual d) \<Longrightarrow> in_place act"
  "act \<in> set (assign_floating ro lb desired actual) \<Longrightarrow> in_place act"
  by (auto simp: update_pool_def Let_def update_listener_def update_monitor_def update_monitor_http_def
      assign_floating_def split: if_splits prod.splits option.splits)

section \<open>Laws of the plan\<close>

text \<open>Desired and actual state have the same pools, members, listeners and monitors, by their keys.\<close>

definition same_structure :: "ext \<Rightarrow> lbState \<Rightarrow> lbState \<Rightarrow> bool" where
  "same_structure x desired actual \<longleftrightarrow>
     (poolKey \<circ> snd) ` set (st_pools desired) = (poolKey \<circ> snd) ` set (st_pools actual) \<and>
     (\<forall>d \<in> set (st_pools desired). \<exists>a. counterpart actual d = Some a \<and> keys_agree x desired actual d a)"

text \<open>The three ways a plan for an existing load balancer can come out.\<close>

lemma change_actions_cases:
  assumes "valid_site_orders ro" "change_actions x ro dlb alb desired actual = Ok acts"
  obtains
    (pools) del cre where
      "Diff (ro PoolsSite) (st_pools desired) (st_pools actual) (poolKey \<circ> snd) = (del, cre)" "del \<noteq> [] \<or> cre \<noteq> []"
      "acts = AwaitLbAction alb #
         (if lb_Name dlb \<noteq> lb_Name alb then [RenameLbAction (lb_UUID alb) (lb_Name dlb)] else []) @
         concat (map (delete_pool actual) del) @ map (CreatePoolAction (lb_UUID alb) \<circ> snd) cre @ [RefetchAction]"
      "\<not> same_structure x desired actual"
  | (contents) changes where
      "recreate_pools x ro desired actual 0 (st_pools desired) = Ok changes" "changes \<noteq> []"
      "acts = AwaitLbAction alb #
         (if lb_Name dlb \<noteq> lb_Name alb then [RenameLbAction (lb_UUID alb) (lb_Name dlb)] else []) @
         changes @ [RefetchAction]"
      "(poolKey \<circ> snd) ` set (st_pools desired) = (poolKey \<circ> snd) ` set (st_pools actual)"
      "\<not> same_structure x desired actual"
  | (settled)
      "acts = AwaitLbAction alb #
         (if lb_Name dlb \<noteq> lb_Name alb then [RenameLbAction (lb_UUID alb) (lb_Name dlb)] else []) @
         concat (map (update_pool x desired actual) (st_pools desired)) @ assign_floating ro alb desired actual"
      "same_structure x desired actual"
proof -
  obtain del cre where diff: "Diff (ro PoolsSite) (st_pools desired) (st_pools actual) (poolKey \<circ> snd) = (del, cre)"
    by fastforce
  have keys: "del = [] \<and> cre = [] \<longleftrightarrow>
      (poolKey \<circ> snd) ` set (st_pools desired) = (poolKey \<circ> snd) ` set (st_pools actual)"
    unfolding go_diff.idle_iff [OF valid_site_ordersD [OF assms(1)], of PoolsSite, symmetric] diff by simp
  note nil = recreate_pools_Nil_iff [OF assms(1), of x desired actual 0 "st_pools desired"]
  show thesis
  proof (cases "del \<noteq> [] \<or> cre \<noteq> []")
    case True
    with keys have "\<not> same_structure x desired actual" unfolding same_structure_def by blast
    with True show thesis
      using assms(2) by (intro pools [OF diff]) (auto simp: change_actions_def diff Let_def)
  next
    case False
    with assms(2) diff obtain changes where
      changes: "recreate_pools x ro desired actual 0 (st_pools desired) = Ok changes"
      by (auto simp: change_actions_def Let_def)
    show thesis
    proof (cases "changes = []")
      case True
      with assms(2) False diff keys nil changes settled show thesis
        by (simp add: change_actions_def same_structure_def Let_def)
    next
      case nonempty: False
      with assms(2) False diff keys nil changes contents show thesis
        by (simp add: change_actions_def same_structure_def Let_def)
    qed
  qed
qed

lemma nextLbActions_change:
  assumes "st_lb desired = Some dlb" "st_lb actual = Some alb"
    and "nextLbActions x ro (Some desired) (Some actual) = Ok acts"
  shows "change_actions x ro dlb alb desired actual = Ok acts"
  using assms by (auto simp: nextLbActions_def split: if_splits)

text \<open>
  What the code does not let a service change: virtual IP addresses where it names any, flavor and zone.
  A service that names no addresses agrees with a load balancer that has any, also when it named
  others before.
\<close>

definition same_fixed :: "LoadBalancer \<Rightarrow> LoadBalancer \<Rightarrow> bool" where
  "same_fixed dlb alb \<longleftrightarrow>
     (lb_VIPAddresses dlb = [] \<or> list_all2 vip_matches (lb_VIPAddresses dlb) (lb_VIPAddresses alb)) \<and>
     lb_FlavorSlug dlb = lb_FlavorSlug alb \<and> lb_ZoneSlug dlb = lb_ZoneSlug alb"

lemma nextLbActions_fixed:
  assumes "st_lb desired = Some dlb" "st_lb actual = Some alb"
  shows "same_fixed dlb alb \<Longrightarrow> nextLbActions x ro (Some desired) (Some actual) = change_actions x ro dlb alb desired actual"
    and "\<not> same_fixed dlb alb \<Longrightarrow> \<exists>e. nextLbActions x ro (Some desired) (Some actual) = Err e"
  using assms by (auto simp: nextLbActions_def same_fixed_def)

text \<open>
  Pool keys put three strings together without a separator. They determine the pool attributes
  among the algorithms and protocols of the API, since none of these is the end of another one.
\<close>

definition pool_algorithms :: "string list" where
  "pool_algorithms = [''round_robin'', ''least_connections'', ''source_ip'']"

definition pool_protocols :: "string list" where
  "pool_protocols = [''tcp'', ''udp'', ''proxy'', ''proxyv2'']"

definition api_pool :: "LoadBalancerPool \<Rightarrow> bool" where
  "api_pool p \<longleftrightarrow> pool_Algorithm p \<in> set pool_algorithms \<and> pool_Protocol p \<in> set pool_protocols"

lemma append_same_end:
  assumes "a @ u = b @ v" "\<And>c. u = c @ v \<Longrightarrow> u = v" "\<And>c. v = c @ u \<Longrightarrow> u = v"
  shows "a = b \<and> u = v"
proof -
  from assms(1) obtain c where "(a = b @ c \<and> c @ u = v) \<or> (a @ c = b \<and> u = c @ v)"
    by (auto simp: append_eq_append_conv2)
  then have "u = v" using assms(2,3) by metis
  with assms(1) show ?thesis by simp
qed

lemma protocol_ends:
  assumes "u \<in> set pool_protocols" "v \<in> set pool_protocols" "u = c @ v"
  shows "u = v"
  using assms by (auto simp: pool_protocols_def append_eq_Cons_conv Cons_eq_append_conv)

lemma algorithm_ends:
  assumes "u \<in> set pool_algorithms" "v \<in> set pool_algorithms" "u = c @ v"
  shows "u = v"
  using assms by (auto simp: pool_algorithms_def append_eq_Cons_conv Cons_eq_append_conv)

lemma poolKey_inject:
  assumes "api_pool p" "api_pool q" "poolKey p = poolKey q"
  shows "pool_Name p = pool_Name q \<and> pool_Algorithm p = pool_Algorithm q \<and> pool_Protocol p = pool_Protocol q"
proof -
  have "(pool_Name p @ pool_Algorithm p) @ pool_Protocol p = (pool_Name q @ pool_Algorithm q) @ pool_Protocol q"
    using assms(3) by (simp add: poolKey_def fmt_Sprint_strings_def)
  then have "pool_Name p @ pool_Algorithm p = pool_Name q @ pool_Algorithm q \<and> pool_Protocol p = pool_Protocol q"
    by (rule append_same_end) (use assms(1,2) protocol_ends in \<open>auto simp: api_pool_def\<close>)
  moreover from this have "pool_Name p = pool_Name q \<and> pool_Algorithm p = pool_Algorithm q"
    by (intro append_same_end) (use assms(1,2) algorithm_ends in \<open>auto simp: api_pool_def\<close>)
  ultimately show ?thesis by simp
qed

text \<open>Matched listeners and monitors that need no update in place.\<close>

definition same_listener :: "LoadBalancerListener \<times> LoadBalancerListener \<Rightarrow> bool" where
  "same_listener pair = (case pair of (d, a) \<Rightarrow>
     lis_AllowedCIDRs d = lis_AllowedCIDRs a \<and> lis_TimeoutClientDataMS d = lis_TimeoutClientDataMS a \<and>
     lis_TimeoutMemberConnectMS d = lis_TimeoutMemberConnectMS a \<and> lis_TimeoutMemberDataMS d = lis_TimeoutMemberDataMS a)"

definition same_monitor :: "LoadBalancerHealthMonitor \<times> LoadBalancerHealthMonitor \<Rightarrow> bool" where
  "same_monitor pair = (case pair of (d, a) \<Rightarrow>
     mon_DelayS d = mon_DelayS a \<and> mon_TimeoutS d = mon_TimeoutS a \<and>
     mon_UpThreshold d = mon_UpThreshold a \<and> mon_DownThreshold d = mon_DownThreshold a \<and>
     (case (mon_HTTP d, mon_HTTP a) of
        (Some dh, Some ah) \<Rightarrow> ptr_eq (http_Host dh) (http_Host ah) \<and> http_URLPath dh = http_URLPath ah \<and>
          http_Method dh = http_Method ah \<and> http_ExpectedCodes dh = http_ExpectedCodes ah
      | _ \<Rightarrow> True))"

lemma update_listener_Nil_iff: "update_listener pair = [] \<longleftrightarrow> same_listener pair"
  by (simp add: update_listener_def same_listener_def split: prod.split)

lemma update_monitor_Nil_iff: "update_monitor pair = [] \<longleftrightarrow> same_monitor pair"
  by (auto simp: update_monitor_def same_monitor_def update_monitor_http_def split: prod.split option.split)

definition same_settings :: "ext \<Rightarrow> lbState \<Rightarrow> lbState \<Rightarrow> bool" where
  "same_settings x desired actual \<longleftrightarrow>
     (\<forall>d \<in> set (st_pools desired). \<forall>a. counterpart actual d = Some a \<longrightarrow>
       list_all same_listener (Match (st_listeners desired (Some (fst d))) (st_listeners actual (Some (fst a))) (listenerKey x)) \<and>
       list_all same_monitor (Match (st_monitors desired (Some (fst d))) (st_monitors actual (Some (fst a))) (monitorKey x)))"

lemma update_pool_Nil_iff:
  assumes "counterpart actual d = Some a"
  shows "update_pool x desired actual d = [] \<longleftrightarrow>
     list_all same_listener (Match (st_listeners desired (Some (fst d))) (st_listeners actual (Some (fst a))) (listenerKey x)) \<and>
     list_all same_monitor (Match (st_monitors desired (Some (fst d))) (st_monitors actual (Some (fst a))) (monitorKey x))"
  by (simp add: update_pool_def Let_def assms update_listener_Nil_iff update_monitor_Nil_iff list_all_iff)

lemma updates_Nil_iff:
  assumes "same_structure x desired actual"
  shows "concat (map (update_pool x desired actual) (st_pools desired)) = [] \<longleftrightarrow> same_settings x desired actual"
  using assms update_pool_Nil_iff by (fastforce simp: same_structure_def same_settings_def)

lemma assign_floating_Nil_iff:
  assumes "valid_site_orders ro"
  shows "assign_floating ro lb desired actual = [] \<longleftrightarrow> set (st_floatingIPs desired) \<subseteq> set (st_floatingIPs actual)"
  using go_diff.create_Nil_iff [OF valid_site_ordersD [OF assms], of FloatingSite "st_floatingIPs desired" "st_floatingIPs actual" "\<lambda>ip. ip"]
  by (cases "Diff (ro FloatingSite) (st_floatingIPs desired) (st_floatingIPs actual) (\<lambda>ip. ip)") (simp add: assign_floating_def)

text \<open>
  An address of something the actual state has in the pool \<open>a\<close> and the desired state does not want in
  the pool \<open>d\<close>; and that for every missing key something with the key is created.
\<close>

definition undesired_item :: "ext \<Rightarrow> lbState \<Rightarrow> lbState \<Rightarrow> pool_ref \<Rightarrow> pool_ref \<Rightarrow> string \<Rightarrow> bool" where
  "undesired_item x desired actual d a url \<longleftrightarrow>
     (\<exists>m \<in> set (st_members actual (Some (fst a))). url = mem_HREF m \<and>
        poolMemberKey x m \<notin> poolMemberKey x ` set (st_members desired (Some (fst d)))) \<or>
     (\<exists>l \<in> set (st_listeners actual (Some (fst a))). url = lis_HREF l \<and>
        listenerKey x l \<notin> listenerKey x ` set (st_listeners desired (Some (fst d)))) \<or>
     (\<exists>m \<in> set (st_monitors actual (Some (fst a))). url = mon_HREF m \<and>
        monitorKey x m \<notin> monitorKey x ` set (st_monitors desired (Some (fst d))))"

definition covered :: "('a \<Rightarrow> string) \<Rightarrow> 'a list \<Rightarrow> 'a list \<Rightarrow> ('a \<Rightarrow> action) \<Rightarrow> action list \<Rightarrow> bool" where
  "covered key desired actual create acts \<longleftrightarrow>
     (\<forall>i \<in> set desired. key i \<in> key ` set actual \<or> (\<exists>n. key n = key i \<and> create n \<in> set acts))"

lemma recreate_delete:
  assumes "DeleteResourceAction u \<in> set (recreate ords d a key href create)"
    and "valid_orders ords" "\<And>i. create i \<noteq> DeleteResourceAction u"
  shows "\<exists>i \<in> set a. u = href i \<and> key i \<notin> key ` set d"
  using assms(2,1) by (rule recreate_mem) (use assms(3) in \<open>fastforce+\<close>)

lemma recreate_pool_deletes:
  assumes "valid_site_orders ro" "recreate_pool x ro desired actual j d = Ok here" "DeleteResourceAction url \<in> set here"
  obtains a where "counterpart actual d = Some a" "undesired_item x desired actual d a url"
proof -
  from assms(2) obtain a where a: "counterpart actual d = Some a" by (auto simp: recreate_pool_def split: option.splits)
  have "undesired_item x desired actual d a url"
    using assms(2,3) unfolding undesired_item_def recreate_pool_def a
    by (auto dest!: recreate_delete [OF _ valid_site_ordersD [OF assms(1)]])
  with a that show thesis by blast
qed

lemma recreate_covered:
  assumes "valid_orders ords" "set (recreate ords d a key href create) \<subseteq> set acts"
  shows "covered key d a create acts"
  unfolding covered_def using recreate_creates [OF assms(1)] assms(2) by (metis subsetD)

lemma covered_same: "key ` set d = key ` set a \<Longrightarrow> covered key d a create acts"
  unfolding covered_def by blast

section \<open>A concrete load balancer\<close>

definition sample_orders :: site_orders where
  "sample_orders = (\<lambda>_. (id, id))"

definition sample_listener :: LoadBalancerListener where
  "sample_listener = zero_Listener\<lparr>lis_UUID := ''l1'', lis_HREF := ''https://api/listeners/l1'', lis_Name := ''tcp/80'',
     lis_Protocol := ''tcp'', lis_ProtocolPort := 80\<rparr>"

definition sample_monitor :: "nat \<Rightarrow> LoadBalancerHealthMonitor" where
  "sample_monitor p = zero_Monitor\<lparr>mon_UUID := ''m1'', mon_HREF := ''https://api/monitors/m1'', mon_Type := ''http'',
     mon_HTTP := Some (zero_MonitorHTTP\<lparr>http_Version := ''1.1'', http_Host := Some (p, ''www.example.org'')\<rparr>)\<rparr>"

text \<open>One pool with a listener and a monitor; the string of the host is stored at address \<open>p\<close>.\<close>

definition sample_state :: "nat \<Rightarrow> lbState" where
  "sample_state p = (newLbState sample_lb)\<lparr>st_pools := [(0, sample_pool)],
     st_listeners := (\<lambda>_. [])(Some 0 := [sample_listener]), st_monitors := (\<lambda>_. [])(Some 0 := [sample_monitor p])\<rparr>"

definition sample_member :: LoadBalancerPoolMember where
  "sample_member = \<lparr>mem_HREF = ''https://api/members/1'', mem_Name = ''10.0.0.1:30080'', mem_Enabled = True,
     mem_Address = ''10.0.0.1'', mem_Subnet = \<lparr>subnet_UUID = ''sn'', subnet_rest = []\<rparr>,
     mem_ProtocolPort = 30080, mem_MonitorPort = 30080\<rparr>"

lemma sample_orders_valid: "valid_site_orders sample_orders"
  by (simp add: valid_site_orders_def valid_orders_def range_order_def sample_orders_def)

lemma sample_state_sel [simp]:
  "st_lb (sample_state p) = Some sample_lb" "st_pools (sample_state p) = [(0, sample_pool)]"
  "st_members (sample_state p) q = []" "st_floatingIPs (sample_state p) = []"
  "st_listeners (sample_state p) (Some 0) = [sample_listener]" "st_monitors (sample_state p) (Some 0) = [sample_monitor p]"
  by (simp_all add: sample_state_def)

lemma sample_fixed: "same_fixed sample_lb sample_lb"
  by (simp add: same_fixed_def sample_lb_def vip_matches_def)

lemma sample_counterpart: "map_of (poolsByName (sample_state p)) (pool_Name sample_pool) = Some (0, sample_pool)"
  by (simp add: poolsByName_def index_by_def)

lemma sample_monitor_key: "monitorKey x (sample_monitor p) = monitorKey x (sample_monitor q)"
  by (simp add: sample_monitor_def monitorKey_def)

lemma sample_structure: "same_structure x (sample_state p) (sample_state q)"
  by (simp add: same_structure_def sample_counterpart keys_agree_def sample_monitor_key [of x p q])

lemma sample_match: "Match (st_monitors (sample_state p) (Some 0)) (st_monitors (sample_state q) (Some 0)) (monitorKey x) =
    [(sample_monitor p, sample_monitor q)]"
  by (simp add: Match_def index_by_def List.map_filter_def sample_monitor_key [of x p q])

lemma sample_settings: "same_settings x (sample_state p) (sample_state p)"
proof -
  have "Match [sample_listener] [sample_listener] (listenerKey x) = [(sample_listener, sample_listener)]"
    by (simp add: Match_def index_by_def List.map_filter_def)
  then show ?thesis
    using sample_match [of p p x] sample_counterpart [of p]
    by (auto simp: same_settings_def same_listener_def same_monitor_def ptr_eq_def split: option.split)
qed

text \<open>A load balancer as desired.\<close>

lemma sample_idle:
  "nextLbActions sample_ext sample_orders (Some (sample_state p)) (Some (sample_state p)) = Ok [AwaitLbAction sample_lb]"
proof -
  have "Diff (sample_orders PoolsSite) (st_pools (sample_state p)) (st_pools (sample_state p)) (poolKey \<circ> snd) = ([], [])"
    unfolding go_diff.idle_iff [OF valid_site_ordersD [OF sample_orders_valid]] by simp
  moreover have "recreate_pools sample_ext sample_orders (sample_state p) (sample_state p) 0 (st_pools (sample_state p)) = Ok []"
    unfolding recreate_pools_Nil_iff [OF sample_orders_valid] using sample_structure by (simp add: same_structure_def)
  moreover have "concat (map (update_pool sample_ext (sample_state p) (sample_state p)) (st_pools (sample_state p))) = []"
    unfolding updates_Nil_iff [OF sample_structure] by (rule sample_settings)
  moreover have "assign_floating sample_orders sample_lb (sample_state p) (sample_state p) = []"
    unfolding assign_floating_Nil_iff [OF sample_orders_valid] by simp
  ultimately have "change_actions sample_ext sample_orders sample_lb sample_lb (sample_state p) (sample_state p) = Ok [AwaitLbAction sample_lb]"
    by (simp add: change_actions_def)
  then show ?thesis using nextLbActions_fixed(1) [OF sample_state_sel(1) sample_state_sel(1) sample_fixed] by simp
qed

text \<open>A load balancer with one pool of which none is desired.\<close>

lemma sample_surplus:
  "nextLbActions sample_ext sample_orders (Some (newLbState sample_lb)) (Some (sample_state 0)) =
     Ok [AwaitLbAction sample_lb, DeleteResourceAction ''https://api/pools/p1'', SleepAction (500 * Millisecond), RefetchAction]"
proof -
  have "Diff (id, id) [] [(0 :: nat, sample_pool)] (poolKey \<circ> snd) = ([(0, sample_pool)], [])"
    by (simp add: Diff_def missing_from_def go_range_def index_by_def List.map_filter_def)
  then have "change_actions sample_ext sample_orders sample_lb sample_lb (newLbState sample_lb) (sample_state 0) =
     Ok [AwaitLbAction sample_lb, DeleteResourceAction ''https://api/pools/p1'', SleepAction (500 * Millisecond), RefetchAction]"
    by (simp add: change_actions_def sample_orders_def delete_pool_def deleteResource_def)
       (simp add: sample_pool_def)
  then show ?thesis using nextLbActions_fixed(1) [OF _ _ sample_fixed] by simp
qed

text \<open>A load balancer without pools of which one is desired.\<close>

lemma sample_missing:
  "nextLbActions sample_ext sample_orders (Some (sample_state 0)) (Some (newLbState sample_lb)) =
     Ok [AwaitLbAction sample_lb, CreatePoolAction ''4a04'' sample_pool, RefetchAction]"
proof -
  have "Diff (id, id) [(0 :: nat, sample_pool)] [] (poolKey \<circ> snd) = ([], [(0, sample_pool)])"
    by (simp add: Diff_def missing_from_def go_range_def index_by_def List.map_filter_def)
  then have "change_actions sample_ext sample_orders sample_lb sample_lb (sample_state 0) (newLbState sample_lb) =
     Ok [AwaitLbAction sample_lb, CreatePoolAction ''4a04'' sample_pool, RefetchAction]"
    by (simp add: change_actions_def sample_orders_def) (simp add: sample_lb_def)
  then show ?thesis using nextLbActions_fixed(1) [OF _ _ sample_fixed] by simp
qed

section \<open>Properties\<close>

text \<open>
  C9. The plan asks for another look at the state exactly when the structure has to change: it ends
  with a refetch if and only if the keys of the pools, members, listeners or monitors differ. So the
  loop around the plan can only end when desired and actual state have the same structure.
\<close>

theorem nextLbActions_refetch_iff:
  assumes "valid_site_orders ro" "st_lb desired = Some dlb" "st_lb actual = Some alb"
    and "nextLbActions x ro (Some desired) (Some actual) = Ok acts"
  shows "RefetchAction \<in> set acts \<longleftrightarrow> \<not> same_structure x desired actual"
  using assms(1) nextLbActions_change [OF assms(2-4)]
  by (rule change_actions_cases) (auto dest!: update_in_place)

theorem nextLbActions_refetch_iff_witness: "\<not> same_structure sample_ext (sample_state 0) (newLbState sample_lb)"
  using nextLbActions_refetch_iff [OF sample_orders_valid _ _ sample_missing] by simp



text \<open>
  C10. Deletions are safe. As long as a load balancer is desired it is never deleted, and a plan only
  deletes resources of the actual state that are not desired: a pool whose key is not desired, with
  its members, or a member, listener or monitor whose key is not among those desired for its pool.
\<close>

theorem nextLbActions_deletes:
  assumes "valid_site_orders ro" "st_lb desired = Some dlb" "st_lb actual = Some alb"
    and "nextLbActions x ro (Some desired) (Some actual) = Ok acts" "DeleteResourceAction url \<in> set acts"
  shows "(\<exists>a \<in> set (st_pools actual). poolKey (snd a) \<notin> (poolKey \<circ> snd) ` set (st_pools desired) \<and>
           (url = pool_HREF (snd a) \<or> url \<in> mem_HREF ` set (st_members actual (Some (fst a))))) \<or>
         (\<exists>d \<in> set (st_pools desired). \<exists>a \<in> set (st_pools actual). pool_Name (snd a) = pool_Name (snd d) \<and>
           undesired_item x desired actual d a url)"
  (is "?pool \<or> ?item")
  using assms(1) nextLbActions_change [OF assms(2-4)]
proof (cases rule: change_actions_cases)
  case (pools del cre)
  note valid = valid_site_ordersD [OF assms(1)]
  from pools obtain a where a: "a \<in> set del" "DeleteResourceAction url \<in> set (delete_pool actual a)"
    using assms(5) by (auto split: if_splits)
  have "(poolKey \<circ> snd) a \<in> (poolKey \<circ> snd) ` set del" using a(1) by (rule imageI)
  then have "poolKey (snd a) \<notin> (poolKey \<circ> snd) ` set (st_pools desired)"
    unfolding go_diff.delete_keys [OF valid pools(1)] by simp
  moreover have "a \<in> set (st_pools actual)" using a(1) go_diff.delete_subset [OF valid pools(1)] by blast
  moreover have "url = pool_HREF (snd a) \<or> url \<in> mem_HREF ` set (st_members actual (Some (fst a)))"
    using a(2) by (auto simp: delete_pool_def)
  ultimately have ?pool by blast
  then show ?thesis ..
next
  case (contents changes)
  then have "DeleteResourceAction url \<in> set changes" using assms(5) by (auto split: if_splits)
  then obtain d j here where d: "d \<in> set (st_pools desired)" "recreate_pool x ro desired actual j d = Ok here"
    "DeleteResourceAction url \<in> set here" using recreate_pools_mem [OF contents(1)] by blast
  from assms(1) d(2,3) obtain a where "counterpart actual d = Some a" "undesired_item x desired actual d a url"
    by (rule recreate_pool_deletes)
  with d(1) counterpart_mem show ?thesis by blast
next
  case settled
  then show ?thesis using assms(5) by (auto split: if_splits dest!: update_in_place)
qed

theorem nextLbActions_deletes_witness:
  "\<exists>a \<in> set (st_pools (sample_state 0)). ''https://api/pools/p1'' = pool_HREF (snd a)"
  using nextLbActions_deletes [OF sample_orders_valid _ _ sample_surplus, where url = "''https://api/pools/p1''"] by simp

text \<open>
  C11. Nothing that is missing is forgotten: for a desired pool whose key the load balancer does not
  have, a pool with that key is created on it; and once the pools agree, for every desired member,
  listener and monitor whose key is missing, one with that key is created in the pool of that name.
\<close>

theorem nextLbActions_creates:
  assumes "valid_site_orders ro" "st_lb desired = Some dlb" "st_lb actual = Some alb"
    and "nextLbActions x ro (Some desired) (Some actual) = Ok acts"
  shows "covered (poolKey \<circ> snd) (st_pools desired) (st_pools actual) (CreatePoolAction (lb_UUID alb) \<circ> snd) acts \<and>
    ((poolKey \<circ> snd) ` set (st_pools desired) = (poolKey \<circ> snd) ` set (st_pools actual) \<longrightarrow>
      (\<forall>d \<in> set (st_pools desired). \<exists>a \<in> set (st_pools actual). pool_Name (snd a) = pool_Name (snd d) \<and>
        covered (poolMemberKey x) (st_members desired (Some (fst d))) (st_members actual (Some (fst a)))
          (CreatePoolMemberAction (pool_UUID (snd a))) acts \<and>
        covered (listenerKey x) (st_listeners desired (Some (fst d))) (st_listeners actual (Some (fst a)))
          (CreateListenerAction (pool_UUID (snd a))) acts \<and>
        covered (monitorKey x) (st_monitors desired (Some (fst d))) (st_monitors actual (Some (fst a)))
          (CreateHealthMonitorAction (pool_UUID (snd a))) acts))"
  using assms(1) nextLbActions_change [OF assms(2-4)]
proof (cases rule: change_actions_cases)
  case (pools del cre)
  note valid = valid_site_ordersD [OF assms(1)]
  have "covered (poolKey \<circ> snd) (st_pools desired) (st_pools actual) (CreatePoolAction (lb_UUID alb) \<circ> snd) acts"
    unfolding covered_def disj_imp
  proof (intro ballI impI)
    fix d assume d: "d \<in> set (st_pools desired)" "(poolKey \<circ> snd) d \<notin> (poolKey \<circ> snd) ` set (st_pools actual)"
    then have "(poolKey \<circ> snd) d \<in> (poolKey \<circ> snd) ` set cre"
      unfolding go_diff.create_keys [OF valid pools(1)] by blast
    then obtain e where "e \<in> set cre" "(poolKey \<circ> snd) e = (poolKey \<circ> snd) d" by (metis imageE)
    moreover from this have "(CreatePoolAction (lb_UUID alb) \<circ> snd) e \<in> set acts" by (simp add: pools(3))
    ultimately show "\<exists>n :: pool_ref. (poolKey \<circ> snd) n = (poolKey \<circ> snd) d \<and> (CreatePoolAction (lb_UUID alb) \<circ> snd) n \<in> set acts"
      by (intro exI [of _ e] conjI)
  qed
  moreover have "(poolKey \<circ> snd) ` set (st_pools desired) \<noteq> (poolKey \<circ> snd) ` set (st_pools actual)"
    unfolding go_diff.idle_iff [OF valid, of PoolsSite, symmetric] using pools(1,2) by simp
  ultimately show ?thesis by blast
next
  case (contents changes)
  have "\<exists>a \<in> set (st_pools actual). pool_Name (snd a) = pool_Name (snd d) \<and>
      covered (poolMemberKey x) (st_members desired (Some (fst d))) (st_members actual (Some (fst a)))
        (CreatePoolMemberAction (pool_UUID (snd a))) acts \<and>
      covered (listenerKey x) (st_listeners desired (Some (fst d))) (st_listeners actual (Some (fst a)))
        (CreateListenerAction (pool_UUID (snd a))) acts \<and>
      covered (monitorKey x) (st_monitors desired (Some (fst d))) (st_monitors actual (Some (fst a)))
        (CreateHealthMonitorAction (pool_UUID (snd a))) acts"
    if d: "d \<in> set (st_pools desired)" for d
  proof -
    obtain j here where here: "recreate_pool x ro desired actual j d = Ok here" "set here \<subseteq> set acts"
      using recreate_pools_incl [OF contents(1) d] by (auto simp: contents(3))
    then obtain a where a: "counterpart actual d = Some a" by (auto simp: recreate_pool_def split: option.splits)
    with here counterpart_mem [OF a] show ?thesis
      by (intro bexI [of _ a] conjI)
         (auto simp: recreate_pool_def intro!: recreate_covered [OF valid_site_ordersD [OF assms(1)]])
  qed
  with covered_same [OF contents(4)] show ?thesis by blast
next
  case settled
  then have "covered (poolKey \<circ> snd) (st_pools desired) (st_pools actual) (CreatePoolAction (lb_UUID alb) \<circ> snd) acts"
    by (intro covered_same) (simp add: same_structure_def)
  with settled(2) counterpart_mem show ?thesis
    unfolding same_structure_def keys_agree_def by (meson covered_same)
qed

theorem nextLbActions_creates_witness:
  "covered (poolKey \<circ> snd) (st_pools (sample_state 0)) (st_pools (newLbState sample_lb)) (CreatePoolAction ''4a04'' \<circ> snd)
     [AwaitLbAction sample_lb, CreatePoolAction ''4a04'' sample_pool, RefetchAction]"
proof -
  have "lb_UUID sample_lb = ''4a04''" by (simp add: sample_lb_def)
  with nextLbActions_creates [OF sample_orders_valid _ _ sample_missing, of sample_lb sample_lb] show ?thesis
    by (simp only: sample_state_sel newLbState_sel simp_thms)
qed

lemma plan_iff_same_fixed:
  assumes "valid_site_orders ro" "st_lb desired = Some dlb" "st_lb actual = Some alb"
    and "list_all (api_pool \<circ> snd) (st_pools desired)" "list_all (api_pool \<circ> snd) (st_pools actual)"
  shows "(\<exists>acts. nextLbActions x ro (Some desired) (Some actual) = Ok acts) \<longleftrightarrow> same_fixed dlb alb"
proof (cases "same_fixed dlb alb")
  case False
  then show ?thesis using nextLbActions_fixed(2) [OF assms(2,3), of x ro] by (metis res.distinct(1))
next
  case True
  obtain del cre where diff: "Diff (ro PoolsSite) (st_pools desired) (st_pools actual) (poolKey \<circ> snd) = (del, cre)"
    by fastforce
  have "\<exists>acts. change_actions x ro dlb alb desired actual = Ok acts"
  proof (cases "del \<noteq> [] \<or> cre \<noteq> []")
    case False
    then have keys: "(poolKey \<circ> snd) ` set (st_pools desired) = (poolKey \<circ> snd) ` set (st_pools actual)"
      using go_diff.idle_iff [OF valid_site_ordersD [OF assms(1)]] diff by metis
    have "counterpart actual d \<noteq> None" if d: "d \<in> set (st_pools desired)" for d
    proof -
      have "(poolKey \<circ> snd) d \<in> (poolKey \<circ> snd) ` set (st_pools actual)" using d keys by blast
      then obtain a where "a \<in> set (st_pools actual)" "poolKey (snd d) = poolKey (snd a)" by fastforce
      with d assms(4,5) have "pool_Name (snd d) = pool_Name (snd a)"
        using poolKey_inject by (metis comp_apply list_all_iff)
      with \<open>a \<in> set (st_pools actual)\<close> show ?thesis unfolding counterpart_None by fastforce
    qed
    then obtain changes where "recreate_pools x ro desired actual 0 (st_pools desired) = Ok changes"
      using recreate_pools_total by blast
    with False diff show ?thesis by (simp add: change_actions_def Let_def)
  qed (auto simp: change_actions_def diff Let_def)
  then show ?thesis using True nextLbActions_fixed(1) [OF assms(2,3)] by simp
qed

text \<open>
  C13. Changes are refused for the flavor, the zone and named virtual IP addresses, and for nothing
  else: with the pool algorithms and protocols of the API, there is a plan if and only if the flavor
  and the zone are those of the load balancer and the service names no virtual IP addresses, or names
  as many as the load balancer has, each with its subnet and, where given, its address. So taking
  all addresses off a service is not refused, whatever the load balancer has. The error for a pool
  without counterpart, which the code calls a programming error, does not occur.
\<close>

theorem nextLbActions_accepts:
  assumes "valid_site_orders ro" "st_lb desired = Some dlb" "st_lb actual = Some alb"
    and "list_all (api_pool \<circ> snd) (st_pools desired)" "list_all (api_pool \<circ> snd) (st_pools actual)"
  shows "(\<exists>acts. nextLbActions x ro (Some desired) (Some actual) = Ok acts) \<longleftrightarrow>
    lb_FlavorSlug dlb = lb_FlavorSlug alb \<and> lb_ZoneSlug dlb = lb_ZoneSlug alb \<and>
    (lb_VIPAddresses dlb = [] \<or> list_all2 (\<lambda>d a. (vip_Address d = [] \<or> vip_Address d = vip_Address a) \<and>
       subnet_UUID (vip_Subnet d) = subnet_UUID (vip_Subnet a)) (lb_VIPAddresses dlb) (lb_VIPAddresses alb))"
  (is "?plan \<longleftrightarrow> ?fixed")
proof -
  have "vip_matches = (\<lambda>d a. (vip_Address d = [] \<or> vip_Address d = vip_Address a) \<and> subnet_UUID (vip_Subnet d) = subnet_UUID (vip_Subnet a))"
    by (auto simp: fun_eq_iff vip_matches_def)
  then have "?fixed \<longleftrightarrow> same_fixed dlb alb" by (auto simp: same_fixed_def)
  then show ?thesis using plan_iff_same_fixed [OF assms] by blast
qed

theorem nextLbActions_accepts_witness:
  "(\<nexists>acts. nextLbActions sample_ext sample_orders (Some (newLbState (sample_lb\<lparr>lb_ZoneSlug := ''rma1''\<rparr>))) (Some (sample_state 0)) = Ok acts) \<and>
   (\<exists>acts. nextLbActions sample_ext sample_orders (Some (newLbState (sample_lb\<lparr>lb_VIPAddresses := []\<rparr>))) (Some (sample_state 0)) = Ok acts)"
proof -
  have "api_pool sample_pool" by (simp add: api_pool_def sample_pool_def pool_algorithms_def pool_protocols_def)
  then show ?thesis
    using nextLbActions_accepts [OF sample_orders_valid newLbState_sel(1) sample_state_sel(1), of "sample_lb\<lparr>lb_ZoneSlug := ''rma1''\<rparr>" 0 sample_ext]
      nextLbActions_accepts [OF sample_orders_valid newLbState_sel(1) sample_state_sel(1), of "sample_lb\<lparr>lb_VIPAddresses := []\<rparr>" 0 sample_ext]
    by (simp add: sample_lb_def)
qed

text \<open>
  C26. A monitor whose HTTP options name a host is never as desired: the code compares the pointers
  to the host names, and these differ for two strings that were decoded separately. When the
  structure agrees, every plan sets the host again, even to the value it has.
\<close>

theorem nextLbActions_host_never_settles:
  assumes "valid_site_orders ro" "st_lb desired = Some dlb" "st_lb actual = Some alb"
    and "nextLbActions x ro (Some desired) (Some actual) = Ok acts" "same_structure x desired actual"
    and "d \<in> set (st_pools desired)" "counterpart actual d = Some a"
    and "(dm, am) \<in> set (Match (st_monitors desired (Some (fst d))) (st_monitors actual (Some (fst a))) (monitorKey x))"
    and "mon_HTTP dm = Some dh" "mon_HTTP am = Some ah"
    and "http_Host dh = Some (p, host)" "http_Host ah = Some (q, host)" "p \<noteq> q"
  shows "UpdateMonitorHTTPHostAction (mon_UUID am) (Some (p, host)) \<in> set acts"
proof -
  have "UpdateMonitorHTTPHostAction (mon_UUID am) (Some (p, host)) \<in> set (update_monitor (dm, am))"
    using assms(9-13) by (simp add: update_monitor_def update_monitor_http_def ptr_eq_def)
  then have "UpdateMonitorHTTPHostAction (mon_UUID am) (Some (p, host)) \<in> set (update_pool x desired actual d)"
    using assms(7,8) by (auto simp: update_pool_def Let_def intro!: bexI [of _ "(dm, am)"])
  with assms(1) nextLbActions_change [OF assms(2-4)] show ?thesis
    by (cases rule: change_actions_cases) (use assms(5,6) in auto)
qed

theorem nextLbActions_host_never_settles_witness:
  "\<exists>acts. nextLbActions sample_ext sample_orders (Some (sample_state 3)) (Some (sample_state 2)) = Ok acts \<and>
     UpdateMonitorHTTPHostAction ''m1'' (Some (3, ''www.example.org'')) \<in> set acts"
proof -
  have "recreate_pools sample_ext sample_orders (sample_state 3) (sample_state 2) 0 (st_pools (sample_state 3)) = Ok []"
    unfolding recreate_pools_Nil_iff [OF sample_orders_valid] using sample_structure by (simp add: same_structure_def)
  moreover have "Diff (id, id) [(0 :: nat, sample_pool)] [(0, sample_pool)] (poolKey \<circ> snd) = ([], [])"
    by (simp add: Diff_def missing_from_def go_range_def index_by_def List.map_filter_def)
  ultimately obtain acts where acts: "nextLbActions sample_ext sample_orders (Some (sample_state 3)) (Some (sample_state 2)) = Ok acts"
    using nextLbActions_fixed(1) [OF sample_state_sel(1) sample_state_sel(1) sample_fixed]
    by (simp add: change_actions_def sample_orders_def)
  have pair: "(sample_monitor 3, sample_monitor 2) \<in> set (Match (st_monitors (sample_state 3) (Some (fst (0 :: nat, sample_pool))))
      (st_monitors (sample_state 2) (Some (fst (0 :: nat, sample_pool)))) (monitorKey sample_ext))"
    using sample_match [of 3 2] by simp
  let ?h = "\<lambda>p. zero_MonitorHTTP\<lparr>http_Version := ''1.1'', http_Host := Some (p, ''www.example.org'')\<rparr>"
  have mon: "mon_UUID (sample_monitor p) = ''m1''" "mon_HTTP (sample_monitor p) = Some (?h p)" for p
    by (simp_all add: sample_monitor_def)
  have pool: "(0, sample_pool) \<in> set (st_pools (sample_state 3))" "counterpart (sample_state 2) (0 :: nat, sample_pool) = Some (0, sample_pool)"
    by (simp_all add: sample_counterpart)
  have "UpdateMonitorHTTPHostAction (mon_UUID (sample_monitor 2)) (Some (3, ''www.example.org'')) \<in> set acts"
    by (rule nextLbActions_host_never_settles [OF sample_orders_valid sample_state_sel(1) sample_state_sel(1) acts
      sample_structure pool pair mon(2) mon(2)]) simp+
  with acts show ?thesis by (auto simp: mon(1))
qed

text \<open>
  A pool member is recreated when any of its attributes changes: as long as names contain no
  percent sign and addresses no comma, as with IP addresses, two members have the same key only if
  name, state, both ports, address and the printed subnet are the same.
\<close>

lemma poolMemberKey_inject:
  assumes "CHR ''%'' \<notin> set (mem_Name m)" "CHR ''%'' \<notin> set (mem_Name n)"
    and "CHR '','' \<notin> set (mem_Address m)" "CHR '','' \<notin> set (mem_Address n)"
  shows "poolMemberKey x m = poolMemberKey x n \<longleftrightarrow>
    mem_Name m = mem_Name n \<and> mem_Enabled m = mem_Enabled n \<and> mem_MonitorPort m = mem_MonitorPort n \<and>
    mem_ProtocolPort m = mem_ProtocolPort n \<and> mem_Address m = mem_Address n \<and>
    x_show_subnet x (mem_Subnet m) = x_show_subnet x (mem_Subnet n)"
proof -
  let ?b = "\<lambda>m. fmt_v (GBool (mem_Enabled m))"
  have "poolMemberKey x m = poolMemberKey x n \<longleftrightarrow> mem_Name m = mem_Name n \<and>
    ?b m @ '','' @ '' int='' @ show_int (mem_MonitorPort m) @ '','' @ '' int='' @ show_int (mem_ProtocolPort m) @ '','' @
      '' string='' @ mem_Address m @ '','' @ '' cloudscale.SubnetStub='' @ x_show_subnet x (mem_Subnet m) @ '')'' =
    ?b n @ '','' @ '' int='' @ show_int (mem_MonitorPort n) @ '','' @ '' int='' @ show_int (mem_ProtocolPort n) @ '','' @
      '' string='' @ mem_Address n @ '','' @ '' cloudscale.SubnetStub='' @ x_show_subnet x (mem_Subnet n) @ '')''"
    unfolding poolMemberKey_def
    by (subst Sprintf_inject [OF assms(1,2)]) (simp_all add: fmt_extra_def)
  moreover have "CHR '','' \<notin> set (?b m)" "CHR '','' \<notin> set (?b n)" by simp_all
  moreover have "?b m = ?b n \<longleftrightarrow> mem_Enabled m = mem_Enabled n" by simp
  ultimately show ?thesis
    using assms(3,4) by (auto dest!: cut_unique simp del: fmt_v.simps)
qed

end
