(* ===== verification/Reconcile_Loop.thy ===== *)
theory Reconcile_Loop
  imports Reconcile_Next
begin

text \<open>
  Running a plan and repeating it until nothing is left to do (\<open>src/pkg/cloudscale_ccm/reconcile.go\<close>:
  \<open>runActions\<close>, \<open>reconcileLbState\<close>).

  \<open>reconcileLbState\<close> is a loop without a bound: it ends when a round does not ask for another one, on
  an error, or when the context is done. The model takes fuel, one unit for each round, and is \<open>None\<close>
  when the fuel runs out; the properties say when there is enough.
\<close>

section \<open>Operations\<close>

fun runActions :: "ext \<Rightarrow> 'w client \<Rightarrow> action list \<Rightarrow> ('w, bool) io" where
  "runActions x c [] w = (Ok False, w)"
| "runActions x c (action # next) w = (case ctx_Err c w of
       Some e \<Rightarrow> (Err (Wrapped ''aborted action run, cancelled: '' e), w)
     | None \<Rightarrow> (case Run c action w of ((control, err), w') \<Rightarrow>
         (case err of
            Some e \<Rightarrow> (Err (Wrapped (''error during '' @ Label x action @ '': '') e), w')
          | None \<Rightarrow>
              if control = Refresh then (Ok True, w')
              else if control = Proceed then runActions x c next w'
              else if control = Errored then (Err (ErrorMsg ''action errored but provided no error''), w')
              else (Err (ErrorMsg (''unknown control code: '' @ show_int control)), w'))))"

text \<open>The pause between two rounds: true when the context ended it.\<close>

definition wait_for_next :: "'w client \<Rightarrow> 'w \<Rightarrow> bool \<times> 'w" where
  "wait_for_next c w = (case rand_Intn c 2500 w of (n, w') \<Rightarrow> wait_or_done c ((5000 + n) * Millisecond) w')"

text \<open>One round of the loop: a result, or \<open>None\<close> to go on with another round.\<close>

definition reconcile_round ::
  "ext \<Rightarrow> 'w client \<Rightarrow> ('w, lbState option) io \<Rightarrow> ('w, lbState option) io \<Rightarrow> 'w \<Rightarrow> unit res option \<times> 'w" where
  "reconcile_round x c desiredState actualState w =
     (case bind_io desiredState (\<lambda>desired.
           bind_io actualState (\<lambda>actual.
           bind_io (\<lambda>v. (nextLbActions x (range_orders c v) desired actual, v)) (\<lambda>next.
             runActions x c next))) w of
        (Err e, w') \<Rightarrow> (Some (Err e), w')
      | (Panic m, w') \<Rightarrow> (Some (Panic m), w')
      | (Ok updateState, w') \<Rightarrow>
          if \<not> updateState then (Some (Ok ()), w')
          else (case wait_for_next c w' of (done, w'') \<Rightarrow>
            if done then (Some (Err (ErrorMsg ''action has been aborted'')), w'') else (None, w'')))"

fun reconcileLbState ::
  "ext \<Rightarrow> 'w client \<Rightarrow> ('w, lbState option) io \<Rightarrow> ('w, lbState option) io \<Rightarrow> nat \<Rightarrow> 'w \<Rightarrow> (unit res \<times> 'w) option" where
  "reconcileLbState x c desiredState actualState 0 w = None"
| "reconcileLbState x c desiredState actualState (Suc fuel) w =
     (case reconcile_round x c desiredState actualState w of
        (Some r, w') \<Rightarrow> Some (r, w')
      | (None, w') \<Rightarrow> reconcileLbState x c desiredState actualState fuel w')"

section \<open>Laws\<close>

text \<open>The two branches for actions that break the contract of the interface are never taken.\<close>

lemma runActions_Cons:
  assumes "ctx_Err c w = None"
  obtains (failed) e w' where "Run c a w = ((Errored, Some e), w')"
      "runActions x c (a # as) w = (Err (Wrapped (''error during '' @ Label x a @ '': '') e), w')"
  | (proceed) w' where "Run c a w = ((Proceed, None), w')" "\<not> refreshing a"
      "runActions x c (a # as) w = runActions x c as w'"
  | (refresh) w' where "Run c a w = ((Refresh, None), w')" "refreshing a" "runActions x c (a # as) w = (Ok True, w')"
proof (rule ccm_actions.outcomes [of c a w])
  fix e w' assume "Run c a w = ((Errored, Some e), w')"
  then show thesis using assms by (intro failed) simp_all
next
  fix w' assume r: "Run c a w = ((Proceed, None), w')"
  moreover have "\<not> refreshing a" using Run_codes [OF r] by (auto simp: control_defs split: if_splits)
  ultimately show thesis using assms by (intro proceed) (simp_all add: control_defs)
next
  fix w' assume r: "Run c a w = ((Refresh, None), w')"
  moreover have "refreshing a" using Run_codes [OF r] by (auto simp: control_defs split: if_splits)
  ultimately show thesis using assms by (intro refresh) simp_all
qed

lemma runActions_no_panic: "fst (runActions x c as w) \<noteq> Panic m"
proof (induction as arbitrary: w)
  case (Cons a as)
  show ?case
  proof (cases "ctx_Err c w")
    case None
    then show ?thesis by (rule runActions_Cons [of c w a x as]) (use Cons.IH in simp_all)
  qed simp
qed simp

lemma runActions_Ok:
  assumes "runActions x c as w = (Ok b, w')"
  shows "b \<longleftrightarrow> list_ex refreshing as"
  using assms
proof (induction as arbitrary: w)
  case (Cons a as)
  from Cons.prems have "ctx_Err c w = None" by (simp split: option.splits)
  then show ?case
    by (rule runActions_Cons [of c w a x as]) (use Cons in \<open>auto simp del: runActions.simps\<close>)
qed simp

text \<open>One round, seen from its result.\<close>

lemma reconcile_round_done:
  assumes "reconcile_round x c ds as v = (Some (Ok u), w')"
  obtains d v1 a v2 acts where "ds v = (Ok d, v1)" "as v1 = (Ok a, v2)"
    "nextLbActions x (range_orders c v2) d a = Ok acts" "runActions x c acts v2 = (Ok False, w')"
proof -
  from assms have "bind_io ds (\<lambda>desired. bind_io as (\<lambda>actual.
      bind_io (\<lambda>v. (nextLbActions x (range_orders c v) desired actual, v)) (\<lambda>next. runActions x c next))) v = (Ok False, w')"
    by (auto simp: reconcile_round_def split: prod.splits res.splits if_splits)
  then show thesis using that by (auto simp: bind_io_eq_Ok)
qed

lemma reconcile_round_again:
  assumes "reconcile_round x c ds as v = (None, w')"
  obtains d v1 a v2 acts v3 n v4 where "ds v = (Ok d, v1)" "as v1 = (Ok a, v2)"
    "nextLbActions x (range_orders c v2) d a = Ok acts" "runActions x c acts v2 = (Ok True, v3)"
    "rand_Intn c 2500 v3 = (n, v4)" "wait_or_done c ((5000 + n) * Millisecond) v4 = (False, w')"
proof -
  from assms obtain v3 where "bind_io ds (\<lambda>desired. bind_io as (\<lambda>actual.
      bind_io (\<lambda>v. (nextLbActions x (range_orders c v) desired actual, v)) (\<lambda>next. runActions x c next))) v = (Ok True, v3)"
    "wait_for_next c v3 = (False, w')"
    by (auto simp: reconcile_round_def split: prod.splits res.splits if_splits)
  then show thesis using that by (auto simp: bind_io_eq_Ok wait_for_next_def split: prod.splits)
qed

lemma reconcile_Some:
  assumes "reconcileLbState x c ds as fuel w = Some (r, w')"
  obtains v where "reconcile_round x c ds as v = (Some r, w')"
  using assms that
  by (induction x c ds as fuel w rule: reconcileLbState.induct) (auto split: prod.splits option.splits)

text \<open>The state in which a last round leaves things.\<close>

lemma reconcile_round_settled:
  assumes "\<And>v. valid_site_orders (range_orders c v)"
    and "reconcile_round x c desiredState actualState v = (Some (Ok ()), w')"
  shows "\<exists>d v1 a v2 acts. desiredState v = (Ok (Some d), v1) \<and> actualState v1 = (Ok (Some a), v2) \<and>
    nextLbActions x (range_orders c v2) (Some d) (Some a) = Ok acts \<and> runActions x c acts v2 = (Ok False, w') \<and>
    (case (st_lb d, st_lb a) of
       (None, None) \<Rightarrow> acts = []
     | (None, Some alb) \<Rightarrow> acts = [AwaitLbAction alb, DeleteResourceAction (lb_HREF alb)] \<and> lb_Status alb \<noteq> ''changing''
     | (Some dlb, None) \<Rightarrow> False
     | (Some dlb, Some alb) \<Rightarrow> lb_Status alb \<noteq> ''changing'' \<and> same_fixed dlb alb \<and> same_structure x d a)"
proof -
  from assms(2) obtain d' v1 a' v2 acts where states: "desiredState v = (Ok d', v1)" "actualState v1 = (Ok a', v2)" and
    plan: "nextLbActions x (range_orders c v2) d' a' = Ok acts" and run: "runActions x c acts v2 = (Ok False, w')"
    by (rule reconcile_round_done)
  from plan obtain d a where da: "d' = Some d" "a' = Some a"
    by (cases d'; cases a') (auto simp: nextLbActions_def)
  have calm: "\<forall>act \<in> set acts. \<not> refreshing act"
    using runActions_Ok [OF run] by (simp add: list_ex_iff)
  have "case (st_lb d, st_lb a) of
       (None, None) \<Rightarrow> acts = []
     | (None, Some alb) \<Rightarrow> acts = [AwaitLbAction alb, DeleteResourceAction (lb_HREF alb)] \<and> lb_Status alb \<noteq> ''changing''
     | (Some dlb, None) \<Rightarrow> False
     | (Some dlb, Some alb) \<Rightarrow> lb_Status alb \<noteq> ''changing'' \<and> same_fixed dlb alb \<and> same_structure x d a"
  proof (cases "st_lb d"; cases "st_lb a")
    fix dlb alb assume lbs: "st_lb d = Some dlb" "st_lb a = Some alb"
    note change = nextLbActions_change [OF lbs plan [unfolded da]]
    have "same_fixed dlb alb"
      using nextLbActions_fixed(2) [OF lbs, of x "range_orders c v2"] plan da by (metis res.distinct(1))
    moreover have "lb_Status alb \<noteq> ''changing'' \<and> same_structure x d a"
      using assms(1) change by (rule change_actions_cases) (use calm in auto)
    ultimately show ?thesis by (simp add: lbs)
  qed (use plan da calm in \<open>auto simp: nextLbActions_def\<close>)
  with states plan run da show ?thesis by blast
qed

lemma reconcile_measure:
  fixes \<mu> :: "'w \<Rightarrow> nat"
  assumes "\<And>v v'. reconcile_round x c ds as v = (None, v') \<Longrightarrow> \<mu> v' < \<mu> v"
  shows "\<mu> w < fuel \<Longrightarrow> \<exists>r. reconcileLbState x c ds as fuel w = Some r"
proof (induction fuel arbitrary: w)
  case (Suc fuel)
  then show ?case
    using assms [of w] by (fastforce split: prod.splits option.splits)
qed simp

lemma runActions_time:
  fixes remaining :: "'w \<Rightarrow> nat"
  assumes "\<And>a v. remaining (snd (Run c a v)) \<le> remaining v"
  shows "remaining (snd (runActions x c as w)) \<le> remaining w"
proof (induction as arbitrary: w)
  case (Cons a as)
  show ?case
  proof (cases "ctx_Err c w")
    case None
    then show ?thesis
    proof (cases rule: runActions_Cons [of c w a x as])
      case (proceed w')
      with Cons.IH [of w'] assms [of a w] show ?thesis by (simp del: runActions.simps)
    qed (use assms [of a w] in \<open>simp_all del: runActions.simps\<close>)
  qed simp
qed simp

text \<open>Surroundings with a clock: the world is the time left, in nanoseconds.\<close>

definition clock_client :: "nat client" where
  "clock_client = idle_client\<lparr>wait_or_done := (\<lambda>d w. if nat d \<le> w then (False, w - nat d) else (True, 0))\<rparr>"

section \<open>Properties\<close>

text \<open>
  Running a plan is running its parts in order: the second part is run in the world the first
  one left, and only if the first one neither failed nor asked for a fresh look at the state.
\<close>

lemma runActions_append:
  "runActions x c (as @ bs) w = (case runActions x c as w of
     (Ok False, w') \<Rightarrow> runActions x c bs w' | r \<Rightarrow> r)"
proof (induction as arbitrary: w)
  case (Cons a as)
  show ?case
  proof (cases "ctx_Err c w")
    case None
    show ?thesis
    proof (cases rule: ccm_actions.outcomes [of c a w])
      case (2 w')
      then show ?thesis using Cons.IH [of w'] None by (simp add: control_defs)
    qed (simp_all add: None)
  qed simp
qed simp

text \<open>
  A run that succeeds asks for another round exactly when the plan contains a refetch or waits
  for a load balancer that is still changing; otherwise every action of the plan was run.
\<close>

lemma runActions_again_iff:
  assumes "runActions x c acts w = (Ok again, w')"
  shows "again \<longleftrightarrow> (\<exists>a \<in> set acts. a = RefetchAction \<or> (\<exists>lb. a = AwaitLbAction lb \<and> lb_Status lb = ''changing''))"
proof -
  have "refreshing a \<longleftrightarrow> a = RefetchAction \<or> (\<exists>lb. a = AwaitLbAction lb \<and> lb_Status lb = ''changing'')" for a
    by (cases a) auto
  with runActions_Ok [OF assms] show ?thesis by (simp add: list_ex_iff)
qed

text \<open>
  C7. When reconciliation reports success, the load balancer has settled: in the last round there
  was nothing desired and nothing there, or an undesired load balancer was deleted, or the load
  balancer was not changing, agreed in what cannot be changed and had exactly the desired pools,
  members, listeners and monitors by their keys, and all actions of the last plan, which only sets
  names, settings and floating IPs, were run.
\<close>

theorem reconcile_settles:
  assumes "\<And>v. valid_site_orders (range_orders c v)"
    and "reconcileLbState x c desiredState actualState fuel w = Some (Ok (), w')"
  shows "\<exists>v d v1 a v2 acts. desiredState v = (Ok (Some d), v1) \<and> actualState v1 = (Ok (Some a), v2) \<and>
    nextLbActions x (range_orders c v2) (Some d) (Some a) = Ok acts \<and> runActions x c acts v2 = (Ok False, w') \<and>
    (case (st_lb d, st_lb a) of
       (None, None) \<Rightarrow> acts = []
     | (None, Some alb) \<Rightarrow> acts = [AwaitLbAction alb, DeleteResourceAction (lb_HREF alb)] \<and> lb_Status alb \<noteq> ''changing''
     | (Some dlb, None) \<Rightarrow> False
     | (Some dlb, Some alb) \<Rightarrow> lb_Status alb \<noteq> ''changing'' \<and> same_fixed dlb alb \<and> same_structure x d a)"
proof -
  from assms(2) obtain v where "reconcile_round x c desiredState actualState v = (Some (Ok ()), w')"
    by (rule reconcile_Some)
  from reconcile_round_settled [OF assms(1) this] show ?thesis by (rule exI [of _ v])
qed

theorem reconcile_settles_witness:
  "\<exists>v d v1 a v2 acts. return_io (Some (sample_state 0)) v = (Ok (Some d), v1) \<and>
     return_io (Some (sample_state 0)) v1 = (Ok (Some a), v2) \<and> st_lb a = Some sample_lb \<and>
     runActions sample_ext idle_client acts v2 = (Ok False, ()) \<and> same_structure sample_ext d a"
proof -
  have plan: "nextLbActions sample_ext sample_orders (Some (sample_state 0)) (Some (sample_state 0)) = Ok [AwaitLbAction sample_lb]"
    by (rule sample_idle)
  have orders: "range_orders idle_client v = sample_orders" for v :: unit
    by (simp add: idle_client_def sample_orders_def)
  have "reconcile_round sample_ext idle_client (return_io (Some (sample_state 0))) (return_io (Some (sample_state 0))) () =
      (Some (Ok ()), ())"
    by (simp add: reconcile_round_def bind_io_apply orders plan)
       (simp add: idle_client_def sample_lb_def control_defs)
  then have r: "reconcileLbState sample_ext idle_client (return_io (Some (sample_state 0))) (return_io (Some (sample_state 0))) 1 ()
      = Some (Ok (), ())" by simp
  from reconcile_settles [OF _ r] show ?thesis
    by (auto simp: orders sample_orders_valid)
qed

text \<open>
  C12. Reconciliation ends under a deadline: if an uninterrupted pause uses up its duration of the
  time the context has left and nothing else gives time back, there are at most as many further
  rounds as the remaining time has units of five seconds, whatever the API answers.
\<close>

theorem reconcile_deadline:
  fixes remaining :: "'w \<Rightarrow> nat"
  assumes wait: "\<And>d v v'. wait_or_done c d v = (False, v') \<Longrightarrow> remaining v' + nat d \<le> remaining v"
    and rand: "\<And>n v. 0 < n \<Longrightarrow> 0 \<le> fst (rand_Intn c n v) \<and> remaining (snd (rand_Intn c n v)) \<le> remaining v"
    and run: "\<And>a v. remaining (snd (Run c a v)) \<le> remaining v"
    and states: "\<And>v. remaining (snd (desiredState v)) \<le> remaining v" "\<And>v. remaining (snd (actualState v)) \<le> remaining v"
  shows "\<exists>r. reconcileLbState x c desiredState actualState (Suc (remaining w div nat (5 * Second))) w = Some r"
proof -
  let ?\<mu> = "\<lambda>v. remaining v div nat (5 * Second)"
  have "?\<mu> v' < ?\<mu> v" if round: "reconcile_round x c desiredState actualState v = (None, v')" for v v'
  proof -
    from round obtain d v1 a v2 acts v3 n v4 where calls: "desiredState v = (Ok d, v1)" "actualState v1 = (Ok a, v2)"
      "runActions x c acts v2 = (Ok True, v3)" "rand_Intn c 2500 v3 = (n, v4)" and
      pause: "wait_or_done c ((5000 + n) * Millisecond) v4 = (False, v')" by (rule reconcile_round_again)
    have "remaining v4 \<le> remaining v3" "0 \<le> n" using rand [of 2500 v3] calls(4) by simp_all
    moreover have "remaining v3 \<le> remaining v2" using runActions_time [OF run] calls(3) by (metis snd_conv)
    moreover have "remaining v2 \<le> remaining v" using states calls(1,2) by (metis le_trans snd_conv)
    moreover have "nat (5 * Second) \<le> nat ((5000 + n) * Millisecond)" using \<open>0 \<le> n\<close> by simp
    ultimately have "remaining v' + nat (5 * Second) \<le> remaining v" using wait [OF pause] by linarith
    then show ?thesis by (simp add: div_less_mono le_div_geq)
  qed
  then show ?thesis by (rule reconcile_measure [where \<mu> = ?\<mu>]) (assumption, rule lessI)
qed

theorem reconcile_deadline_witness:
  "\<exists>r. reconcileLbState sample_ext clock_client (return_io (Some (sample_state 0)))
     (return_io (Some ((sample_state 0)\<lparr>st_lb := Some (sample_lb\<lparr>lb_Status := ''changing''\<rparr>)\<rparr>)))
     (Suc (12000000000 div nat (5 * Second))) 12000000000 = Some r"
proof -
  have run: "snd (Run clock_client a v) \<le> v" for a v
    by (cases a) (auto simp: clock_client_def idle_client_def proceed_call_def split: option.splits)
  have wait: "v' + nat d \<le> v" if "wait_or_done clock_client d v = (False, v')" for d v v'
    using that by (auto simp: clock_client_def split: if_splits)
  have rand: "0 \<le> fst (rand_Intn clock_client n v) \<and> snd (rand_Intn clock_client n v) \<le> v" for n v
    by (simp add: clock_client_def idle_client_def)
  show ?thesis
    by (rule reconcile_deadline [where remaining = "\<lambda>v. v"]) (use run wait rand in auto)
qed

end
