(* ===== verification/Lb_Mapper.thy ===== *)
theory Lb_Mapper
  imports Service_Info
begin

text \<open>
  Finding the load balancer of a service (\<open>src/pkg/cloudscale_ccm/lb_mapper.go\<close>), by the UUID in its
  annotations and by name. Every function returns a limiter and the world after its API calls.
\<close>

section \<open>Operations\<close>

definition lb_getByUUID :: "'w client \<Rightarrow> string \<Rightarrow> 'w \<Rightarrow> LoadBalancer limiter \<times> 'w" where
  "lb_getByUUID c uuid w = (case LoadBalancers_Get c uuid w of
       (Inl err, w') \<Rightarrow>
         if errors_As_response err = Some 404 then (limiter_New None [], w')
         else (limiter_New (Some err) [], w')
     | (Inr lb, w') \<Rightarrow> (limiter_New None [lb], w'))"

definition lb_findByName :: "'w client \<Rightarrow> string \<Rightarrow> 'w \<Rightarrow> LoadBalancer limiter \<times> 'w" where
  "lb_findByName c name w =
     (if name = [] then (limiter_New (Some (ErrorMsg ''no load balancer with empty name found'')) [], w)
      else case LoadBalancers_List c w of
          (Inl err, w') \<Rightarrow> (limiter_New (Some err) [], w')
        | (Inr lbs, w') \<Rightarrow> (limiter_New None [lb \<leftarrow> lbs. lb_Name lb = name], w'))"

definition findByServiceInfo :: "'w client \<Rightarrow> serviceInfo \<Rightarrow> 'w \<Rightarrow> LoadBalancer limiter \<times> 'w" where
  "findByServiceInfo c info w =
     (let uuid = annotation info LoadBalancerUUID in
      if uuid \<noteq> [] then
        (case lb_getByUUID c uuid w of (by_uuid, w1) \<Rightarrow>
          (case lb_findByName c (annotation info LoadBalancerName) w1 of (by_name, w2) \<Rightarrow>
             (limiter_Unique (\<lambda>a b. lb_UUID a = lb_UUID b) (limiter_Join [by_uuid, by_name]), w2)))
      else lb_findByName c (annotation info LoadBalancerName) w)"

section \<open>Laws\<close>

lemma find_with_uuid:
  assumes "annotation info LoadBalancerUUID = uuid" "uuid \<noteq> []"
    and "lb_getByUUID c uuid w = (l1, w1)" "lb_findByName c (annotation info LoadBalancerName) w1 = (l2, w2)"
  shows "findByServiceInfo c info w = (limiter_Unique (\<lambda>a b. lb_UUID a = lb_UUID b) (limiter_Join [l1, l2]), w2)"
  using assms by (simp add: findByServiceInfo_def)

lemma find_with_uuid_no_error:
  assumes "annotation info LoadBalancerUUID \<noteq> []"
  shows "lim_Error (fst (findByServiceInfo c info w)) = None"
  using assms by (simp add: findByServiceInfo_def Let_def split: prod.split)

section \<open>Properties\<close>

text \<open>
  For a service that carries a load balancer UUID, a failure of the API is taken for the absence
  of the load balancer: if both lookups fail, whatever the errors are, the search still succeeds
  with no result. (The errors are lost in \<open>limiter.Join\<close>.)
\<close>

lemma lookup_failure_reads_as_absent:
  assumes "annotation info LoadBalancerUUID \<noteq> []"
    and "LoadBalancers_Get c (annotation info LoadBalancerUUID) w = (Inl e1, w1)"
    and "LoadBalancers_List c w1 = (Inl e2, w2)"
  shows "limiter_AtMostOne (fst (findByServiceInfo c info w)) = Ok None"
proof -
  obtain l1 where l1: "lb_getByUUID c (annotation info LoadBalancerUUID) w = (l1, w1)" "lim_elements l1 = []"
    using assms(2) by (cases "errors_As_response e1 = Some 404") (simp_all add: lb_getByUUID_def)
  obtain l2 w2' where l2: "lb_findByName c (annotation info LoadBalancerName) w1 = (l2, w2')" "lim_elements l2 = []"
    using assms(3) by (cases "annotation info LoadBalancerName = []") (simp_all add: lb_findByName_def)
  show ?thesis
    using find_with_uuid [OF refl assms(1) l1(1) l2(1)] l1(2) l2(2)
    by (simp add: AtMostOne_None_iff limiter_Unique_def)
qed

definition outage_client :: "unit client" where
  "outage_client = idle_client\<lparr>LoadBalancers_Get := (\<lambda>u w. (Inl (ErrorResponse 503), w)),
     LoadBalancers_List := (\<lambda>w. (Inl (ErrorResponse 503), w))\<rparr>"

definition tracked_info :: serviceInfo where
  "tracked_info = \<lparr>si_Service = sample_service\<lparr>svc_Annotations := Some [(LoadBalancerUUID, ''4a04'')]\<rparr>,
     si_clusterName = ''kubernetes''\<rparr>"

lemma tracked_uuid: "annotation tracked_info LoadBalancerUUID = ''4a04''"
  by (rule annotation_present [of _ "[(LoadBalancerUUID, ''4a04'')]"])
     (simp_all add: tracked_info_def annotation_names)

lemma tracked_name: "annotation tracked_info LoadBalancerName = ''k8s-service-deadbeef''"
  by (simp add: annotation_Name annotationOrElse_def tracked_info_def sample_service_def)
     (simp add: annotation_names)

text \<open>
  Without a UUID annotation the errors of the API are reported, and the search finds exactly the
  load balancers with the name of the service, in the order of the API.
\<close>

lemma find_by_name_exact:
  assumes "annotation info LoadBalancerUUID = []" "annotation info LoadBalancerName \<noteq> []"
  shows "(case LoadBalancers_List c w of
      (Inl e, w') \<Rightarrow> findByServiceInfo c info w = (limiter_New (Some e) [], w')
    | (Inr lbs, w') \<Rightarrow> findByServiceInfo c info w =
        (limiter_New None [lb \<leftarrow> lbs. lb_Name lb = annotation info LoadBalancerName], w'))"
  using assms by (simp add: findByServiceInfo_def lb_findByName_def split: prod.split sum.split)

text \<open>
  C25. With a UUID annotation and a reachable API, the search returns each load balancer once: the one
  with the UUID and every one with the name. Hence \<open>AtMostOne\<close>, by which the actual state and the status
  are read, delivers the load balancer with the UUID, whatever it is called, unless another one has
  the name of the service, and then it fails: the UUID does not take precedence over the name.
\<close>

theorem find_by_uuid_and_name:
  assumes "annotation info LoadBalancerUUID \<noteq> []" "annotation info LoadBalancerName \<noteq> []"
    and "LoadBalancers_Get c (annotation info LoadBalancerUUID) w = (Inr lb, w1)"
    and "LoadBalancers_List c w1 = (Inr lbs, w2)"
  shows "lb_UUID ` set (lim_elements (fst (findByServiceInfo c info w)))
           = insert (lb_UUID lb) (lb_UUID ` {l \<in> set lbs. lb_Name l = annotation info LoadBalancerName}) \<and>
         distinct (map lb_UUID (lim_elements (fst (findByServiceInfo c info w)))) \<and>
         limiter_AtMostOne (fst (findByServiceInfo c info w)) =
           (if \<exists>l \<in> set lbs. lb_Name l = annotation info LoadBalancerName \<and> lb_UUID l \<noteq> lb_UUID lb
            then Err (ErrorMsg ''found more than one'') else Ok (Some lb))"
proof -
  let ?r = "fst (findByServiceInfo c info w)" and ?named = "[l \<leftarrow> lbs. lb_Name l = annotation info LoadBalancerName]"
  have r: "?r = limiter_Unique (\<lambda>a b. lb_UUID a = lb_UUID b) (limiter_Join [limiter_New None [lb], limiter_New None ?named])"
    using assms by (simp add: findByServiceInfo_def lb_getByUUID_def lb_findByName_def)
  have keys: "lb_UUID ` set (lim_elements ?r)
      = insert (lb_UUID lb) (lb_UUID ` {l \<in> set lbs. lb_Name l = annotation info LoadBalancerName})"
    unfolding r by (subst Unique_keys(2) [where f = lb_UUID]) auto
  have dist: "distinct (map lb_UUID (lim_elements ?r))"
    unfolding r by (rule Unique_keys(1)) simp
  have no_error: "lim_Error ?r = None" by (rule find_with_uuid_no_error [OF assms(1)])
  have "limiter_AtMostOne ?r = Err (ErrorMsg ''found more than one'')"
    if l: "l \<in> set lbs" "lb_Name l = annotation info LoadBalancerName" "lb_UUID l \<noteq> lb_UUID lb" for l
  proof -
    have "lb_UUID l \<in> set (map lb_UUID (lim_elements ?r))" "lb_UUID lb \<in> set (map lb_UUID (lim_elements ?r))"
      using l keys by auto
    with l(3) have "length (lim_elements ?r) > 1"
      by (cases "lim_elements ?r" rule: remdups_adj.cases) auto
    then show ?thesis using no_error by (simp add: limiter_AtMostOne_def)
  qed
  moreover have "limiter_AtMostOne ?r = Ok (Some lb)"
    if "\<not> (\<exists>l \<in> set lbs. lb_Name l = annotation info LoadBalancerName \<and> lb_UUID l \<noteq> lb_UUID lb)"
  proof -
    have "foldl (unique_step (\<lambda>a b. lb_UUID a = lb_UUID b)) [lb] ?named = [lb]"
      by (rule unique_fold_absorb) (use that in auto)
    then have "lim_elements ?r = [lb]" unfolding r by (simp add: limiter_Unique_def unique_step_def)
    then show ?thesis using no_error by (simp add: AtMostOne_Some_iff)
  qed
  ultimately show ?thesis using keys dist by auto
qed

theorem find_by_uuid_and_name_witness:
  "limiter_AtMostOne (fst (findByServiceInfo
     (idle_client\<lparr>LoadBalancers_Get := (\<lambda>u w. (Inr (sample_lb\<lparr>lb_Name := ''other''\<rparr>), w)),
        LoadBalancers_List := (\<lambda>w. (Inr [sample_lb\<lparr>lb_UUID := ''77''\<rparr>], w))\<rparr>) tracked_info ()))
   = Err (ErrorMsg ''found more than one'')"
proof -
  let ?c = "idle_client\<lparr>LoadBalancers_Get := (\<lambda>u w. (Inr (sample_lb\<lparr>lb_Name := ''other''\<rparr>), w)),
     LoadBalancers_List := (\<lambda>w. (Inr [sample_lb\<lparr>lb_UUID := ''77''\<rparr>], w))\<rparr>"
  have "annotation tracked_info LoadBalancerUUID \<noteq> []" "annotation tracked_info LoadBalancerName \<noteq> []"
    by (simp_all add: tracked_uuid tracked_name)
  moreover have "LoadBalancers_Get ?c (annotation tracked_info LoadBalancerUUID) ()
      = (Inr (sample_lb\<lparr>lb_Name := ''other''\<rparr>), ())" by simp
  moreover have "LoadBalancers_List ?c () = (Inr [sample_lb\<lparr>lb_UUID := ''77''\<rparr>], ())" by simp
  ultimately show ?thesis
    using find_by_uuid_and_name [of tracked_info ?c "()"] by (simp add: tracked_name sample_lb_def)
qed

end
