(* ===== verification/Reconcile_Actual.thy ===== *)
theory Reconcile_Actual
  imports Reconcile_Desired Lb_Mapper
begin

text \<open>
  The state a load balancer is in (\<open>src/pkg/cloudscale_ccm/reconcile.go\<close>: \<open>actualLbState\<close>), read from
  the cloudscale API. The API lists pools, monitors, listeners and floating IPs of all load balancers
  of the account, so what belongs to the load balancer of the service has to be picked out. The
  pointers to the pools are the positions in the list of pools, as each round of the loop allocates
  one.
\<close>

section \<open>Operations\<close>

definition sdk_call :: "('w \<Rightarrow> (error + 'a) \<times> 'w) \<Rightarrow> ('w, 'a) io" where
  "sdk_call call w = (case call w of (r, w') \<Rightarrow> (res_of_sum r, w'))"

text \<open>\<open>for _, pool := range pools\<close>\<close>

fun actual_pools ::
  "'w client \<Rightarrow> LoadBalancer \<Rightarrow> LoadBalancerHealthMonitor list \<Rightarrow> LoadBalancerListener list \<Rightarrow>
   nat \<Rightarrow> LoadBalancerPool list \<Rightarrow> lbState \<Rightarrow> ('w, lbState) io" where
  "actual_pools c lb monitors listeners i [] s = return_io s"
| "actual_pools c lb monitors listeners i (p # pools) s =
     (if pool_LoadBalancerUUID p \<noteq> lb_UUID lb then actual_pools c lb monitors listeners (Suc i) pools s
      else bind_io
        (wrap_io (''lbstate: failed to load members for '' @ pool_UUID p @ '': '')
          (sdk_call (Members_List c (pool_UUID p))))
        (\<lambda>ms. actual_pools c lb monitors listeners (Suc i) pools
          (s\<lparr>st_pools := st_pools s @ [(i, p)],
             st_members := (st_members s)(Some i := ms),
             st_monitors := append_at (Some i) [m \<leftarrow> monitors. mon_PoolUUID m = pool_UUID p] (st_monitors s),
             st_listeners := append_at (Some i) [l \<leftarrow> listeners. lis_PoolUUID l = Some (pool_UUID p)]
               (st_listeners s)\<rparr>)))"

text \<open>The state of a load balancer that was found.\<close>

definition loaded_lbState :: "'w client \<Rightarrow> LoadBalancer \<Rightarrow> ('w, lbState) io" where
  "loaded_lbState c lb =
     bind_io (wrap_io ''lb state: failed to load monitors: '' (sdk_call (Monitors_List c))) (\<lambda>monitors.
     bind_io (wrap_io ''lb state: failed to load listeners: '' (sdk_call (Listeners_List c))) (\<lambda>listeners.
     bind_io (wrap_io ''lb state: failed to load pools: '' (sdk_call (Pools_List c))) (\<lambda>pools.
     bind_io (actual_pools c lb monitors listeners 0 pools (newLbState lb)) (\<lambda>s.
     let free = [l \<leftarrow> listeners. lis_PoolUUID l = None \<and> lis_LoadBalancerUUID l = lb_UUID lb];
         s' = s\<lparr>st_listeners := append_at None free (st_listeners s)\<rparr> in
     bind_io (wrap_io ''lbstate: failed to load floating ips: '' (sdk_call (FloatingIPs_List c))) (\<lambda>ips.
       return_io (s'\<lparr>st_floatingIPs := st_floatingIPs s' @
         map fip_Network [ip \<leftarrow> ips. fip_LoadBalancerUUID ip = Some (lb_UUID lb)]\<rparr>))))))"

definition actualLbState :: "'w client \<Rightarrow> serviceInfo \<Rightarrow> ('w, lbState) io" where
  "actualLbState c info w =
     (case findByServiceInfo c info w of (found, w') \<Rightarrow>
       bind_io (wrap_io (''unable to get load balancer for '' @ svc_Name (si_Service info) @ '': '')
           (res_io (limiter_AtMostOne found)))
         (\<lambda>lb. case lb of None \<Rightarrow> return_io empty_lbState | Some l \<Rightarrow> loaded_lbState c l) w')"

section \<open>Laws\<close>

lemma sdk_call_Ok: "sdk_call call w = (Ok x, w') \<longleftrightarrow> call w = (Inr x, w')"
  by (cases "fst (call w)") (auto simp: sdk_call_def split: prod.splits)

lemma sdk_call_eq: "call w = (r, w') \<Longrightarrow> sdk_call call w = (res_of_sum r, w')"
  by (simp add: sdk_call_def)

text \<open>
  What the loop adds for the pools from position \<open>i\<close> on, and what it leaves alone.
\<close>

definition own_pools :: "LoadBalancer \<Rightarrow> nat \<Rightarrow> LoadBalancerPool list \<Rightarrow> pool_ref list" where
  "own_pools lb i pools = [(j, p) \<leftarrow> zip [i..<i + length pools] pools. pool_LoadBalancerUUID p = lb_UUID lb]"

lemma own_pools_Cons [simp]:
  "own_pools lb i (p # pools) =
     (if pool_LoadBalancerUUID p = lb_UUID lb then (i, p) # own_pools lb (Suc i) pools else own_pools lb (Suc i) pools)"
  by (simp add: own_pools_def upt_conv_Cons del: upt_Suc)

lemma own_pools_ge: "(j, p) \<in> set (own_pools lb i pools) \<Longrightarrow> i \<le> j"
  by (auto simp: own_pools_def dest: set_zip_leftD)

lemma own_pools_distinct: "distinct (map fst (own_pools lb i pools))"
  by (simp add: own_pools_def distinct_map_filter)

lemma own_pools_snd: "map snd (own_pools lb i pools) = [p \<leftarrow> pools. pool_LoadBalancerUUID p = lb_UUID lb]"
  by (induction pools arbitrary: i) (simp_all, simp add: own_pools_def)

lemma actual_pools_frame:
  assumes "actual_pools c lb mons lss i pools s w = (Ok s', w')"
  shows "st_lb s' = st_lb s \<and> st_floatingIPs s' = st_floatingIPs s \<and>
      st_pools s' = st_pools s @ own_pools lb i pools \<and> st_listeners s' None = st_listeners s None"
    and "q < i \<Longrightarrow> st_members s' (Some q) = st_members s (Some q) \<and>
      st_monitors s' (Some q) = st_monitors s (Some q) \<and> st_listeners s' (Some q) = st_listeners s (Some q)"
  using assms
  by (induction c lb mons lss i pools s arbitrary: w rule: actual_pools.induct)
     (auto simp: bind_io_eq_Ok own_pools_def [of _ _ "[]"] split: if_splits)

lemma actual_pools_content:
  assumes "actual_pools c lb mons lss i pools s w = (Ok s', w')"
    and "\<And>j. i \<le> j \<Longrightarrow> st_monitors s (Some j) = [] \<and> st_listeners s (Some j) = []"
    and "(j, p) \<in> set (own_pools lb i pools)"
  shows "st_monitors s' (Some j) = [m \<leftarrow> mons. mon_PoolUUID m = pool_UUID p] \<and>
    st_listeners s' (Some j) = [l \<leftarrow> lss. lis_PoolUUID l = Some (pool_UUID p)] \<and>
    (\<exists>v v'. Members_List c (pool_UUID p) v = (Inr (st_members s' (Some j)), v'))"
  using assms
proof (induction c lb mons lss i pools s arbitrary: w rule: actual_pools.induct)
  case (2 c lb mons lss i q pools s)
  show ?case
  proof (cases "pool_LoadBalancerUUID q = lb_UUID lb")
    case False
    with 2 show ?thesis by simp
  next
    case True
    let ?s = "\<lambda>ms. s\<lparr>st_pools := st_pools s @ [(i, q)], st_members := (st_members s)(Some i := ms),
       st_monitors := append_at (Some i) [m \<leftarrow> mons. mon_PoolUUID m = pool_UUID q] (st_monitors s),
       st_listeners := append_at (Some i) [l \<leftarrow> lss. lis_PoolUUID l = Some (pool_UUID q)] (st_listeners s)\<rparr>"
    from "2.prems"(1) True obtain ms w1 where
      ms: "Members_List c (pool_UUID q) w = (Inr ms, w1)" and
      rest: "actual_pools c lb mons lss (Suc i) pools (?s ms) w1 = (Ok s', w')"
      by (auto simp: bind_io_eq_Ok wrap_io_eq_Ok sdk_call_Ok)
    from "2.prems"(3) True consider "j = i" "p = q" | "(j, p) \<in> set (own_pools lb (Suc i) pools)" by auto
    then show ?thesis
    proof cases
      case 1
      then show ?thesis
        using actual_pools_frame(2) [OF rest, of i] "2.prems"(2) [of i] ms by auto
    next
      case 2
      show ?thesis by (rule "2.IH"(2) [OF _ rest]) (use True "2.prems"(2) 2 in auto)
    qed
  qed
qed (simp add: own_pools_def)

lemma loaded_lbState_Ok:
  assumes "loaded_lbState c lb w = (Ok s, w')"
  obtains mons lss pls ips w1 w2 w3 s1 w4 where
    "Monitors_List c w = (Inr mons, w1)" "Listeners_List c w1 = (Inr lss, w2)" "Pools_List c w2 = (Inr pls, w3)"
    "actual_pools c lb mons lss 0 pls (newLbState lb) w3 = (Ok s1, w4)" "FloatingIPs_List c w4 = (Inr ips, w')"
    "s = s1\<lparr>st_listeners := append_at None
           [l \<leftarrow> lss. lis_PoolUUID l = None \<and> lis_LoadBalancerUUID l = lb_UUID lb] (st_listeners s1),
         st_floatingIPs := st_floatingIPs s1 @
           map fip_Network [ip \<leftarrow> ips. fip_LoadBalancerUUID ip = Some (lb_UUID lb)]\<rparr>"
  using assms that by (auto simp: loaded_lbState_def bind_io_eq_Ok wrap_io_eq_Ok sdk_call_Ok Let_def)

lemma loaded_lbState_lb: "loaded_lbState c lb w = (Ok s, w') \<Longrightarrow> st_lb s = Some lb"
  by (elim loaded_lbState_Ok) (auto dest: actual_pools_frame(1))

lemma actualLbState_Some:
  assumes "actualLbState c info w = (Ok s, w')" "st_lb s = Some lb"
  obtains w1 where "loaded_lbState c lb w1 = (Ok s, w')"
proof -
  obtain found w1 where "findByServiceInfo c info w = (found, w1)" by fastforce
  with assms(1) obtain r where "(case r of None \<Rightarrow> return_io empty_lbState | Some l \<Rightarrow> loaded_lbState c l) w1 = (Ok s, w')"
    by (auto simp: actualLbState_def bind_io_eq_Ok wrap_io_eq_Ok)
  with assms(2) obtain l where "loaded_lbState c l w1 = (Ok s, w')"
    by (cases r) (auto simp: empty_lbState_def)
  moreover from this have "l = lb" using assms(2) loaded_lbState_lb by fastforce
  ultimately show thesis using that by blast
qed

section \<open>Properties\<close>

text \<open>
  C16. The state holds exactly what belongs to the load balancer: of all pools the API lists, those
  of this load balancer, in order and each with its own pointer; for each of them the monitors and
  listeners that point to it and the members listed for it; the listeners of the load balancer
  without a pool under the nil pointer; and the networks of the floating IPs assigned to it.
\<close>

theorem actualLbState_own_resources:
  assumes "actualLbState c info w = (Ok s, w')" "st_lb s = Some lb"
  shows "\<exists>mons lss pls ips w1 w2 w3 w4 w5.
    Monitors_List c w1 = (Inr mons, w2) \<and> Listeners_List c w2 = (Inr lss, w3) \<and>
    Pools_List c w3 = (Inr pls, w4) \<and> FloatingIPs_List c w5 = (Inr ips, w') \<and>
    map snd (st_pools s) = [p \<leftarrow> pls. pool_LoadBalancerUUID p = lb_UUID lb] \<and>
    distinct (map fst (st_pools s)) \<and>
    (\<forall>(q, p) \<in> set (st_pools s).
       st_monitors s (Some q) = [m \<leftarrow> mons. mon_PoolUUID m = pool_UUID p] \<and>
       st_listeners s (Some q) = [l \<leftarrow> lss. lis_PoolUUID l = Some (pool_UUID p)] \<and>
       (\<exists>v v'. Members_List c (pool_UUID p) v = (Inr (st_members s (Some q)), v'))) \<and>
    st_listeners s None = [l \<leftarrow> lss. lis_PoolUUID l = None \<and> lis_LoadBalancerUUID l = lb_UUID lb] \<and>
    st_floatingIPs s = map fip_Network [ip \<leftarrow> ips. fip_LoadBalancerUUID ip = Some (lb_UUID lb)]"
proof -
  obtain w1 where "loaded_lbState c lb w1 = (Ok s, w')" using actualLbState_Some [OF assms] .
  then obtain mons lss pls ips w2 w3 w4 s1 w5 where
    calls: "Monitors_List c w1 = (Inr mons, w2)" "Listeners_List c w2 = (Inr lss, w3)"
      "Pools_List c w3 = (Inr pls, w4)" "FloatingIPs_List c w5 = (Inr ips, w')" and
    loop: "actual_pools c lb mons lss 0 pls (newLbState lb) w4 = (Ok s1, w5)" and
    s: "s = s1\<lparr>st_listeners := append_at None
           [l \<leftarrow> lss. lis_PoolUUID l = None \<and> lis_LoadBalancerUUID l = lb_UUID lb] (st_listeners s1),
         st_floatingIPs := st_floatingIPs s1 @
           map fip_Network [ip \<leftarrow> ips. fip_LoadBalancerUUID ip = Some (lb_UUID lb)]\<rparr>"
    by (rule loaded_lbState_Ok)
  have pools: "st_pools s1 = own_pools lb 0 pls" "st_floatingIPs s1 = []" "st_listeners s1 None = []"
    using actual_pools_frame(1) [OF loop] by (simp_all add: s)
  have "st_monitors s (Some q) = [m \<leftarrow> mons. mon_PoolUUID m = pool_UUID p] \<and>
       st_listeners s (Some q) = [l \<leftarrow> lss. lis_PoolUUID l = Some (pool_UUID p)] \<and>
       (\<exists>v v'. Members_List c (pool_UUID p) v = (Inr (st_members s (Some q)), v'))"
    if "(q, p) \<in> set (st_pools s)" for q p
    using actual_pools_content [OF loop, of q p] that by (simp add: pools s)
  then show ?thesis
    using calls pools own_pools_snd own_pools_distinct by (intro exI conjI) (auto simp: s)
qed

definition two_lb_client :: "unit client" where
  "two_lb_client = idle_client\<lparr>LoadBalancers_List := (\<lambda>w. (Inr [sample_lb, sample_lb\<lparr>lb_UUID := ''ffff'', lb_Name := ''other''\<rparr>], w)),
     Pools_List := (\<lambda>w. (Inr [sample_pool\<lparr>pool_UUID := ''p0'', pool_LoadBalancerUUID := ''ffff''\<rparr>, sample_pool], w))\<rparr>"

lemma sample_found: "findByServiceInfo two_lb_client sample_info () = (limiter_New None [sample_lb], ())"
proof -
  have "annotation sample_info LoadBalancerUUID = []" "annotation sample_info LoadBalancerName = ''k8s-service-deadbeef''"
    by (simp_all add: annotation_defaults annotation_Name annotationOrDefault_def annotationOrElse_def)
       (simp_all add: sample_info_def sample_service_def annotation_names)
  then show ?thesis
    by (simp add: findByServiceInfo_def lb_findByName_def) (simp add: two_lb_client_def sample_lb_def)
qed

theorem actualLbState_own_resources_witness:
  "\<exists>s. actualLbState two_lb_client sample_info () = (Ok s, ()) \<and> map snd (st_pools s) = [sample_pool]"
proof -
  have calls: "Monitors_List two_lb_client () = (Inr [], ())" "Listeners_List two_lb_client () = (Inr [], ())"
    "Members_List two_lb_client u () = (Inr [], ())" "FloatingIPs_List two_lb_client () = (Inr [], ())" for u
    by (simp_all add: two_lb_client_def idle_client_def)
  have pools: "Pools_List two_lb_client () = (Inr [sample_pool\<lparr>pool_UUID := ''p0'', pool_LoadBalancerUUID := ''ffff''\<rparr>, sample_pool], ())"
    by (simp add: two_lb_client_def)
  have "\<exists>s. actual_pools two_lb_client sample_lb [] [] 0
      [sample_pool\<lparr>pool_UUID := ''p0'', pool_LoadBalancerUUID := ''ffff''\<rparr>, sample_pool] (newLbState sample_lb) () = (Ok s, ())"
    by (simp add: bind_io_eq_Ok wrap_io_eq_Ok sdk_call_Ok calls sample_lb_def sample_pool_def)
  then obtain s1 where "actual_pools two_lb_client sample_lb [] [] 0
      [sample_pool\<lparr>pool_UUID := ''p0'', pool_LoadBalancerUUID := ''ffff''\<rparr>, sample_pool] (newLbState sample_lb) () = (Ok s1, ())" ..
  then have "\<exists>s. loaded_lbState two_lb_client sample_lb () = (Ok s, ())"
    by (simp add: loaded_lbState_def bind_io_apply wrap_io_apply sdk_call_def calls pools Let_def del: actual_pools.simps bind_io_run)
  then obtain s where l: "loaded_lbState two_lb_client sample_lb () = (Ok s, ())" ..
  then have a: "actualLbState two_lb_client sample_info () = (Ok s, ())"
    by (simp add: actualLbState_def sample_found limiter_AtMostOne_def limiter_New_def wrap_io_apply bind_io_apply)
  from actualLbState_own_resources [OF this loaded_lbState_lb [OF l]]
  obtain pls w3 w4 where "Pools_List two_lb_client w3 = (Inr pls, w4)"
    "map snd (st_pools s) = [p \<leftarrow> pls. pool_LoadBalancerUUID p = lb_UUID sample_lb]" by blast
  then have "map snd (st_pools s) = [sample_pool]"
    by (auto simp: two_lb_client_def sample_lb_def sample_pool_def)
  with a show ?thesis by (intro exI [of _ s] conjI)
qed

text \<open>
  A service without a load balancer has the empty state, and finding this out costs no API call
  beyond the search for the load balancer itself.
\<close>

lemma actualLbState_absent:
  assumes "limiter_AtMostOne (fst (findByServiceInfo c info w)) = Ok None"
  shows "actualLbState c info w = (Ok empty_lbState, snd (findByServiceInfo c info w))"
  using assms by (cases "findByServiceInfo c info w") (simp add: actualLbState_def bind_io_apply wrap_io_apply)

end
