(* ===== verification/Account.thy ===== *)
theory Account
  imports Reconcile_Loop Reconcile_Actual
begin

text \<open>
  The account behind the API, as far as the controller relies on it: which resources there are, what
  the reading calls report of them, and what the writing calls do to them. The API is not part of the
  repository. So the effect of a call is not a definition but a condition, \<open>documented_api\<close>, that the
  theorems of \<open>Convergence\<close> take as their hypothesis; \<open>Simulated_Cloud\<close> shows that it can be met.

  The conditions leave open what a client cannot know: the identifiers the API picks, the order in
  which it lists resources, how long a load balancer stays in the status \<open>changing\<close>, and what becomes
  of the contents of a pool that is deleted.
\<close>

section \<open>Resources of an account\<close>

text \<open>
  Load balancers are listed without their status and monitors without the addresses of their host
  strings: both may differ between two calls that report the same resource.
\<close>

record account =
  acc_lbs :: "LoadBalancer list"
  acc_pools :: "LoadBalancerPool list"
  acc_members :: "string \<Rightarrow> LoadBalancerPoolMember list"
  acc_listeners :: "LoadBalancerListener list"
  acc_monitors :: "LoadBalancerHealthMonitor list"
  acc_fips :: "FloatingIP list"

definition no_status :: "LoadBalancer \<Rightarrow> LoadBalancer" where
  "no_status lb = lb\<lparr>lb_Status := []\<rparr>"

definition no_address :: "LoadBalancerHealthMonitor \<Rightarrow> LoadBalancerHealthMonitor" where
  "no_address m = m\<lparr>mon_HTTP := map_option (\<lambda>h. h\<lparr>http_Host := map_option (\<lambda>(_, s). (0, s)) (http_Host h)\<rparr>) (mon_HTTP m)\<rparr>"

definition listeners_of :: "account \<Rightarrow> string \<Rightarrow> LoadBalancerListener list" where
  "listeners_of A u = [l \<leftarrow> acc_listeners A. lis_PoolUUID l = Some u]"

definition monitors_of :: "account \<Rightarrow> string \<Rightarrow> LoadBalancerHealthMonitor list" where
  "monitors_of A u = [m \<leftarrow> acc_monitors A. mon_PoolUUID m = u]"

definition fip_address :: "FloatingIP \<Rightarrow> string" where
  "fip_address f = (case strings_Cut (fip_Network f) ''/'' of Some (before, after) \<Rightarrow> before | None \<Rightarrow> fip_Network f)"

abbreviation pool_UUIDs :: "account \<Rightarrow> string set" where
  "pool_UUIDs A \<equiv> pool_UUID ` set (acc_pools A)"

abbreviation lb_UUIDs :: "account \<Rightarrow> string set" where
  "lb_UUIDs A \<equiv> lb_UUID ` set (acc_lbs A)"

text \<open>
  The places a resource can be in: the load balancers, the pools of a load balancer, and the members,
  listeners and monitors of a pool. A place in a pool exists only with the pool.
\<close>

datatype place = Balancers | Pools string | Members string | Listeners string | Monitors string

fun live :: "account \<Rightarrow> place \<Rightarrow> bool" where
  "live A Balancers = True"
| "live A (Pools U) = True"
| "live A (Members u) = (u \<in> pool_UUIDs A)"
| "live A (Listeners u) = (u \<in> pool_UUIDs A)"
| "live A (Monitors u) = (u \<in> pool_UUIDs A)"

text \<open>The addresses of the resources in a place.\<close>

fun hrefs :: "account \<Rightarrow> place \<Rightarrow> string list" where
  "hrefs A Balancers = map lb_HREF (acc_lbs A)"
| "hrefs A (Pools U) = map pool_HREF [p \<leftarrow> acc_pools A. pool_LoadBalancerUUID p = U]"
| "hrefs A (Members u) = map mem_HREF (acc_members A u)"
| "hrefs A (Listeners u) = map lis_HREF (listeners_of A u)"
| "hrefs A (Monitors u) = map mon_HREF (monitors_of A u)"

definition has_href :: "account \<Rightarrow> string \<Rightarrow> bool" where
  "has_href A url \<longleftrightarrow> (\<exists>pl. live A pl \<and> url \<in> set (hrefs A pl))"

text \<open>Identifiers are unique, and pools have one of the algorithms and protocols of the API.\<close>

definition wf_account :: "account \<Rightarrow> bool" where
  "wf_account A \<longleftrightarrow>
     (\<forall>pl. live A pl \<longrightarrow> distinct (hrefs A pl)) \<and>
     (\<forall>pl pl'. live A pl \<and> live A pl' \<and> pl \<noteq> pl' \<longrightarrow> set (hrefs A pl) \<inter> set (hrefs A pl') = {}) \<and>
     distinct (map lb_UUID (acc_lbs A)) \<and> distinct (map pool_UUID (acc_pools A)) \<and>
     distinct (map lis_UUID (acc_listeners A)) \<and> distinct (map mon_UUID (acc_monitors A)) \<and>
     list_all api_pool (acc_pools A)"

section \<open>What the writing calls do\<close>

text \<open>\<open>added i xs xs'\<close>: the list has one more element, in any place.\<close>

definition added :: "'a \<Rightarrow> 'a list \<Rightarrow> 'a list \<Rightarrow> bool" where
  "added i xs xs' \<longleftrightarrow> mset xs' = add_mset i (mset xs)"

definition vip_granted :: "VIPAddressRequest \<Rightarrow> VIPAddress \<Rightarrow> bool" where
  "vip_granted r a \<longleftrightarrow> (vipreq_Address r = [] \<or> vip_Address a = vipreq_Address r) \<and>
     (vipreq_Subnet r = [] \<or> subnet_UUID (vip_Subnet a) = vipreq_Subnet r)"

definition lb_created :: "LoadBalancerRequest \<Rightarrow> account \<Rightarrow> account \<Rightarrow> bool" where
  "lb_created r A A' \<longleftrightarrow> (\<exists>l. added l (acc_lbs A) (acc_lbs A') \<and> A' = A\<lparr>acc_lbs := acc_lbs A'\<rparr> \<and>
     lb_Name l = lbreq_Name r \<and> lb_FlavorSlug l = lbreq_Flavor r \<and> lb_ZoneSlug l = lbreq_Zone r \<and>
     (case lbreq_VIPAddresses r of Some (v # vs) \<Rightarrow> list_all2 vip_granted (v # vs) (lb_VIPAddresses l) | _ \<Rightarrow> True))"

text \<open>An update of a load balancer; of the request only the name is used.\<close>

definition lb_renamed :: "string \<Rightarrow> string \<Rightarrow> account \<Rightarrow> account \<Rightarrow> bool" where
  "lb_renamed u name A A' \<longleftrightarrow>
     A' = A\<lparr>acc_lbs := map (\<lambda>l. if lb_UUID l = u then l\<lparr>lb_Name := name\<rparr> else l) (acc_lbs A)\<rparr>"

definition pool_created :: "PoolRequest \<Rightarrow> account \<Rightarrow> account \<Rightarrow> bool" where
  "pool_created r A A' \<longleftrightarrow> (\<exists>p. added p (acc_pools A) (acc_pools A') \<and> A' = A\<lparr>acc_pools := acc_pools A'\<rparr> \<and>
     pool_Name p = poolreq_Name r \<and> pool_Algorithm p = poolreq_Algorithm r \<and> pool_Protocol p = poolreq_Protocol r \<and>
     pool_LoadBalancerUUID p = poolreq_LoadBalancer r)"

text \<open>A new member is enabled; \<open>net\<close> gives the subnet with a UUID.\<close>

definition member_created ::
  "(string \<Rightarrow> SubnetStub) \<Rightarrow> string \<Rightarrow> MemberRequest \<Rightarrow> account \<Rightarrow> account \<Rightarrow> bool" where
  "member_created net u r A A' \<longleftrightarrow> (\<exists>m. added m (acc_members A u) (acc_members A' u) \<and>
     A' = A\<lparr>acc_members := (acc_members A)(u := acc_members A' u)\<rparr> \<and>
     mem_Name m = memreq_Name r \<and> mem_Enabled m \<and> mem_Address m = memreq_Address r \<and>
     mem_Subnet m = net (memreq_Subnet r) \<and> mem_ProtocolPort m = memreq_ProtocolPort r \<and>
     mem_MonitorPort m = memreq_MonitorPort r)"

text \<open>In requests the SDK leaves out fields with the zero value, and the API keeps or picks their value.\<close>

abbreviation given :: "'a \<Rightarrow> 'a \<Rightarrow> 'a \<Rightarrow> 'a" where
  "given zero new old \<equiv> (if new = zero then old else new)"

definition set_listener :: "ListenerRequest \<Rightarrow> LoadBalancerListener \<Rightarrow> LoadBalancerListener" where
  "set_listener r l = l\<lparr>
     lis_Name := given [] (lisreq_Name r) (lis_Name l),
     lis_Protocol := given [] (lisreq_Protocol r) (lis_Protocol l),
     lis_ProtocolPort := given 0 (lisreq_ProtocolPort r) (lis_ProtocolPort l),
     lis_AllowedCIDRs := (case lisreq_AllowedCIDRs r of Some cidrs \<Rightarrow> cidrs | None \<Rightarrow> lis_AllowedCIDRs l),
     lis_TimeoutClientDataMS := given 0 (lisreq_TimeoutClientDataMS r) (lis_TimeoutClientDataMS l),
     lis_TimeoutMemberConnectMS := given 0 (lisreq_TimeoutMemberConnectMS r) (lis_TimeoutMemberConnectMS l),
     lis_TimeoutMemberDataMS := given 0 (lisreq_TimeoutMemberDataMS r) (lis_TimeoutMemberDataMS l)\<rparr>"

definition listener_created :: "ListenerRequest \<Rightarrow> account \<Rightarrow> account \<Rightarrow> bool" where
  "listener_created r A A' \<longleftrightarrow> (\<exists>l. added l (acc_listeners A) (acc_listeners A') \<and>
     A' = A\<lparr>acc_listeners := acc_listeners A'\<rparr> \<and> lis_PoolUUID l = Some (lisreq_Pool r) \<and>
     lis_Name l = lisreq_Name r \<and> lis_Protocol l = lisreq_Protocol r \<and> lis_ProtocolPort l = lisreq_ProtocolPort r \<and>
     set_listener r l = l)"

definition listener_updated :: "string \<Rightarrow> ListenerRequest \<Rightarrow> account \<Rightarrow> account \<Rightarrow> bool" where
  "listener_updated u r A A' \<longleftrightarrow>
     A' = A\<lparr>acc_listeners := map (\<lambda>l. if lis_UUID l = u then set_listener r l else l) (acc_listeners A)\<rparr>"

text \<open>Options of a monitor for HTTP; a monitor that has none keeps none.\<close>

definition set_http :: "MonitorHTTPRequest \<Rightarrow> MonitorHTTP \<Rightarrow> MonitorHTTP" where
  "set_http r h = h\<lparr>
     http_Method := given [] (httpreq_Method r) (http_Method h),
     http_URLPath := given [] (httpreq_URLPath r) (http_URLPath h),
     http_Version := given [] (httpreq_Version r) (http_Version h),
     http_Host := given None (map_option (\<lambda>(_, s). (0, s)) (httpreq_Host r)) (http_Host h),
     http_ExpectedCodes := given [] (httpreq_ExpectedCodes r) (http_ExpectedCodes h)\<rparr>"

definition set_monitor :: "MonitorRequest \<Rightarrow> LoadBalancerHealthMonitor \<Rightarrow> LoadBalancerHealthMonitor" where
  "set_monitor r m = m\<lparr>
     mon_DelayS := given 0 (monreq_DelayS r) (mon_DelayS m),
     mon_TimeoutS := given 0 (monreq_TimeoutS r) (mon_TimeoutS m),
     mon_UpThreshold := given 0 (monreq_UpThreshold r) (mon_UpThreshold m),
     mon_DownThreshold := given 0 (monreq_DownThreshold r) (mon_DownThreshold m),
     mon_Type := given [] (monreq_Type r) (mon_Type m),
     mon_HTTP := (case monreq_HTTP r of Some h \<Rightarrow> map_option (set_http h) (mon_HTTP m) | None \<Rightarrow> mon_HTTP m)\<rparr>"

text \<open>The HTTP version of a monitor is 1.1 where none is given.\<close>

definition mon_version :: "LoadBalancerHealthMonitor \<Rightarrow> string" where
  "mon_version m = (case mon_HTTP m of Some h \<Rightarrow> given [] (http_Version h) ''1.1'' | None \<Rightarrow> ''1.1'')"

definition monitor_created :: "MonitorRequest \<Rightarrow> account \<Rightarrow> account \<Rightarrow> bool" where
  "monitor_created r A A' \<longleftrightarrow> (\<exists>m. added m (acc_monitors A) (acc_monitors A') \<and>
     A' = A\<lparr>acc_monitors := acc_monitors A'\<rparr> \<and> mon_PoolUUID m = monreq_Pool r \<and> set_monitor r m = m \<and>
     mon_Type m = monreq_Type r \<and>
     mon_version m = (case monreq_HTTP r of Some h \<Rightarrow> given [] (httpreq_Version h) ''1.1'' | None \<Rightarrow> ''1.1''))"

definition monitor_updated :: "string \<Rightarrow> MonitorRequest \<Rightarrow> account \<Rightarrow> account \<Rightarrow> bool" where
  "monitor_updated u r A A' \<longleftrightarrow>
     A' = A\<lparr>acc_monitors := map (\<lambda>m. if mon_UUID m = u then set_monitor r m else m) (acc_monitors A)\<rparr>"

definition fip_assigned :: "string \<Rightarrow> string \<Rightarrow> account \<Rightarrow> account \<Rightarrow> bool" where
  "fip_assigned addr u A A' \<longleftrightarrow>
     A' = A\<lparr>acc_fips := map (\<lambda>f. if fip_address f = addr then f\<lparr>fip_LoadBalancerUUID := Some u\<rparr> else f) (acc_fips A)\<rparr>"

text \<open>
  A deletion removes the resource with the address. When it is a load balancer, \<open>gone\<close> has its UUID:
  what is left of its pools and where its floating IPs point then is not said, as little as what is
  left of the contents of a pool that exists no more.
\<close>

definition gone :: "string \<Rightarrow> account \<Rightarrow> string set" where
  "gone url A = lb_UUID ` set [l \<leftarrow> acc_lbs A. lb_HREF l = url]"

definition deleted :: "string \<Rightarrow> account \<Rightarrow> account \<Rightarrow> bool" where
  "deleted url A A' \<longleftrightarrow>
     acc_lbs A' = [l \<leftarrow> acc_lbs A. lb_HREF l \<noteq> url] \<and>
     [p \<leftarrow> acc_pools A'. pool_LoadBalancerUUID p \<notin> gone url A] =
       [p \<leftarrow> acc_pools A. pool_LoadBalancerUUID p \<notin> gone url A \<and> pool_HREF p \<noteq> url] \<and>
     (\<forall>p \<in> set (acc_pools A'). pool_LoadBalancerUUID p \<notin> gone url A \<longrightarrow>
        acc_members A' (pool_UUID p) = [m \<leftarrow> acc_members A (pool_UUID p). mem_HREF m \<noteq> url] \<and>
        listeners_of A' (pool_UUID p) = [l \<leftarrow> listeners_of A (pool_UUID p). lis_HREF l \<noteq> url] \<and>
        monitors_of A' (pool_UUID p) = [m \<leftarrow> monitors_of A (pool_UUID p). mon_HREF m \<noteq> url]) \<and>
     list_all2 (\<lambda>f f'. fip_Network f' = fip_Network f \<and> (fip_LoadBalancerUUID f \<notin> Some ` gone url A \<longrightarrow> f' = f))
       (acc_fips A) (acc_fips A')"

section \<open>The API\<close>

text \<open>
  A client with its surroundings: the worlds it can be in, the account in a world, an upper bound on
  the number of pauses until no load balancer is changing any more, the subnets, and the requests the
  API accepts.
\<close>

datatype api_request =
    ReqLoadBalancer LoadBalancerRequest
  | ReqRename string
  | ReqPool PoolRequest
  | ReqMember MemberRequest
  | ReqListener ListenerRequest
  | ReqListenerUpdate ListenerRequest
  | ReqMonitor MonitorRequest
  | ReqMonitorUpdate MonitorRequest

record 'w api_model =
  am_client :: "'w client"
  am_ok :: "'w \<Rightarrow> bool"
  am_acct :: "'w \<Rightarrow> account"
  am_pending :: "'w \<Rightarrow> nat"
  am_net :: "string \<Rightarrow> SubnetStub"
  am_accepts :: "api_request \<Rightarrow> bool"

text \<open>Nothing changes, and time passes at most.\<close>

definition quiet :: "'w api_model \<Rightarrow> 'w \<Rightarrow> 'w \<Rightarrow> bool" where
  "quiet M w w' \<longleftrightarrow> am_ok M w' \<and> am_acct M w' = am_acct M w \<and> am_pending M w' \<le> am_pending M w"

definition reports :: "'w api_model \<Rightarrow> ('w \<Rightarrow> (error + 'a) \<times> 'w) \<Rightarrow> 'w \<Rightarrow> ('a \<Rightarrow> bool) \<Rightarrow> bool" where
  "reports M call w P \<longleftrightarrow> (\<exists>r w'. call w = (Inr r, w') \<and> quiet M w w' \<and> P r)"

definition performs :: "'w api_model \<Rightarrow> ('w \<Rightarrow> error option \<times> 'w) \<Rightarrow> 'w \<Rightarrow> (account \<Rightarrow> account \<Rightarrow> bool) \<Rightarrow> bool" where
  "performs M call w R \<longleftrightarrow> (\<exists>w'. call w = (None, w') \<and> am_ok M w' \<and> R (am_acct M w) (am_acct M w'))"

text \<open>A load balancer may be reported as changing only while there are pauses to wait for.\<close>

definition settled_status :: "'w api_model \<Rightarrow> 'w \<Rightarrow> LoadBalancer \<Rightarrow> bool" where
  "settled_status M w l \<longleftrightarrow> (lb_Status l = ''changing'' \<longrightarrow> 0 < am_pending M w)"

definition reads_documented :: "'w api_model \<Rightarrow> bool" where
  "reads_documented M \<longleftrightarrow> (\<forall>w. am_ok M w \<longrightarrow>
     wf_account (am_acct M w) \<and> ctx_Err (am_client M) w = None \<and> valid_site_orders (range_orders (am_client M) w) \<and>
     reports M (LoadBalancers_List (am_client M)) w
       (\<lambda>ls. map no_status ls = acc_lbs (am_acct M w) \<and> list_all (settled_status M w) ls) \<and>
     (\<forall>u \<in> lb_UUIDs (am_acct M w). reports M (LoadBalancers_Get (am_client M) u) w
       (\<lambda>l. lb_UUID l = u \<and> no_status l \<in> set (acc_lbs (am_acct M w)) \<and> settled_status M w l)) \<and>
     (\<forall>u. u \<notin> lb_UUIDs (am_acct M w) \<longrightarrow>
       (\<exists>w'. LoadBalancers_Get (am_client M) u w = (Inl (ErrorResponse 404), w') \<and> quiet M w w')) \<and>
     reports M (Pools_List (am_client M)) w (\<lambda>ps. ps = acc_pools (am_acct M w)) \<and>
     (\<forall>u \<in> pool_UUIDs (am_acct M w). reports M (Members_List (am_client M) u) w (\<lambda>ms. ms = acc_members (am_acct M w) u)) \<and>
     reports M (Listeners_List (am_client M)) w (\<lambda>ls. ls = acc_listeners (am_acct M w)) \<and>
     reports M (Monitors_List (am_client M)) w (\<lambda>ms. map no_address ms = acc_monitors (am_acct M w)) \<and>
     reports M (FloatingIPs_List (am_client M)) w (\<lambda>ips. ips = acc_fips (am_acct M w)))"

text \<open>Pauses are not cut short by the context, and those between two rounds bring a change closer to its end.\<close>

definition waits_documented :: "'w api_model \<Rightarrow> bool" where
  "waits_documented M \<longleftrightarrow> (\<forall>w. am_ok M w \<longrightarrow>
     (\<forall>d. \<exists>w'. wait_or_done (am_client M) d w = (False, w') \<and> quiet M w w' \<and>
        (5 * Second \<le> d \<longrightarrow> am_pending M w' \<le> am_pending M w - 1)) \<and>
     (\<forall>n > 0. \<exists>i w'. rand_Intn (am_client M) n w = (i, w') \<and> 0 \<le> i \<and> quiet M w w'))"

definition writes_documented :: "'w api_model \<Rightarrow> bool" where
  "writes_documented M \<longleftrightarrow> (\<forall>w. am_ok M w \<longrightarrow>
     (\<forall>r. am_accepts M (ReqLoadBalancer r) \<longrightarrow> performs M (LoadBalancers_Create (am_client M) r) w (lb_created r)) \<and>
     (\<forall>u \<in> lb_UUIDs (am_acct M w). \<forall>name. am_accepts M (ReqRename name) \<longrightarrow>
        performs M (LoadBalancers_Update (am_client M) u (zero_LoadBalancerRequest\<lparr>lbreq_Name := name\<rparr>)) w (lb_renamed u name)) \<and>
     (\<forall>r. am_accepts M (ReqPool r) \<and> poolreq_LoadBalancer r \<in> lb_UUIDs (am_acct M w) \<longrightarrow>
        performs M (Pools_Create (am_client M) r) w (pool_created r)) \<and>
     (\<forall>u \<in> pool_UUIDs (am_acct M w). \<forall>r. am_accepts M (ReqMember r) \<longrightarrow>
        performs M (Members_Create (am_client M) u r) w (member_created (am_net M) u r)) \<and>
     (\<forall>r. am_accepts M (ReqListener r) \<and> lisreq_Pool r \<in> pool_UUIDs (am_acct M w) \<longrightarrow>
        performs M (Listeners_Create (am_client M) r) w (listener_created r)) \<and>
     (\<forall>u \<in> lis_UUID ` set (acc_listeners (am_acct M w)). \<forall>r. am_accepts M (ReqListenerUpdate r) \<longrightarrow>
        performs M (Listeners_Update (am_client M) u r) w (listener_updated u r)) \<and>
     (\<forall>r. am_accepts M (ReqMonitor r) \<and> monreq_Pool r \<in> pool_UUIDs (am_acct M w) \<longrightarrow>
        performs M (Monitors_Create (am_client M) r) w (monitor_created r)) \<and>
     (\<forall>u \<in> mon_UUID ` set (acc_monitors (am_acct M w)). \<forall>r. am_accepts M (ReqMonitorUpdate r) \<longrightarrow>
        performs M (Monitors_Update (am_client M) u r) w (monitor_updated u r)) \<and>
     (\<forall>addr \<in> fip_address ` set (acc_fips (am_acct M w)). \<forall>u \<in> lb_UUIDs (am_acct M w).
        performs M (FloatingIPs_Update (am_client M) addr u) w (fip_assigned addr u)) \<and>
     (\<forall>url. has_href (am_acct M w) url \<longrightarrow> (\<exists>req. client_NewRequest (am_client M) ''DELETE'' url = Inr req \<and>
        performs M (client_Do (am_client M) req) w (deleted url))))"

definition documented_api :: "'w api_model \<Rightarrow> bool" where
  "documented_api M \<longleftrightarrow> reads_documented M \<and> waits_documented M \<and> writes_documented M"

text \<open>The conditions on the calls, one by one.\<close>

lemma reads_documentedD:
  assumes "reads_documented M" "am_ok M w"
  shows "wf_account (am_acct M w)" "ctx_Err (am_client M) w = None" "valid_site_orders (range_orders (am_client M) w)"
    "reports M (LoadBalancers_List (am_client M)) w
       (\<lambda>ls. map no_status ls = acc_lbs (am_acct M w) \<and> list_all (settled_status M w) ls)"
    "\<And>u. u \<in> lb_UUIDs (am_acct M w) \<Longrightarrow> reports M (LoadBalancers_Get (am_client M) u) w
       (\<lambda>l. lb_UUID l = u \<and> no_status l \<in> set (acc_lbs (am_acct M w)) \<and> settled_status M w l)"
    "\<And>u. u \<notin> lb_UUIDs (am_acct M w) \<Longrightarrow> \<exists>w'. LoadBalancers_Get (am_client M) u w = (Inl (ErrorResponse 404), w') \<and> quiet M w w'"
    "reports M (Pools_List (am_client M)) w (\<lambda>ps. ps = acc_pools (am_acct M w))"
    "\<And>u. u \<in> pool_UUIDs (am_acct M w) \<Longrightarrow> reports M (Members_List (am_client M) u) w (\<lambda>ms. ms = acc_members (am_acct M w) u)"
    "reports M (Listeners_List (am_client M)) w (\<lambda>ls. ls = acc_listeners (am_acct M w))"
    "reports M (Monitors_List (am_client M)) w (\<lambda>ms. map no_address ms = acc_monitors (am_acct M w))"
    "reports M (FloatingIPs_List (am_client M)) w (\<lambda>ips. ips = acc_fips (am_acct M w))"
proof -
  note laws = assms(1) [unfolded reads_documented_def, rule_format, OF assms(2)]
  show "\<And>u. u \<in> lb_UUIDs (am_acct M w) \<Longrightarrow> reports M (LoadBalancers_Get (am_client M) u) w
       (\<lambda>l. lb_UUID l = u \<and> no_status l \<in> set (acc_lbs (am_acct M w)) \<and> settled_status M w l)"
    by (rule bspec [OF laws [THEN conjunct2, THEN conjunct2, THEN conjunct2, THEN conjunct2, THEN conjunct1]])
  show "\<And>u. u \<in> pool_UUIDs (am_acct M w) \<Longrightarrow> reports M (Members_List (am_client M) u) w (\<lambda>ms. ms = acc_members (am_acct M w) u)"
    by (rule bspec [OF laws [THEN conjunct2, THEN conjunct2, THEN conjunct2, THEN conjunct2, THEN conjunct2, THEN conjunct2, THEN conjunct2, THEN conjunct1]])
qed (use assms(1) [unfolded reads_documented_def, rule_format, OF assms(2)] in \<open>simp_all only: simp_thms not_False_eq_True\<close>)

lemma writes_documentedD:
  assumes "writes_documented M" "am_ok M w"
  shows "am_accepts M (ReqLoadBalancer r) \<Longrightarrow> performs M (LoadBalancers_Create (am_client M) r) w (lb_created r)"
    and "u \<in> lb_UUIDs (am_acct M w) \<Longrightarrow> am_accepts M (ReqRename name) \<Longrightarrow> performs M (LoadBalancers_Update (am_client M) u (zero_LoadBalancerRequest\<lparr>lbreq_Name := name\<rparr>)) w (lb_renamed u name)"
    and "am_accepts M (ReqPool rp) \<Longrightarrow> poolreq_LoadBalancer rp \<in> lb_UUIDs (am_acct M w) \<Longrightarrow> performs M (Pools_Create (am_client M) rp) w (pool_created rp)"
    and "u \<in> pool_UUIDs (am_acct M w) \<Longrightarrow> am_accepts M (ReqMember rm) \<Longrightarrow> performs M (Members_Create (am_client M) u rm) w (member_created (am_net M) u rm)"
    and "am_accepts M (ReqListener rl) \<Longrightarrow> lisreq_Pool rl \<in> pool_UUIDs (am_acct M w) \<Longrightarrow> performs M (Listeners_Create (am_client M) rl) w (listener_created rl)"
    and "u \<in> lis_UUID ` set (acc_listeners (am_acct M w)) \<Longrightarrow> am_accepts M (ReqListenerUpdate rl) \<Longrightarrow> performs M (Listeners_Update (am_client M) u rl) w (listener_updated u rl)"
    and "am_accepts M (ReqMonitor ro) \<Longrightarrow> monreq_Pool ro \<in> pool_UUIDs (am_acct M w) \<Longrightarrow> performs M (Monitors_Create (am_client M) ro) w (monitor_created ro)"
    and "u \<in> mon_UUID ` set (acc_monitors (am_acct M w)) \<Longrightarrow> am_accepts M (ReqMonitorUpdate ro) \<Longrightarrow> performs M (Monitors_Update (am_client M) u ro) w (monitor_updated u ro)"
    and "addr \<in> fip_address ` set (acc_fips (am_acct M w)) \<Longrightarrow> U \<in> lb_UUIDs (am_acct M w) \<Longrightarrow> performs M (FloatingIPs_Update (am_client M) addr U) w (fip_assigned addr U)"
    and "has_href (am_acct M w) url \<Longrightarrow> \<exists>req. client_NewRequest (am_client M) ''DELETE'' url = Inr req \<and>
      performs M (client_Do (am_client M) req) w (deleted url)"
proof -
  note laws = assms(1) [unfolded writes_documented_def, rule_format, OF assms(2)]
  show "am_accepts M (ReqLoadBalancer r) \<Longrightarrow> performs M (LoadBalancers_Create (am_client M) r) w (lb_created r)"
    using laws [THEN conjunct1] by blast
  show "u \<in> lb_UUIDs (am_acct M w) \<Longrightarrow> am_accepts M (ReqRename name) \<Longrightarrow> performs M (LoadBalancers_Update (am_client M) u (zero_LoadBalancerRequest\<lparr>lbreq_Name := name\<rparr>)) w (lb_renamed u name)"
    using laws [THEN conjunct2, THEN conjunct1] by blast
  show "am_accepts M (ReqPool rp) \<Longrightarrow> poolreq_LoadBalancer rp \<in> lb_UUIDs (am_acct M w) \<Longrightarrow> performs M (Pools_Create (am_client M) rp) w (pool_created rp)"
    using laws [THEN conjunct2, THEN conjunct2, THEN conjunct1] by blast
  show "u \<in> pool_UUIDs (am_acct M w) \<Longrightarrow> am_accepts M (ReqMember rm) \<Longrightarrow> performs M (Members_Create (am_client M) u rm) w (member_created (am_net M) u rm)"
    using laws [THEN conjunct2, THEN conjunct2, THEN conjunct2, THEN conjunct1] by blast
  show "am_accepts M (ReqListener rl) \<Longrightarrow> lisreq_Pool rl \<in> pool_UUIDs (am_acct M w) \<Longrightarrow> performs M (Listeners_Create (am_client M) rl) w (listener_created rl)"
    using laws [THEN conjunct2, THEN conjunct2, THEN conjunct2, THEN conjunct2, THEN conjunct1] by blast
  show "u \<in> lis_UUID ` set (acc_listeners (am_acct M w)) \<Longrightarrow> am_accepts M (ReqListenerUpdate rl) \<Longrightarrow> performs M (Listeners_Update (am_client M) u rl) w (listener_updated u rl)"
    using laws [THEN conjunct2, THEN conjunct2, THEN conjunct2, THEN conjunct2, THEN conjunct2, THEN conjunct1] by blast
  show "am_accepts M (ReqMonitor ro) \<Longrightarrow> monreq_Pool ro \<in> pool_UUIDs (am_acct M w) \<Longrightarrow> performs M (Monitors_Create (am_client M) ro) w (monitor_created ro)"
    using laws [THEN conjunct2, THEN conjunct2, THEN conjunct2, THEN conjunct2, THEN conjunct2, THEN conjunct2, THEN conjunct1] by blast
  show "u \<in> mon_UUID ` set (acc_monitors (am_acct M w)) \<Longrightarrow> am_accepts M (ReqMonitorUpdate ro) \<Longrightarrow> performs M (Monitors_Update (am_client M) u ro) w (monitor_updated u ro)"
    using laws [THEN conjunct2, THEN conjunct2, THEN conjunct2, THEN conjunct2, THEN conjunct2, THEN conjunct2, THEN conjunct2, THEN conjunct1] by blast
  show "addr \<in> fip_address ` set (acc_fips (am_acct M w)) \<Longrightarrow> U \<in> lb_UUIDs (am_acct M w) \<Longrightarrow> performs M (FloatingIPs_Update (am_client M) addr U) w (fip_assigned addr U)"
    using laws [THEN conjunct2, THEN conjunct2, THEN conjunct2, THEN conjunct2, THEN conjunct2, THEN conjunct2, THEN conjunct2, THEN conjunct2, THEN conjunct1] by blast
  show "has_href (am_acct M w) url \<Longrightarrow> \<exists>req. client_NewRequest (am_client M) ''DELETE'' url = Inr req \<and>
      performs M (client_Do (am_client M) req) w (deleted url)"
    using laws [THEN conjunct2, THEN conjunct2, THEN conjunct2, THEN conjunct2, THEN conjunct2, THEN conjunct2, THEN conjunct2, THEN conjunct2, THEN conjunct2] by blast
qed

text \<open>What an update leaves as it is.\<close>

lemma set_listener_sel [simp]:
  "lis_UUID (set_listener r l) = lis_UUID l" "lis_HREF (set_listener r l) = lis_HREF l" "lis_PoolUUID (set_listener r l) = lis_PoolUUID l"
  by (simp_all add: set_listener_def)

lemma set_monitor_sel [simp]:
  "mon_UUID (set_monitor r m) = mon_UUID m" "mon_HREF (set_monitor r m) = mon_HREF m" "mon_PoolUUID (set_monitor r m) = mon_PoolUUID m"
  by (simp_all add: set_monitor_def)

section \<open>Keys and addresses\<close>

text \<open>
  The reconciler tells the resources in a place apart by key and deletes them by address. This is all
  the structure of a plan depends on: the resources of a place as pairs of key and address.
\<close>

fun items :: "ext \<Rightarrow> account \<Rightarrow> place \<Rightarrow> (string \<times> string) multiset" where
  "items x A Balancers = mset (map (\<lambda>l. (lb_UUID l, lb_HREF l)) (acc_lbs A))"
| "items x A (Pools U) = mset (map (\<lambda>p. (poolKey p, pool_HREF p)) [p \<leftarrow> acc_pools A. pool_LoadBalancerUUID p = U])"
| "items x A (Members u) = mset (map (\<lambda>m. (poolMemberKey x m, mem_HREF m)) (acc_members A u))"
| "items x A (Listeners u) = mset (map (\<lambda>l. (listenerKey x l, lis_HREF l)) (listeners_of A u))"
| "items x A (Monitors u) = mset (map (\<lambda>m. (monitorKey x m, mon_HREF m)) (monitors_of A u))"

lemma items_hrefs: "image_mset snd (items x A pl) = mset (hrefs A pl)"
  by (cases pl) (simp_all add: image_mset.compositionality comp_def)

lemma items_href: "i \<in># items x A pl \<Longrightarrow> snd i \<in> set (hrefs A pl)"
  by (metis image_eqI in_image_mset items_hrefs set_mset_mset)

lemma wf_hrefs:
  assumes "wf_account A"
  shows "live A pl \<Longrightarrow> distinct (hrefs A pl)"
    and "live A pl \<Longrightarrow> live A pl' \<Longrightarrow> url \<in> set (hrefs A pl) \<Longrightarrow> url \<in> set (hrefs A pl') \<Longrightarrow> pl' = pl"
  using assms unfolding wf_account_def by blast+

lemma filter_mset_all: "\<forall>i \<in># M. P i \<Longrightarrow> filter_mset P M = M"
  by (induction M) auto

lemma filter_mset_map: "{#i \<in># mset (map f xs). P i#} = mset (map f [i \<leftarrow> xs. P (f i)])"
  by (simp only: mset_filter [symmetric] filter_map comp_def)

text \<open>The deletion of anything but a load balancer.\<close>

definition removed :: "string \<Rightarrow> account \<Rightarrow> account \<Rightarrow> bool" where
  "removed url A A' \<longleftrightarrow>
     acc_lbs A' = acc_lbs A \<and> acc_pools A' = [p \<leftarrow> acc_pools A. pool_HREF p \<noteq> url] \<and> acc_fips A' = acc_fips A \<and>
     (\<forall>u \<in> pool_UUIDs A'.
        acc_members A' u = [m \<leftarrow> acc_members A u. mem_HREF m \<noteq> url] \<and>
        listeners_of A' u = [l \<leftarrow> listeners_of A u. lis_HREF l \<noteq> url] \<and>
        monitors_of A' u = [m \<leftarrow> monitors_of A u. mon_HREF m \<noteq> url])"

lemma deleted_removed:
  assumes "deleted url A A'" "url \<notin> set (hrefs A Balancers)"
  shows "removed url A A'"
proof -
  have other: "lb_HREF l \<noteq> url" if "l \<in> set (acc_lbs A)" for l using assms(2) that by auto
  then have "gone url A = {}" by (auto simp: gone_def)
  moreover have "[l \<leftarrow> acc_lbs A. lb_HREF l \<noteq> url] = acc_lbs A" using other by (simp add: filter_id_conv)
  moreover have "fs' = fs" if "list_all2 (\<lambda>f f'. fip_Network f' = fip_Network f \<and> f' = f) fs fs'" for fs fs' :: "FloatingIP list"
    using that by (induction rule: list_all2_induct) simp_all
  ultimately show ?thesis using assms(1) by (simp add: deleted_def removed_def)
qed

lemma removed_live: "removed url A A' \<Longrightarrow> live A' pl \<Longrightarrow> live A pl"
  by (cases pl) (auto simp: removed_def)

lemma removed_contents:
  assumes "removed url A A'" "u \<in> pool_UUIDs A'"
  shows "acc_members A' u = [m \<leftarrow> acc_members A u. mem_HREF m \<noteq> url]"
    "listeners_of A' u = [l \<leftarrow> listeners_of A u. lis_HREF l \<noteq> url]"
    "monitors_of A' u = [m \<leftarrow> monitors_of A u. mon_HREF m \<noteq> url]"
  using assms unfolding removed_def by blast+

lemma removed_items:
  assumes "removed url A A'" "live A' pl" "pl \<noteq> Balancers"
  shows "items x A' pl = {#i \<in># items x A pl. snd i \<noteq> url#}"
proof (cases pl)
  case (Pools U)
  have "[p \<leftarrow> acc_pools A'. pool_LoadBalancerUUID p = U] = [p \<leftarrow> [p \<leftarrow> acc_pools A. pool_LoadBalancerUUID p = U]. pool_HREF p \<noteq> url]"
    using assms(1) by (simp add: removed_def conj_commute)
  then show ?thesis by (simp only: Pools items.simps filter_mset_map snd_conv)
qed (use assms(2,3) removed_contents [OF assms(1)] in \<open>simp_all only: live.simps items.simps filter_mset_map snd_conv\<close>)

text \<open>The changes of a plan concern one place at a time.\<close>

definition only_changes :: "ext \<Rightarrow> place set \<Rightarrow> account \<Rightarrow> account \<Rightarrow> bool" where
  "only_changes x P A A' \<longleftrightarrow> acc_lbs A' = acc_lbs A \<and> acc_pools A' = acc_pools A \<and> acc_fips A' = acc_fips A \<and>
     (\<forall>pl. pl \<notin> P \<and> live A pl \<longrightarrow> items x A' pl = items x A pl)"

fun in_pool :: "place \<Rightarrow> bool" where
  "in_pool Balancers = False"
| "in_pool (Pools U) = False"
| "in_pool _ = True"

lemma live_pools: "acc_pools A' = acc_pools A \<Longrightarrow> live A' pl = live A pl"
  by (cases pl) simp_all

lemma only_changes_live: "only_changes x P A A' \<Longrightarrow> live A' pl = live A pl"
  by (rule live_pools) (simp add: only_changes_def)

lemma only_changes_refl [simp]: "only_changes x P A A"
  by (simp add: only_changes_def)

lemma only_changes_trans:
  assumes "only_changes x P A B" "only_changes x Q B C"
  shows "only_changes x (P \<union> Q) A C"
  using assms only_changes_live [OF assms(1)] by (simp add: only_changes_def)

lemma only_changes_items: "only_changes x P A A' \<Longrightarrow> pl \<notin> P \<Longrightarrow> live A pl \<Longrightarrow> items x A' pl = items x A pl"
  by (simp add: only_changes_def)

lemma deleted_in_pool:
  assumes "wf_account A" "deleted url A A'" "live A pl" "in_pool pl" "url \<in> set (hrefs A pl)"
  shows "only_changes x {pl} A A'" "items x A' pl = {#i \<in># items x A pl. snd i \<noteq> url#}"
proof -
  have other: "url \<notin> set (hrefs A pl')" if "live A pl'" "pl' \<noteq> pl" for pl'
    using wf_hrefs(2) [OF assms(1,3) that(1) assms(5)] that(2) by blast
  have "url \<notin> set (hrefs A Balancers)" by (rule other) (use assms(4) in auto)
  then have rem: "removed url A A'" by (rule deleted_removed [OF assms(2)])
  then have lbs: "acc_lbs A' = acc_lbs A" by (simp add: removed_def)
  have "pool_HREF p \<noteq> url" if "p \<in> set (acc_pools A)" for p
    using other [of "Pools (pool_LoadBalancerUUID p)"] that assms(4) by (cases pl) auto
  then have pools: "acc_pools A' = acc_pools A" using rem by (auto simp: removed_def filter_id_conv)
  have "items x A' pl' = items x A pl'" if "pl' \<noteq> pl" "live A pl'" for pl'
  proof -
    have "\<forall>i \<in># items x A pl'. snd i \<noteq> url" using other [OF that(2,1)] items_href by blast
    then have "{#i \<in># items x A pl'. snd i \<noteq> url#} = items x A pl'" by (rule filter_mset_all)
    then show ?thesis using removed_items [OF rem, of pl' x] that(2) live_pools [OF pools, of pl'] lbs by (cases "pl' = Balancers") simp_all
  qed
  with lbs pools show "only_changes x {pl} A A'" using rem by (simp add: only_changes_def removed_def)
  show "items x A' pl = {#i \<in># items x A pl. snd i \<noteq> url#}"
    using removed_items [OF rem] live_pools [OF pools, of pl] assms(3,4) by (cases "pl = Balancers") simp_all
qed

lemma added_items:
  assumes "added i xs xs'"
  shows "mset (map f [i \<leftarrow> xs'. P i]) = (if P i then add_mset (f i) (mset (map f [i \<leftarrow> xs. P i])) else mset (map f [i \<leftarrow> xs. P i]))"
  using assms by (simp add: added_def)

text \<open>A creation puts one more resource with the requested key in its place.\<close>

definition puts :: "ext \<Rightarrow> place \<Rightarrow> string \<Rightarrow> account \<Rightarrow> account \<Rightarrow> bool" where
  "puts x pl k A A' \<longleftrightarrow> only_changes x {pl} A A' \<and> (\<exists>h. items x A' pl = add_mset (k, h) (items x A pl))"

lemma pool_created_items:
  assumes "pool_created (CreatePool_request U p) A A'"
  shows "\<exists>h. items x A' (Pools U) = add_mset (poolKey p, h) (items x A (Pools U))"
    and "acc_lbs A' = acc_lbs A" "acc_fips A' = acc_fips A" "acc_members A' = acc_members A"
    and "listeners_of A' = listeners_of A" "monitors_of A' = monitors_of A" "pool_UUIDs A \<subseteq> pool_UUIDs A'"
proof -
  obtain q where q: "added q (acc_pools A) (acc_pools A')" "poolKey q = poolKey p" "pool_LoadBalancerUUID q = U" and
    A': "A' = A\<lparr>acc_pools := acc_pools A'\<rparr>"
    using assms by (auto simp: pool_created_def CreatePool_request_def poolKey_def)
  show "\<exists>h. items x A' (Pools U) = add_mset (poolKey p, h) (items x A (Pools U))"
    using added_items [OF q(1), of "\<lambda>p. (poolKey p, pool_HREF p)" "\<lambda>p. pool_LoadBalancerUUID p = U"] q(2,3)
    by (simp only: items.simps if_True simp_thms) blast
  have "set (acc_pools A') = insert q (set (acc_pools A))"
    using q(1) unfolding added_def by (metis set_mset_add_mset_insert set_mset_mset)
  then show "pool_UUIDs A \<subseteq> pool_UUIDs A'" by auto
  show "acc_lbs A' = acc_lbs A" "acc_fips A' = acc_fips A" "acc_members A' = acc_members A"
    by (subst A', simp)+
  show "listeners_of A' = listeners_of A" "monitors_of A' = monitors_of A"
    by (subst A', simp add: fun_eq_iff listeners_of_def monitors_of_def)+
qed

lemma member_puts:
  assumes "member_created net u (CreatePoolMember_request m) A A'" "mem_Enabled m" "mem_Subnet m = net (subnet_UUID (mem_Subnet m))"
  shows "puts x (Members u) (poolMemberKey x m) A A'"
proof -
  obtain n where n: "added n (acc_members A u) (acc_members A' u)" "poolMemberKey x n = poolMemberKey x m" and
    A': "A' = A\<lparr>acc_members := (acc_members A)(u := acc_members A' u)\<rparr>"
    using assms by (auto simp: member_created_def CreatePoolMember_request_def poolMemberKey_def)
  have same: "acc_lbs A' = acc_lbs A" "acc_pools A' = acc_pools A" "acc_listeners A' = acc_listeners A"
    "acc_monitors A' = acc_monitors A" "acc_fips A' = acc_fips A" by (subst A', simp)+
  moreover have "acc_members A' v = acc_members A v" if "v \<noteq> u" for v by (subst A', simp add: that)
  ultimately have "items x A' pl = items x A pl" if "pl \<noteq> Members u" for pl
    using that by (cases pl) (simp_all add: listeners_of_def monitors_of_def)
  moreover have "items x A' (Members u) = add_mset (poolMemberKey x m, mem_HREF n) (items x A (Members u))"
    using n by (simp add: added_def)
  ultimately show ?thesis using same by (auto simp: puts_def only_changes_def)
qed

lemma listener_puts:
  assumes "listener_created (CreateListener_request u l) A A'"
  shows "puts x (Listeners u) (listenerKey x l) A A'"
proof -
  obtain n where n: "added n (acc_listeners A) (acc_listeners A')" "listenerKey x n = listenerKey x l" "lis_PoolUUID n = Some u" and
    A': "A' = A\<lparr>acc_listeners := acc_listeners A'\<rparr>"
    using assms by (auto simp: listener_created_def CreateListener_request_def listenerKey_def)
  have same: "acc_lbs A' = acc_lbs A" "acc_pools A' = acc_pools A" "acc_members A' = acc_members A"
    "acc_monitors A' = acc_monitors A" "acc_fips A' = acc_fips A" by (subst A', simp)+
  have put: "items x A' (Listeners v) = (if v = u then add_mset (listenerKey x l, lis_HREF n) (items x A (Listeners v)) else items x A (Listeners v))" for v
    using added_items [OF n(1), of "\<lambda>l. (listenerKey x l, lis_HREF l)" "\<lambda>l. lis_PoolUUID l = Some v"] n(2,3)
    by (simp only: items.simps listeners_of_def option.inject eq_commute [of u])
  have "items x A' pl = items x A pl" if "pl \<noteq> Listeners u" for pl
  proof (cases pl)
    case (Listeners v)
    with that have "v \<noteq> u" by simp
    with put [of v] Listeners show ?thesis by (simp only: if_False)
  qed (use same in \<open>simp_all add: monitors_of_def\<close>)
  with put [of u] same show ?thesis unfolding puts_def only_changes_def by auto
qed

lemma request_version:
  "(case monreq_HTTP (CreateHealthMonitor_request u m) of Some h \<Rightarrow> given [] (httpreq_Version h) ''1.1'' | None \<Rightarrow> ''1.1'') =
     mon_version m"
  by (cases "mon_HTTP m") (simp_all add: CreateHealthMonitor_request_def mon_version_def zero_MonitorHTTP_def)

lemma monitorKey_version: "monitorKey x m = fmt_Sprintf (x_sprintf x) (mon_Type m) [GString (mon_version m)]"
  by (auto simp: monitorKey_def mon_version_def split: option.split)

lemma monitor_puts:
  assumes "monitor_created (CreateHealthMonitor_request u m) A A'"
  shows "puts x (Monitors u) (monitorKey x m) A A'"
proof -
  obtain n where n: "added n (acc_monitors A) (acc_monitors A')" "mon_PoolUUID n = u" "mon_Type n = mon_Type m"
    "mon_version n = mon_version m" and A': "A' = A\<lparr>acc_monitors := acc_monitors A'\<rparr>"
    using assms unfolding monitor_created_def request_version by (auto simp: CreateHealthMonitor_request_def Let_def)
  have same: "acc_lbs A' = acc_lbs A" "acc_pools A' = acc_pools A" "acc_members A' = acc_members A"
    "acc_listeners A' = acc_listeners A" "acc_fips A' = acc_fips A" by (subst A', simp)+
  have put: "items x A' (Monitors v) = (if v = u then add_mset (monitorKey x m, mon_HREF n) (items x A (Monitors v)) else items x A (Monitors v))" for v
    using added_items [OF n(1), of "\<lambda>m. (monitorKey x m, mon_HREF m)" "\<lambda>m. mon_PoolUUID m = v"] n(2,3,4) monitorKey_version
    by (simp only: items.simps monitors_of_def eq_commute [of u])
  have "items x A' pl = items x A pl" if "pl \<noteq> Monitors u" for pl
  proof (cases pl)
    case (Monitors v)
    with that have "v \<noteq> u" by simp
    with put [of v] Monitors show ?thesis by (simp only: if_False)
  qed (use same in \<open>simp_all add: listeners_of_def\<close>)
  with put [of u] same show ?thesis unfolding puts_def only_changes_def by auto
qed

end
