(* ===== verification/Plan_Effects.thy ===== *)
theory Plan_Effects
  imports Account
begin

text \<open>
  What running a plan does to the account, under the documented behaviour of the API. The condition
  \<open>wp M acts Q A\<close> says that running the actions on the account \<open>A\<close> succeeds, asks for no fresh look, and
  leaves an account with \<open>Q\<close>, whatever the API picks; the rules below follow the structure of plans.
\<close>

declare items.simps [simp del] hrefs.simps [simp del]

section \<open>Running actions on an account\<close>

definition wp :: "'w api_model \<Rightarrow> action list \<Rightarrow> (account \<Rightarrow> bool) \<Rightarrow> account \<Rightarrow> bool" where
  "wp M acts Q A \<longleftrightarrow> (\<forall>x w. am_ok M w \<and> am_acct M w = A \<longrightarrow>
     (\<exists>w'. runActions x (am_client M) acts w = (Ok False, w') \<and> am_ok M w' \<and> Q (am_acct M w')))"

lemma wp_Nil: "Q A \<Longrightarrow> wp M [] Q A"
  by (simp add: wp_def)

lemma wp_append:
  assumes "wp M as (wp M bs Q) A"
  shows "wp M (as @ bs) Q A"
  unfolding wp_def
proof (intro allI impI)
  fix x w assume "am_ok M w \<and> am_acct M w = A"
  then obtain w1 where one: "runActions x (am_client M) as w = (Ok False, w1)" "am_ok M w1" "wp M bs Q (am_acct M w1)"
    using assms unfolding wp_def by blast
  then obtain w2 where "runActions x (am_client M) bs w1 = (Ok False, w2)" "am_ok M w2" "Q (am_acct M w2)"
    unfolding wp_def by blast
  with one(1) show "\<exists>w'. runActions x (am_client M) (as @ bs) w = (Ok False, w') \<and> am_ok M w' \<and> Q (am_acct M w')"
    by (simp add: runActions_append)
qed

lemma wp_mono: "wp M acts P A \<Longrightarrow> (\<And>A'. P A' \<Longrightarrow> Q A') \<Longrightarrow> wp M acts Q A"
  unfolding wp_def by blast

text \<open>A loop that appends actions, with an invariant over the part of the list it has gone through.\<close>

lemma wp_concat:
  assumes "\<And>ys y zs B. xs = ys @ y # zs \<Longrightarrow> J ys B \<Longrightarrow> wp M (f y) (J (ys @ [y])) B" "J [] A"
  shows "wp M (concat (map f xs)) (J xs) A"
proof -
  have "wp M (concat (map f ys)) (J ys) A" if "xs = ys @ zs" for ys zs
    using that
  proof (induction ys arbitrary: zs rule: rev_induct)
    case (snoc y ys)
    then have "wp M (concat (map f ys)) (J ys) A" by simp
    then have "wp M (concat (map f ys) @ f y) (J (ys @ [y])) A"
      by (intro wp_append) (erule wp_mono, rule assms(1), use snoc.prems in simp_all)
    then show ?case by simp
  qed (simp add: wp_Nil assms(2))
  then show ?thesis by simp
qed

text \<open>The laws of a documented API, one by one.\<close>

lemma api_wf: "documented_api M \<Longrightarrow> am_ok M w \<Longrightarrow> wf_account (am_acct M w)"
  by (rule reads_documentedD(1)) (simp add: documented_api_def)

lemma api_ctx: "documented_api M \<Longrightarrow> am_ok M w \<Longrightarrow> ctx_Err (am_client M) w = None"
  by (rule reads_documentedD(2)) (simp add: documented_api_def)

lemma api_wait:
  assumes "documented_api M" "am_ok M w"
  obtains w' where "wait_or_done (am_client M) d w = (False, w')" "quiet M w w'"
    "5 * Second \<le> d \<Longrightarrow> am_pending M w' \<le> am_pending M w - 1"
  using assms unfolding documented_api_def waits_documented_def by blast

lemma api_writes: "documented_api M \<Longrightarrow> writes_documented M"
  by (simp add: documented_api_def)

lemma wp_one:
  assumes "documented_api M"
    and "\<And>w. am_ok M w \<Longrightarrow> am_acct M w = A \<Longrightarrow>
      \<exists>w'. Run (am_client M) a w = ((Proceed, None), w') \<and> am_ok M w' \<and> Q (am_acct M w')"
  shows "wp M [a] Q A"
  unfolding wp_def
proof (intro allI impI)
  fix x w assume "am_ok M w \<and> am_acct M w = A"
  moreover from this obtain w' where "Run (am_client M) a w = ((Proceed, None), w')" "am_ok M w'" "Q (am_acct M w')"
    using assms(2) by blast
  ultimately show "\<exists>w'. runActions x (am_client M) [a] w = (Ok False, w') \<and> am_ok M w' \<and> Q (am_acct M w')"
    using api_ctx [OF assms(1)] by (simp add: control_defs del: Run.simps)
qed

text \<open>An action that sends one writing request.\<close>

lemma wp_call:
  assumes "documented_api M" "\<And>w. Run (am_client M) a w = proceed_call call w"
    and "\<And>w. am_ok M w \<Longrightarrow> am_acct M w = A \<Longrightarrow> performs M call w R"
    and "\<And>A'. R A A' \<Longrightarrow> wf_account A' \<Longrightarrow> Q A'"
  shows "wp M [a] Q A"
proof (rule wp_one [OF assms(1)])
  fix w assume w: "am_ok M w" "am_acct M w = A"
  then obtain w' where "call w = (None, w')" "am_ok M w'" "R A (am_acct M w')"
    using assms(3) by (auto simp: performs_def)
  then show "\<exists>w'. Run (am_client M) a w = ((Proceed, None), w') \<and> am_ok M w' \<and> Q (am_acct M w')"
    using assms(4) api_wf [OF assms(1)] by (auto simp: assms(2) proceed_call_def ProceedOnSuccess_def)
qed

lemma wp_sleep:
  assumes "documented_api M" "Q A"
  shows "wp M [SleepAction d] Q A"
proof (rule wp_one [OF assms(1)])
  fix w assume w: "am_ok M w" "am_acct M w = A"
  obtain w' where "wait_or_done (am_client M) d w = (False, w')" "quiet M w w'"
    by (rule api_wait [OF assms(1) w(1)])
  then show "\<exists>w'. Run (am_client M) (SleepAction d) w = ((Proceed, None), w') \<and> am_ok M w' \<and> Q (am_acct M w')"
    using w assms(2) by (auto simp: quiet_def)
qed

lemma wp_delete_one:
  assumes "documented_api M" "has_href A url" "\<And>A'. deleted url A A' \<Longrightarrow> wf_account A' \<Longrightarrow> Q A'"
  shows "wp M [DeleteResourceAction url] Q A"
proof (rule wp_one [OF assms(1)])
  fix w assume w: "am_ok M w" "am_acct M w = A"
  then obtain req where req: "client_NewRequest (am_client M) ''DELETE'' url = Inr req"
    "performs M (client_Do (am_client M) req) w (deleted url)"
    using writes_documentedD(10) [OF api_writes [OF assms(1)] w(1)] assms(2) by blast
  then obtain w' where "client_Do (am_client M) req w = (None, w')" "am_ok M w'" "deleted url A (am_acct M w')"
    using w(2) by (auto simp: performs_def)
  then show "\<exists>w'. Run (am_client M) (DeleteResourceAction url) w = ((Proceed, None), w') \<and> am_ok M w' \<and> Q (am_acct M w')"
    using assms(3) api_wf [OF assms(1)] by (auto simp: req(1) proceed_call_def ProceedOnSuccess_def)
qed

lemma wp_delete:
  assumes "documented_api M" "has_href A url" "\<And>A'. deleted url A A' \<Longrightarrow> wf_account A' \<Longrightarrow> Q A'"
  shows "wp M (deleteResource url) Q A"
proof -
  have "wp M ([DeleteResourceAction url] @ [SleepAction (500 * Millisecond)]) Q A"
    by (rule wp_append, rule wp_mono [OF wp_delete_one [OF assms]], assumption+, rule wp_sleep [OF assms(1)])
  then show ?thesis by (simp add: deleteResource_def)
qed

lemma wp_create_pool:
  assumes "documented_api M" "U \<in> lb_UUIDs A" "am_accepts M (ReqPool (CreatePool_request U p))"
    and "\<And>A'. pool_created (CreatePool_request U p) A A' \<Longrightarrow> wf_account A' \<Longrightarrow> Q A'"
  shows "wp M [CreatePoolAction U p] Q A"
proof (rule wp_call [OF assms(1), where call = "Pools_Create (am_client M) (CreatePool_request U p)"])
  fix w assume w: "am_ok M w" "am_acct M w = A"
  show "performs M (Pools_Create (am_client M) (CreatePool_request U p)) w (pool_created (CreatePool_request U p))"
    by (rule writes_documentedD(3) [OF api_writes [OF assms(1)] w(1) assms(3)]) (simp add: CreatePool_request_def w(2) assms(2))
qed (simp, rule assms(4))

lemma wp_create_member:
  assumes "documented_api M" "u \<in> pool_UUIDs A" "am_accepts M (ReqMember (CreatePoolMember_request m))"
    and "mem_Enabled m" "mem_Subnet m = am_net M (subnet_UUID (mem_Subnet m))"
  shows "wp M [CreatePoolMemberAction u m] (puts x (Members u) (poolMemberKey x m) A) A"
proof (rule wp_call [OF assms(1), where call = "Members_Create (am_client M) u (CreatePoolMember_request m)"])
  fix w assume w: "am_ok M w" "am_acct M w = A"
  show "performs M (Members_Create (am_client M) u (CreatePoolMember_request m)) w
      (member_created (am_net M) u (CreatePoolMember_request m))"
    by (rule writes_documentedD(4) [OF api_writes [OF assms(1)] w(1) _ assms(3)]) (simp add: w(2) assms(2))
qed (simp, erule member_puts [where net = "am_net M"], rule assms(4), rule assms(5))

lemma wp_create_listener:
  assumes "documented_api M" "u \<in> pool_UUIDs A" "am_accepts M (ReqListener (CreateListener_request u l))"
  shows "wp M [CreateListenerAction u l] (puts x (Listeners u) (listenerKey x l) A) A"
proof (rule wp_call [OF assms(1), where call = "Listeners_Create (am_client M) (CreateListener_request u l)"])
  fix w assume w: "am_ok M w" "am_acct M w = A"
  show "performs M (Listeners_Create (am_client M) (CreateListener_request u l)) w
      (listener_created (CreateListener_request u l))"
    by (rule writes_documentedD(5) [OF api_writes [OF assms(1)] w(1) assms(3)]) (simp add: CreateListener_request_def w(2) assms(2))
qed (simp, rule listener_puts)

lemma wp_create_monitor:
  assumes "documented_api M" "u \<in> pool_UUIDs A" "am_accepts M (ReqMonitor (CreateHealthMonitor_request u m))"
  shows "wp M [CreateHealthMonitorAction u m] (puts x (Monitors u) (monitorKey x m) A) A"
proof (rule wp_call [OF assms(1), where call = "Monitors_Create (am_client M) (CreateHealthMonitor_request u m)"])
  fix w assume w: "am_ok M w" "am_acct M w = A"
  show "performs M (Monitors_Create (am_client M) (CreateHealthMonitor_request u m)) w
      (monitor_created (CreateHealthMonitor_request u m))"
    by (rule writes_documentedD(7) [OF api_writes [OF assms(1)] w(1) assms(3)])
       (simp add: CreateHealthMonitor_request_def Let_def w(2) assms(2))
qed (simp, rule monitor_puts)

section \<open>The blocks of a plan\<close>

lemma wp_wf:
  assumes "documented_api M" "wp M acts Q A"
  shows "wp M acts (\<lambda>A'. Q A' \<and> wf_account A') A"
  using assms(2) api_wf [OF assms(1)] unfolding wp_def by blast

text \<open>Deleting several resources of one place.\<close>

lemma wp_delete_all:
  assumes "documented_api M" "wf_account A" "live A pl" "in_pool pl"
    and "distinct (map href del)" "href ` set del \<subseteq> set (hrefs A pl)"
  shows "wp M (concat (map (deleteResource \<circ> href) del))
    (\<lambda>A'. wf_account A' \<and> only_changes x {pl} A A' \<and> items x A' pl = {#i \<in># items x A pl. snd i \<notin> href ` set del#}) A"
proof (rule wp_concat [where J = "\<lambda>ys B. wf_account B \<and> only_changes x {pl} A B \<and>
    items x B pl = {#i \<in># items x A pl. snd i \<notin> href ` set ys#}"])
  fix ys y zs B
  assume split: "del = ys @ y # zs" and B: "wf_account B \<and> only_changes x {pl} A B \<and>
    items x B pl = {#i \<in># items x A pl. snd i \<notin> href ` set ys#}"
  have live: "live B pl" using B assms(3) only_changes_live by blast
  have "href y \<in># image_mset snd (items x A pl)" using assms(6) split by (auto simp: items_hrefs)
  then obtain i where "i \<in># items x A pl" "snd i = href y" by auto
  moreover have "href y \<notin> href ` set ys" using assms(5) split by auto
  ultimately have "i \<in># items x B pl" using B by auto
  then have here: "href y \<in> set (hrefs B pl)" using items_href \<open>snd i = href y\<close> by metis
  show "wp M ((deleteResource \<circ> href) y) (\<lambda>C. wf_account C \<and> only_changes x {pl} A C \<and>
      items x C pl = {#i \<in># items x A pl. snd i \<notin> href ` set (ys @ [y])#}) B"
    unfolding comp_def
  proof (rule wp_delete [OF assms(1)])
    show "has_href B (href y)" using here live unfolding has_href_def by blast
    fix C assume C: "deleted (href y) B C" "wf_account C"
    note one = deleted_in_pool [OF conjunct1 [OF B] C(1) live assms(4) here, of x]
    have "only_changes x {pl} A C" using only_changes_trans [OF _ one(1)] B by force
    moreover have "items x C pl = {#i \<in># items x A pl. snd i \<notin> href ` set (ys @ [y])#}"
      using one(2) B by (simp add: filter_filter_mset conj_commute disj_commute)
    ultimately show "wf_account C \<and> only_changes x {pl} A C \<and>
      items x C pl = {#i \<in># items x A pl. snd i \<notin> href ` set (ys @ [y])#}" using C(2) by blast
  qed
qed (use assms(2) in simp)

text \<open>Creating several resources in one place.\<close>

lemma wp_create_all:
  assumes "live A pl" "\<And>i B. i \<in> set cre \<Longrightarrow> live B pl \<Longrightarrow> wp M [create i] (puts x pl (key i) B) B"
  shows "wp M (map create cre)
    (\<lambda>A'. only_changes x {pl} A A' \<and> (\<exists>N. items x A' pl = items x A pl + N \<and> image_mset fst N = mset (map key cre))) A"
proof -
  let ?J = "\<lambda>ys B. only_changes x {pl} A B \<and> (\<exists>N. items x B pl = items x A pl + N \<and> image_mset fst N = mset (map key ys))"
  have "wp M (concat (map (\<lambda>i. [create i]) cre)) (?J cre) A"
  proof (rule wp_concat [where J = ?J])
    fix ys y zs B assume split: "cre = ys @ y # zs" and B: "?J ys B"
    then have "wp M [create y] (puts x pl (key y) B) B"
      using assms only_changes_live by (metis in_set_conv_decomp)
    then show "wp M [create y] (?J (ys @ [y])) B"
    proof (rule wp_mono)
      fix C assume "puts x pl (key y) B C"
      then obtain h where C: "only_changes x {pl} B C" "items x C pl = add_mset (key y, h) (items x B pl)"
        by (auto simp: puts_def)
      from B obtain N where N: "items x B pl = items x A pl + N" "image_mset fst N = mset (map key ys)" by blast
      have "only_changes x {pl} A C" using only_changes_trans [OF _ C(1)] B by force
      moreover have "items x C pl = items x A pl + add_mset (key y, h) N" "image_mset fst (add_mset (key y, h) N) = mset (map key (ys @ [y]))"
        using C(2) N by simp_all
      ultimately show "?J (ys @ [y]) C" by blast
    qed
  qed simp
  then show ?thesis by (simp add: concat_map_singleton)
qed

lemma recreate_gap:
  assumes "valid_orders ords" "Diff ords d a key = (del, cre)" "distinct (map href a)"
    and "its = mset (map (\<lambda>i. (key i, href i)) a)" "its' = {#i \<in># its. snd i \<notin> href ` set del#} + N"
    and "image_mset fst N = mset (map key cre)"
  shows "gap (key ` set d) (image_mset fst its') + (if recreate ords d a key href create = [] then 0 else 1)
    \<le> gap (key ` set d) (image_mset fst its)"
proof -
  have "image_mset fst {#i \<in># its. snd i \<notin> href ` set del#} = {#key i. i \<in># mset [i \<leftarrow> a. href i \<notin> href ` set del]#}"
    unfolding assms(4) filter_mset_map by (simp add: image_mset.compositionality comp_def)
  then have new: "image_mset fst its' = {#key i. i \<in># mset [i \<leftarrow> a. href i \<notin> href ` set del]#} + mset (map key cre)"
    using assms(5,6) by simp
  have old: "image_mset fst its = mset (map key a)" by (simp add: assms(4) image_mset.compositionality comp_def)
  show ?thesis
  proof (cases "del = [] \<and> cre = []")
    case True
    then have "recreate ords d a key href create = []" by (simp add: recreate_def assms(2))
    with True show ?thesis by (simp add: new old)
  next
    case False
    then have "gap (key ` set d) (image_mset fst its') < gap (key ` set d) (image_mset fst its)"
      unfolding new old using go_diff.apply_gap [OF assms(1,2) _ assms(3) refl] by blast
    then show ?thesis by simp
  qed
qed

text \<open>
  One of the three blocks for the contents of a pool: it changes its place only, and brings the keys
  there closer to the desired ones if it does anything.
\<close>

lemma wp_recreate:
  assumes "documented_api M" "valid_orders ords" "wf_account A" "live A pl" "in_pool pl"
    and "items x A pl = mset (map (\<lambda>i. (key i, href i)) a)"
    and "\<And>i B. i \<in> set d \<Longrightarrow> live B pl \<Longrightarrow> wp M [create i] (puts x pl (key i) B) B"
  shows "wp M (recreate ords d a key href create) (\<lambda>A'. only_changes x {pl} A A' \<and>
    gap (key ` set d) (image_mset fst (items x A' pl)) + (if recreate ords d a key href create = [] then 0 else 1)
      \<le> gap (key ` set d) (image_mset fst (items x A pl))) A"
proof -
  obtain del cre where diff: "Diff ords d a key = (del, cre)" by fastforce
  let ?K = "key ` set d" and ?R = "{#i \<in># items x A pl. snd i \<notin> href ` set del#}"
  let ?Q = "\<lambda>A'. only_changes x {pl} A A' \<and> (\<exists>N. items x A' pl = ?R + N \<and> image_mset fst N = mset (map key cre))"
  have "mset (hrefs A pl) = mset (map href a)"
    using assms(6) items_hrefs [of x A pl] by (simp add: image_mset.compositionality comp_def)
  then have hrefs: "distinct (map href a)" "set (hrefs A pl) = href ` set a"
    using wf_hrefs(1) [OF assms(3,4)] by (metis mset_eq_imp_distinct_iff, metis list.set_map mset_eq_setD)
  note sub = go_diff.delete_subset [OF assms(2) diff] and once = go_diff.delete_once [OF assms(2) diff]
  have "distinct (map href del)"
    using sub once hrefs(1) by (metis distinct_map inj_on_subset)
  moreover have "href ` set del \<subseteq> set (hrefs A pl)" using sub hrefs(2) by auto
  ultimately have dels: "wp M (concat (map (deleteResource \<circ> href) del))
      (\<lambda>A'. wf_account A' \<and> only_changes x {pl} A A' \<and> items x A' pl = ?R) A"
    by (rule wp_delete_all [OF assms(1,3,4,5)])
  have "wp M (map create cre) ?Q B" if B: "only_changes x {pl} A B" "items x B pl = ?R" for B
  proof (rule wp_mono [OF wp_create_all])
    show "live B pl" using B(1) assms(4) only_changes_live by blast
    show "wp M [create i] (puts x pl (key i) C) C" if "i \<in> set cre" "live C pl" for i C
      by (rule assms(7)) (use that go_diff.create_subset [OF assms(2) diff] in blast)+
    fix C assume "only_changes x {pl} B C \<and> (\<exists>N. items x C pl = items x B pl + N \<and> image_mset fst N = mset (map key cre))"
    with B show "?Q C" using only_changes_trans [of x "{pl}" A B "{pl}" C] by force
  qed
  then have rest: "wp M ((if length del > 0 \<and> length cre > 0 then [SleepAction (5 * Second)] else []) @ map create cre) ?Q B"
    if "only_changes x {pl} A B" "items x B pl = ?R" for B
    using that by (intro wp_append) (auto intro: wp_sleep [OF assms(1)] wp_Nil)
  have "wp M (recreate ords d a key href create) ?Q A"
    unfolding recreate_def diff prod.case by (rule wp_append, rule wp_mono [OF dels], rule rest) blast+
  then show ?thesis
  proof (rule wp_mono)
    fix A' assume "?Q A'"
    then obtain N where N: "only_changes x {pl} A A'" "items x A' pl = ?R + N" "image_mset fst N = mset (map key cre)" by blast
    with recreate_gap [OF assms(2) diff hrefs(1) assms(6) N(2,3)]
    show "only_changes x {pl} A A' \<and>
      gap ?K (image_mset fst (items x A' pl)) + (if recreate ords d a key href create = [] then 0 else 1)
        \<le> gap ?K (image_mset fst (items x A pl))" by blast
  qed
qed

section \<open>The contents of the pools\<close>

text \<open>The requests for the contents of the desired pools are ones the API accepts and carries out as written.\<close>

definition feasible_contents :: "'w api_model \<Rightarrow> lbState \<Rightarrow> pool_ref \<Rightarrow> bool" where
  "feasible_contents M desired e \<longleftrightarrow>
     (\<forall>m \<in> set (st_members desired (Some (fst e))). am_accepts M (ReqMember (CreatePoolMember_request m)) \<and>
        mem_Enabled m \<and> mem_Subnet m = am_net M (subnet_UUID (mem_Subnet m))) \<and>
     (\<forall>l \<in> set (st_listeners desired (Some (fst e))). \<forall>u. am_accepts M (ReqListener (CreateListener_request u l))) \<and>
     (\<forall>m \<in> set (st_monitors desired (Some (fst e))). \<forall>u. am_accepts M (ReqMonitor (CreateHealthMonitor_request u m)))"

text \<open>The state \<open>s\<close> has, under the pointer \<open>q\<close>, what the account has in the pool \<open>u\<close>.\<close>

definition shows_contents :: "ext \<Rightarrow> lbState \<Rightarrow> nat \<Rightarrow> account \<Rightarrow> string \<Rightarrow> bool" where
  "shows_contents x s q A u \<longleftrightarrow>
     items x A (Members u) = mset (map (\<lambda>m. (poolMemberKey x m, mem_HREF m)) (st_members s (Some q))) \<and>
     items x A (Listeners u) = mset (map (\<lambda>l. (listenerKey x l, lis_HREF l)) (st_listeners s (Some q))) \<and>
     items x A (Monitors u) = mset (map (\<lambda>m. (monitorKey x m, mon_HREF m)) (st_monitors s (Some q)))"

abbreviation pool_places :: "string \<Rightarrow> place set" where
  "pool_places u \<equiv> {Members u, Listeners u, Monitors u}"

lemma shows_contents_cong:
  assumes "only_changes x P A A'" "u \<in> pool_UUIDs A" "P \<inter> pool_places u = {}"
  shows "shows_contents x s q A' u \<longleftrightarrow> shows_contents x s q A u"
proof -
  have "items x A' pl = items x A pl" if "pl \<in> pool_places u" for pl
    by (rule only_changes_items [OF assms(1)]) (use that assms(2,3) in auto)
  then show ?thesis unfolding shows_contents_def by simp
qed

definition contents_gap :: "ext \<Rightarrow> lbState \<Rightarrow> pool_ref \<Rightarrow> string \<Rightarrow> account \<Rightarrow> nat" where
  "contents_gap x desired e u A =
     gap (poolMemberKey x ` set (st_members desired (Some (fst e)))) (image_mset fst (items x A (Members u))) +
     gap (listenerKey x ` set (st_listeners desired (Some (fst e)))) (image_mset fst (items x A (Listeners u))) +
     gap (monitorKey x ` set (st_monitors desired (Some (fst e)))) (image_mset fst (items x A (Monitors u)))"

lemma contents_gap_cong:
  assumes "only_changes x P A A'" "u \<in> pool_UUIDs A" "P \<inter> pool_places u = {}"
  shows "contents_gap x desired e u A' = contents_gap x desired e u A"
proof -
  have "items x A' pl = items x A pl" if "pl \<in> pool_places u" for pl
    by (rule only_changes_items [OF assms(1)]) (use that assms(2,3) in auto)
  then show ?thesis unfolding contents_gap_def by simp
qed

lemma only_changes_pools: "only_changes x P A A' \<Longrightarrow> acc_pools A' = acc_pools A"
  by (simp add: only_changes_def)

lemma contents_gap_steps:
  assumes "only_changes x {Members u} A B" "only_changes x {Listeners u} B C" "only_changes x {Monitors u} C D" "u \<in> pool_UUIDs A"
    and "gap (poolMemberKey x ` set (st_members desired (Some (fst e)))) (image_mset fst (items x B (Members u))) + a
      \<le> gap (poolMemberKey x ` set (st_members desired (Some (fst e)))) (image_mset fst (items x A (Members u)))"
    and "gap (listenerKey x ` set (st_listeners desired (Some (fst e)))) (image_mset fst (items x C (Listeners u))) + b
      \<le> gap (listenerKey x ` set (st_listeners desired (Some (fst e)))) (image_mset fst (items x B (Listeners u)))"
    and "gap (monitorKey x ` set (st_monitors desired (Some (fst e)))) (image_mset fst (items x D (Monitors u))) + c
      \<le> gap (monitorKey x ` set (st_monitors desired (Some (fst e)))) (image_mset fst (items x C (Monitors u)))"
  shows "contents_gap x desired e u D + (a + b + c) \<le> contents_gap x desired e u A"
proof -
  have live: "u \<in> pool_UUIDs B" "u \<in> pool_UUIDs C"
    using assms(4) only_changes_pools [OF assms(1)] only_changes_pools [OF assms(2)] by simp_all
  have "items x C (Members u) = items x B (Members u)" "items x D (Members u) = items x C (Members u)"
    "items x D (Listeners u) = items x C (Listeners u)" "items x B (Listeners u) = items x A (Listeners u)"
    "items x C (Monitors u) = items x B (Monitors u)" "items x B (Monitors u) = items x A (Monitors u)"
    by (rule only_changes_items [OF assms(2)] only_changes_items [OF assms(3)] only_changes_items [OF assms(1)];
        use live assms(4) in simp)+
  with assms(5-7) show ?thesis by (simp add: contents_gap_def)
qed

lemma wp_recreate_pool:
  assumes "documented_api M" "valid_site_orders ro" "wf_account A" "feasible_contents M desired e"
    and "counterpart s e = Some (q, p)" "pool_UUID p = u" "u \<in> pool_UUIDs A" "shows_contents x s q A u"
    and "recreate_pool x ro desired s i e = Ok acts"
  shows "wp M acts (\<lambda>A'. wf_account A' \<and> only_changes x (pool_places u) A A' \<and>
    contents_gap x desired e u A' + (if acts = [] then 0 else 1) \<le> contents_gap x desired e u A) A"
proof -
  let ?ms = "recreate (ro (MembersSite i)) (st_members desired (Some (fst e))) (st_members s (Some q))
      (poolMemberKey x) mem_HREF (CreatePoolMemberAction u)"
  let ?ls = "recreate (ro (ListenersSite i)) (st_listeners desired (Some (fst e))) (st_listeners s (Some q))
      (listenerKey x) lis_HREF (CreateListenerAction u)"
  let ?os = "recreate (ro (MonitorsSite i)) (st_monitors desired (Some (fst e))) (st_monitors s (Some q))
      (monitorKey x) mon_HREF (CreateHealthMonitorAction u)"
  let ?gm = "\<lambda>A. gap (poolMemberKey x ` set (st_members desired (Some (fst e)))) (image_mset fst (items x A (Members u)))"
  let ?gl = "\<lambda>A. gap (listenerKey x ` set (st_listeners desired (Some (fst e)))) (image_mset fst (items x A (Listeners u)))"
  let ?go = "\<lambda>A. gap (monitorKey x ` set (st_monitors desired (Some (fst e)))) (image_mset fst (items x A (Monitors u)))"
  have acts: "acts = ?ms @ ?ls @ ?os" using assms(5,6,9) by (simp add: recreate_pool_def)
  note valid = valid_site_ordersD [OF assms(2)] and feasible = assms(4) [unfolded feasible_contents_def]
  have ms: "wp M ?ms (\<lambda>B. only_changes x {Members u} A B \<and> ?gm B + (if ?ms = [] then 0 else 1) \<le> ?gm A) A"
    by (rule wp_recreate [OF assms(1) valid assms(3)])
       (use assms(7,8) feasible in \<open>auto simp: shows_contents_def intro!: wp_create_member [OF assms(1)]\<close>)
  have ls: "wp M ?ls (\<lambda>C. only_changes x {Listeners u} B C \<and> ?gl C + (if ?ls = [] then 0 else 1) \<le> ?gl B) B"
    if B: "wf_account B" "only_changes x {Members u} A B" for B
  proof (rule wp_recreate [OF assms(1) valid B(1)])
    show "live B (Listeners u)" using only_changes_live [OF B(2), of "Listeners u"] assms(7) by simp
    show "items x B (Listeners u) = mset (map (\<lambda>l. (listenerKey x l, lis_HREF l)) (st_listeners s (Some q)))"
      using only_changes_items [OF B(2), of "Listeners u"] assms(7,8) by (simp add: shows_contents_def)
  qed (use feasible in \<open>auto intro!: wp_create_listener [OF assms(1)]\<close>)
  have os: "wp M ?os (\<lambda>D. only_changes x {Monitors u} C D \<and> ?go D + (if ?os = [] then 0 else 1) \<le> ?go C) C"
    if C: "wf_account C" "only_changes x {Members u, Listeners u} A C" for C
  proof (rule wp_recreate [OF assms(1) valid C(1)])
    show "live C (Monitors u)" using only_changes_live [OF C(2), of "Monitors u"] assms(7) by simp
    show "items x C (Monitors u) = mset (map (\<lambda>m. (monitorKey x m, mon_HREF m)) (st_monitors s (Some q)))"
      using only_changes_items [OF C(2), of "Monitors u"] assms(7,8) by (simp add: shows_contents_def)
  qed (use feasible in \<open>auto intro!: wp_create_monitor [OF assms(1)]\<close>)
  show ?thesis
    unfolding acts
  proof (rule wp_append, rule wp_mono [OF wp_wf [OF assms(1) ms]])
    fix B assume B: "(only_changes x {Members u} A B \<and> ?gm B + (if ?ms = [] then 0 else 1) \<le> ?gm A) \<and> wf_account B"
    show "wp M (?ls @ ?os) (\<lambda>A'. wf_account A' \<and> only_changes x (pool_places u) A A' \<and>
      contents_gap x desired e u A' + (if ?ms @ ?ls @ ?os = [] then 0 else 1) \<le> contents_gap x desired e u A) B"
    proof (rule wp_append, rule wp_mono [OF wp_wf [OF assms(1) ls]])
      fix C assume C: "(only_changes x {Listeners u} B C \<and> ?gl C + (if ?ls = [] then 0 else 1) \<le> ?gl B) \<and> wf_account C"
      have AC: "only_changes x {Members u, Listeners u} A C"
        using only_changes_trans [of x "{Members u}" A B "{Listeners u}" C] B C by (simp add: insert_commute)
      show "wp M ?os (\<lambda>A'. wf_account A' \<and> only_changes x (pool_places u) A A' \<and>
        contents_gap x desired e u A' + (if ?ms @ ?ls @ ?os = [] then 0 else 1) \<le> contents_gap x desired e u A) C"
      proof (rule wp_mono [OF wp_wf [OF assms(1) os]])
        fix D assume D: "(only_changes x {Monitors u} C D \<and> ?go D + (if ?os = [] then 0 else 1) \<le> ?go C) \<and> wf_account D"
        have "only_changes x (pool_places u) A D"
          using only_changes_trans [OF AC, of "{Monitors u}" D] D by (simp add: insert_commute)
        moreover have "contents_gap x desired e u D +
            ((if ?ms = [] then 0 else 1) + (if ?ls = [] then 0 else 1) + (if ?os = [] then 0 else 1)) \<le> contents_gap x desired e u A"
          by (rule contents_gap_steps [of x u A B C D]) (use B C D assms(7) in blast)+
        ultimately show "wf_account D \<and> only_changes x (pool_places u) A D \<and>
          contents_gap x desired e u D + (if ?ms @ ?ls @ ?os = [] then 0 else 1) \<le> contents_gap x desired e u A"
          using D by (cases "?ms = []"; cases "?ls = []"; cases "?os = []") simp_all
      qed (use C AC in auto)
    qed (use B in auto)
  qed
qed

text \<open>The pool of the account that a desired pool is matched with, by its UUID.\<close>

definition matched :: "lbState \<Rightarrow> pool_ref \<Rightarrow> string" where
  "matched s e = (case counterpart s e of Some a \<Rightarrow> pool_UUID (snd a) | None \<Rightarrow> [])"

definition shows_match :: "ext \<Rightarrow> lbState \<Rightarrow> account \<Rightarrow> pool_ref \<Rightarrow> bool" where
  "shows_match x s A e \<longleftrightarrow> matched s e \<in> pool_UUIDs A \<and>
     (\<forall>a. counterpart s e = Some a \<longrightarrow> shows_contents x s (fst a) A (matched s e))"

abbreviation total_gap :: "ext \<Rightarrow> lbState \<Rightarrow> lbState \<Rightarrow> pool_ref list \<Rightarrow> account \<Rightarrow> nat" where
  "total_gap x desired s es A \<equiv> (\<Sum>e \<leftarrow> es. contents_gap x desired e (matched s e) A)"

lemma pool_places_disjoint: "u \<noteq> v \<Longrightarrow> pool_places u \<inter> pool_places v = {}"
  by auto

lemma total_gap_cong:
  assumes "only_changes x P A A'" "\<And>e. e \<in> set es \<Longrightarrow> matched s e \<in> pool_UUIDs A \<and> P \<inter> pool_places (matched s e) = {}"
  shows "total_gap x desired s es A' = total_gap x desired s es A"
  by (intro arg_cong [of _ _ sum_list] map_cong refl contents_gap_cong [OF assms(1)]) (use assms(2) in blast)+

lemma wp_recreate_pools:
  assumes "documented_api M" "valid_site_orders ro" "recreate_pools x ro desired s i es = Ok acts"
    and "wf_account A" "distinct (map (matched s) es)"
    and "\<And>e. e \<in> set es \<Longrightarrow> feasible_contents M desired e \<and> shows_match x s A e"
  shows "wp M acts (\<lambda>A'. wf_account A' \<and> only_changes x (\<Union>e \<in> set es. pool_places (matched s e)) A A' \<and>
    total_gap x desired s es A' + (if acts = [] then 0 else 1) \<le> total_gap x desired s es A) A"
  using assms(3-6)
proof (induction es arbitrary: i acts A)
  case Nil
  then show ?case by (auto intro: wp_Nil)
next
  case (Cons e es)
  from Cons.prems(1) obtain here rest where
    here: "recreate_pool x ro desired s i e = Ok here" and rest: "recreate_pools x ro desired s (Suc i) es = Ok rest"
    and acts: "acts = here @ rest" by auto
  from here obtain q p where a: "counterpart s e = Some (q, p)" by (auto simp: recreate_pool_def split: option.splits)
  then have u: "pool_UUID p = matched s e" by (simp add: matched_def)
  have e: "feasible_contents M desired e" "matched s e \<in> pool_UUIDs A" "shows_contents x s q A (matched s e)"
    using Cons.prems(4) [of e] a by (auto simp: shows_match_def)
  have apart: "pool_places (matched s e) \<inter> pool_places (matched s f) = {}" if "f \<in> set es" for f
    by (rule pool_places_disjoint) (use Cons.prems(3) that in force)
  show ?case
    unfolding acts
  proof (rule wp_append, rule wp_mono [OF wp_recreate_pool [OF assms(1,2) Cons.prems(2) e(1) a u e(2,3) here]])
    fix B assume B: "wf_account B \<and> only_changes x (pool_places (matched s e)) A B \<and>
      contents_gap x desired e (matched s e) B + (if here = [] then 0 else 1) \<le> contents_gap x desired e (matched s e) A"
    then have AB: "only_changes x (pool_places (matched s e)) A B" by blast
    have "shows_match x s B f" if "f \<in> set es" for f
      using Cons.prems(4) [of f] that apart [OF that] shows_contents_cong [OF AB] only_changes_pools [OF AB]
      by (auto simp: shows_match_def)
    with B Cons.prems(3,4) have "wp M rest (\<lambda>A'. wf_account A' \<and> only_changes x (\<Union>e \<in> set es. pool_places (matched s e)) B A' \<and>
      total_gap x desired s es A' + (if rest = [] then 0 else 1) \<le> total_gap x desired s es B) B"
      by (intro Cons.IH [OF rest]) auto
    then show "wp M rest (\<lambda>A'. wf_account A' \<and> only_changes x (\<Union>e \<in> set (e # es). pool_places (matched s e)) A A' \<and>
      total_gap x desired s (e # es) A' + (if here @ rest = [] then 0 else 1) \<le> total_gap x desired s (e # es) A) B"
    proof (rule wp_mono)
      fix C assume C: "wf_account C \<and> only_changes x (\<Union>e \<in> set es. pool_places (matched s e)) B C \<and>
        total_gap x desired s es C + (if rest = [] then 0 else 1) \<le> total_gap x desired s es B"
      have "contents_gap x desired e (matched s e) C = contents_gap x desired e (matched s e) B"
        by (rule contents_gap_cong) (use C e(2) only_changes_pools [OF AB] apart in auto)
      moreover have "total_gap x desired s es B = total_gap x desired s es A"
        by (rule total_gap_cong [OF AB]) (use Cons.prems(4) apart in \<open>auto simp: shows_match_def\<close>)
      moreover have "only_changes x (\<Union>e \<in> set (e # es). pool_places (matched s e)) A C"
        using only_changes_trans [OF AB] C by (simp add: Un_commute)
      ultimately show "wf_account C \<and> only_changes x (\<Union>e \<in> set (e # es). pool_places (matched s e)) A C \<and>
        total_gap x desired s (e # es) C + (if here @ rest = [] then 0 else 1) \<le> total_gap x desired s (e # es) A"
        using B C by (cases "here = []"; cases "rest = []") simp_all
    qed
  qed
qed

section \<open>The pools of the load balancer\<close>

text \<open>Everything but the given pools is as before; of the pools that are left, the members are.\<close>

definition pools_gone :: "string set \<Rightarrow> account \<Rightarrow> account \<Rightarrow> bool" where
  "pools_gone urls A A' \<longleftrightarrow> acc_lbs A' = acc_lbs A \<and> acc_fips A' = acc_fips A \<and>
     acc_pools A' = [p \<leftarrow> acc_pools A. pool_HREF p \<notin> urls] \<and>
     (\<forall>u \<in> pool_UUIDs A'. mset (hrefs A' (Members u)) = mset (hrefs A (Members u)))"

lemma pools_goneD: "pools_gone urls A A' \<Longrightarrow> u \<in> pool_UUIDs A' \<Longrightarrow> mset (hrefs A' (Members u)) = mset (hrefs A (Members u))"
  unfolding pools_gone_def by blast

lemma pools_gone_trans: "pools_gone U A B \<Longrightarrow> pools_gone V B C \<Longrightarrow> pools_gone (U \<union> V) A C"
  by (auto simp: pools_gone_def)

lemma hrefs_of_items: "items x A' pl = items x A pl \<Longrightarrow> mset (hrefs A' pl) = mset (hrefs A pl)"
  using items_hrefs by metis

lemma deleted_pool:
  assumes "wf_account A" "deleted (pool_HREF p) A A'" "p \<in> set (acc_pools A)"
  shows "pools_gone {pool_HREF p} A A'"
proof -
  let ?pl = "Pools (pool_LoadBalancerUUID p)"
  have here: "pool_HREF p \<in> set (hrefs A ?pl)" using assms(3) by (auto simp: hrefs.simps)
  have other: "pool_HREF p \<notin> set (hrefs A pl)" if "live A pl" "pl \<noteq> ?pl" for pl
    using wf_hrefs(2) [OF assms(1) _ that(1) here] that(2) by auto
  have rem: "removed (pool_HREF p) A A'"
    by (rule deleted_removed [OF assms(2)], rule other) simp_all
  then have "acc_lbs A' = acc_lbs A" by (simp add: removed_def)
  moreover have "mset (hrefs A' (Members u)) = mset (hrefs A (Members u))" if "u \<in> pool_UUIDs A'" for u
  proof -
    have "live A (Members u)" using that rem by (auto simp: removed_def)
    then have "pool_HREF p \<notin> set (hrefs A (Members u))" by (rule other) simp
    then have "[m \<leftarrow> acc_members A u. mem_HREF m \<noteq> pool_HREF p] = acc_members A u"
      unfolding filter_id_conv by (metis hrefs.simps(3) image_eqI list.set_map)
    then show ?thesis using removed_contents(1) [OF rem that] by (simp add: hrefs.simps)
  qed
  ultimately show ?thesis using rem by (simp add: pools_gone_def removed_def)
qed

text \<open>Deleting a pool with its members.\<close>

lemma wp_delete_pool:
  assumes "documented_api M" "wf_account A" "p \<in> set (acc_pools A)"
    and "mset (map mem_HREF ms) = mset (hrefs A (Members (pool_UUID p)))"
  shows "wp M (concat (map (deleteResource \<circ> mem_HREF) ms) @ deleteResource (pool_HREF p))
    (\<lambda>A'. wf_account A' \<and> pools_gone {pool_HREF p} A A') A"
proof (rule wp_append, rule wp_mono [OF wp_delete_all [OF assms(1,2)]])
  let ?pl = "Members (pool_UUID p)"
  show "live A ?pl" "in_pool ?pl" using assms(3) by simp_all
  show "distinct (map mem_HREF ms)" "mem_HREF ` set ms \<subseteq> set (hrefs A ?pl)"
    using wf_hrefs(1) [OF assms(2) \<open>live A ?pl\<close>] assms(4)
    by (metis mset_eq_imp_distinct_iff, metis list.set_map mset_eq_setD order_refl)
  fix B assume B: "wf_account B \<and> only_changes sample_ext {?pl} A B \<and>
    items sample_ext B ?pl = {#i \<in># items sample_ext A ?pl. snd i \<notin> mem_HREF ` set ms#}"
  then have AB: "only_changes sample_ext {?pl} A B" "acc_pools B = acc_pools A"
    by (blast, blast dest: only_changes_pools)
  show "wp M (deleteResource (pool_HREF p)) (\<lambda>A'. wf_account A' \<and> pools_gone {pool_HREF p} A A') B"
  proof (rule wp_delete [OF assms(1)])
    have "pool_HREF p \<in> set (hrefs B (Pools (pool_LoadBalancerUUID p)))"
      using assms(3) AB(2) by (auto simp: hrefs.simps)
    then show "has_href B (pool_HREF p)" unfolding has_href_def by (meson live.simps(2))
    fix C assume C: "deleted (pool_HREF p) B C" "wf_account C"
    then have gone: "pools_gone {pool_HREF p} B C" using B assms(3) AB(2) by (intro deleted_pool) simp_all
    have "mset (hrefs C (Members u)) = mset (hrefs A (Members u))" if u: "u \<in> pool_UUIDs C" for u
    proof -
      obtain r where r: "r \<in> set (acc_pools A)" "pool_HREF r \<noteq> pool_HREF p" "u = pool_UUID r"
        using u gone AB(2) by (auto simp: pools_gone_def)
      then have "u \<noteq> pool_UUID p" using assms(2,3) unfolding wf_account_def by (metis distinct_map inj_onD)
      then have "mset (hrefs B (Members u)) = mset (hrefs A (Members u))"
        by (intro hrefs_of_items [of sample_ext] only_changes_items [OF AB(1)]) (use r in auto)
      then show ?thesis using pools_goneD [OF gone u] by simp
    qed
    then show "wf_account C \<and> pools_gone {pool_HREF p} A C"
      using C(2) gone AB by (simp add: pools_gone_def only_changes_def)
  qed
qed

text \<open>Deleting several pools, with the members the state \<open>s\<close> has for them.\<close>

lemma wp_delete_pools:
  assumes "documented_api M" "wf_account A" "distinct (map (pool_HREF \<circ> snd) del)"
    and "\<And>a. a \<in> set del \<Longrightarrow> snd a \<in> set (acc_pools A) \<and>
      mset (map mem_HREF (st_members s (Some (fst a)))) = mset (hrefs A (Members (pool_UUID (snd a))))"
  shows "wp M (concat (map (delete_pool s) del))
    (\<lambda>A'. wf_account A' \<and> pools_gone ((pool_HREF \<circ> snd) ` set del) A A') A"
proof (rule wp_concat [where J = "\<lambda>ys B. wf_account B \<and> pools_gone ((pool_HREF \<circ> snd) ` set ys) A B"])
  fix ys y zs B
  assume split: "del = ys @ y # zs" and B: "wf_account B \<and> pools_gone ((pool_HREF \<circ> snd) ` set ys) A B"
  have new: "pool_HREF (snd y) \<notin> (pool_HREF \<circ> snd) ` set ys" using assms(3) split by auto
  with assms(4) [of y] split B have y: "snd y \<in> set (acc_pools B)" by (auto simp: pools_gone_def)
  have "wp M (delete_pool s y) (\<lambda>A'. wf_account A' \<and> pools_gone {pool_HREF (snd y)} B A') B"
    unfolding delete_pool_def using assms(1) B y assms(4) [of y] split
    by (intro wp_delete_pool) (auto simp: pools_gone_def)
  then show "wp M (delete_pool s y) (\<lambda>A'. wf_account A' \<and> pools_gone ((pool_HREF \<circ> snd) ` set (ys @ [y])) A A') B"
    by (rule wp_mono) (use B pools_gone_trans in fastforce)
qed (use assms(2) in \<open>simp add: pools_gone_def\<close>)

text \<open>Creating pools on a load balancer.\<close>

lemma wp_create_pools:
  assumes "documented_api M" "U \<in> lb_UUIDs A"
    and "\<And>d. d \<in> set cre \<Longrightarrow> am_accepts M (ReqPool (CreatePool_request U (snd d)))"
  shows "wp M (map (CreatePoolAction U \<circ> snd) cre) (\<lambda>A'. acc_lbs A' = acc_lbs A \<and> acc_fips A' = acc_fips A \<and>
    (\<exists>N. items x A' (Pools U) = items x A (Pools U) + N \<and> image_mset fst N = mset (map (poolKey \<circ> snd) cre))) A"
proof -
  let ?J = "\<lambda>ys B. acc_lbs B = acc_lbs A \<and> acc_fips B = acc_fips A \<and>
    (\<exists>N. items x B (Pools U) = items x A (Pools U) + N \<and> image_mset fst N = mset (map (poolKey \<circ> snd) ys))"
  have "wp M (concat (map (\<lambda>d. [CreatePoolAction U (snd d)]) cre)) (?J cre) A"
  proof (rule wp_concat [where J = ?J])
    fix ys y zs B assume split: "cre = ys @ y # zs" and B: "?J ys B"
    show "wp M [CreatePoolAction U (snd y)] (?J (ys @ [y])) B"
    proof (rule wp_create_pool [OF assms(1)])
      show "U \<in> lb_UUIDs B" using B assms(2) by simp
      show "am_accepts M (ReqPool (CreatePool_request U (snd y)))" by (rule assms(3)) (simp add: split)
      fix C assume C: "pool_created (CreatePool_request U (snd y)) B C"
      obtain h where h: "items x C (Pools U) = add_mset (poolKey (snd y), h) (items x B (Pools U))"
        using pool_created_items(1) [OF C] by blast
      from B obtain N where N: "items x B (Pools U) = items x A (Pools U) + N" "image_mset fst N = mset (map (poolKey \<circ> snd) ys)" by blast
      have "items x C (Pools U) = items x A (Pools U) + add_mset (poolKey (snd y), h) N"
        "image_mset fst (add_mset (poolKey (snd y), h) N) = mset (map (poolKey \<circ> snd) (ys @ [y]))"
        using h N by simp_all
      then show "?J (ys @ [y]) C" using pool_created_items(2,3) [OF C] B by auto
    qed
  qed simp
  then show ?thesis by (simp add: concat_map_singleton comp_def)
qed

end
