(* ===== verification/Account_View.thy ===== *)
theory Account_View
  imports Plan_Effects
begin

text \<open>
  What the controller sees of an account: under the documented behaviour of the API, the search for the
  load balancer finds the one load balancer of the account that belongs to the service, and
  \<open>actualLbState\<close> reads exactly its part of the account. So the account is an abstraction of the world
  that the reading half of the reconciler refines.
\<close>

section \<open>Reading\<close>

lemma quiet_refl: "am_ok M w \<Longrightarrow> quiet M w w"
  by (simp add: quiet_def)

lemma quiet_trans: "quiet M u v \<Longrightarrow> quiet M v w \<Longrightarrow> quiet M u w"
  by (simp add: quiet_def)

lemma quietD: "quiet M v w \<Longrightarrow> am_ok M w \<and> am_acct M w = am_acct M v \<and> am_pending M w \<le> am_pending M v"
  by (simp add: quiet_def)

lemma api_reads: "documented_api M \<Longrightarrow> reads_documented M"
  by (simp add: documented_api_def)

text \<open>The load balancers that the search for the one of a service can find.\<close>

definition candidates :: "serviceInfo \<Rightarrow> account \<Rightarrow> LoadBalancer list" where
  "candidates info A = [l \<leftarrow> acc_lbs A. lb_Name l = annotation info LoadBalancerName \<or>
     annotation info LoadBalancerUUID \<noteq> [] \<and> lb_UUID l = annotation info LoadBalancerUUID]"

lemma no_status_sel [simp]:
  "lb_UUID (no_status l) = lb_UUID l" "lb_HREF (no_status l) = lb_HREF l" "lb_Name (no_status l) = lb_Name l"
  "lb_FlavorSlug (no_status l) = lb_FlavorSlug l" "lb_ZoneSlug (no_status l) = lb_ZoneSlug l"
  "lb_VIPAddresses (no_status l) = lb_VIPAddresses l"
  by (simp_all add: no_status_def)

lemma no_address_sel [simp]:
  "mon_UUID (no_address m) = mon_UUID m" "mon_HREF (no_address m) = mon_HREF m" "mon_PoolUUID (no_address m) = mon_PoolUUID m"
  "mon_Type (no_address m) = mon_Type m" "monitorKey x (no_address m) = monitorKey x m"
  by (auto simp: no_address_def monitorKey_def split: option.split)

lemma lb_findByName_reads:
  assumes "documented_api M" "am_ok M w" "name \<noteq> []"
  shows "\<exists>ls w'. lb_findByName (am_client M) name w = (limiter_New None ls, w') \<and> quiet M w w' \<and>
    map no_status ls = [l \<leftarrow> acc_lbs (am_acct M w). lb_Name l = name] \<and> list_all (settled_status M w) ls"
proof -
  obtain ls w' where ls: "LoadBalancers_List (am_client M) w = (Inr ls, w')" "quiet M w w'"
    "map no_status ls = acc_lbs (am_acct M w)" "list_all (settled_status M w) ls"
    using reads_documentedD(4) [OF api_reads [OF assms(1)] assms(2)] by (auto simp: reports_def)
  have "map no_status [l \<leftarrow> ls. lb_Name l = name] = [l \<leftarrow> acc_lbs (am_acct M w). lb_Name l = name]"
    by (simp add: filter_map comp_def flip: ls(3))
  moreover have "list_all (settled_status M w) [l \<leftarrow> ls. lb_Name l = name]" using ls(4) by (auto simp: list_all_iff)
  ultimately show ?thesis using ls(1,2) assms(3) by (auto simp: lb_findByName_def)
qed

lemma unique_same:
  assumes "\<And>b. b \<in> set bs \<Longrightarrow> lb_UUID b = lb_UUID a"
  shows "foldl (unique_step (\<lambda>a b. lb_UUID a = lb_UUID b)) [a] bs = [a]"
  using assms
proof (induction bs)
  case (Cons b bs)
  have "unique_step (\<lambda>a b. lb_UUID a = lb_UUID b) [a] b = [a]" using Cons.prems [of b] by (simp add: unique_step_def)
  moreover have "foldl (unique_step (\<lambda>a b. lb_UUID a = lb_UUID b)) [a] bs = [a]"
    by (rule Cons.IH, rule Cons.prems) simp
  ultimately show ?case by simp
qed simp

text \<open>The search reads the account and finds the candidate if there is exactly one.\<close>

lemma findByServiceInfo_reads:
  assumes "documented_api M" "am_ok M w" "annotation info LoadBalancerName \<noteq> []"
  shows "\<exists>found w'. findByServiceInfo (am_client M) info w = (found, w') \<and> quiet M w w' \<and>
    (candidates info (am_acct M w) = [] \<longrightarrow> limiter_AtMostOne found = Ok None) \<and>
    (\<forall>l. candidates info (am_acct M w) = [l] \<longrightarrow>
       (\<exists>lb. limiter_AtMostOne found = Ok (Some lb) \<and> no_status lb = l \<and> settled_status M w lb))"
proof (cases "annotation info LoadBalancerUUID = []")
  case True
  then have "candidates info (am_acct M w) = [l \<leftarrow> acc_lbs (am_acct M w). lb_Name l = annotation info LoadBalancerName]"
    by (simp add: candidates_def)
  moreover obtain ls w' where "findByServiceInfo (am_client M) info w = (limiter_New None ls, w')" "quiet M w w'"
    "map no_status ls = [l \<leftarrow> acc_lbs (am_acct M w). lb_Name l = annotation info LoadBalancerName]" "list_all (settled_status M w) ls"
    using lb_findByName_reads [OF assms] True by (auto simp: findByServiceInfo_def)
  ultimately show ?thesis by (auto simp: AtMostOne_None_iff AtMostOne_Some_iff)
next
  case uuid: False
  let ?u = "annotation info LoadBalancerUUID" and ?A = "am_acct M w"
  note reads = api_reads [OF assms(1)]
  have "\<exists>gs w1. lb_getByUUID (am_client M) ?u w = (limiter_New None gs, w1) \<and> quiet M w w1 \<and>
      (?u \<in> lb_UUIDs ?A \<longrightarrow> (\<exists>g. gs = [g] \<and> lb_UUID g = ?u \<and> no_status g \<in> set (acc_lbs ?A) \<and> settled_status M w g)) \<and>
      (?u \<notin> lb_UUIDs ?A \<longrightarrow> gs = [])"
  proof (cases "?u \<in> lb_UUIDs ?A")
    case True
    then obtain g w1 where "LoadBalancers_Get (am_client M) ?u w = (Inr g, w1)" "quiet M w w1"
      "lb_UUID g = ?u" "no_status g \<in> set (acc_lbs ?A)" "settled_status M w g"
      using reads_documentedD(5) [OF reads assms(2) True] by (auto simp: reports_def)
    with True show ?thesis by (intro exI [of _ "[g]"] exI [of _ w1]) (simp add: lb_getByUUID_def)
  next
    case False
    then show ?thesis using reads_documentedD(6) [OF reads assms(2) False] by (auto simp: lb_getByUUID_def)
  qed
  then obtain gs w1 where get: "lb_getByUUID (am_client M) ?u w = (limiter_New None gs, w1)" and q1: "quiet M w w1" and
    some: "?u \<in> lb_UUIDs ?A \<Longrightarrow> \<exists>g. gs = [g] \<and> lb_UUID g = ?u \<and> no_status g \<in> set (acc_lbs ?A) \<and> settled_status M w g" and
    none: "?u \<notin> lb_UUIDs ?A \<Longrightarrow> gs = []" by blast
  obtain ls w2 where find: "lb_findByName (am_client M) (annotation info LoadBalancerName) w1 = (limiter_New None ls, w2)"
    and q2: "quiet M w1 w2" and ls: "map no_status ls = [l \<leftarrow> acc_lbs ?A. lb_Name l = annotation info LoadBalancerName]"
    and st: "list_all (settled_status M w1) ls"
    using lb_findByName_reads [OF assms(1) _ assms(3)] quietD [OF q1] by metis
  let ?found = "limiter_Unique (\<lambda>a b. lb_UUID a = lb_UUID b) (limiter_Join [limiter_New None gs, limiter_New None ls])"
  have call: "findByServiceInfo (am_client M) info w = (?found, w2)"
    by (rule find_with_uuid [OF refl uuid get find])
  have elements: "lim_elements ?found = foldl (unique_step (\<lambda>a b. lb_UUID a = lb_UUID b)) [] (gs @ ls)" "lim_Error ?found = None"
    by (simp_all add: limiter_Unique_def)
  have named: "no_status b \<in> set (candidates info ?A)" if "b \<in> set ls" for b
  proof -
    have "no_status b \<in> set (map no_status ls)" using that by simp
    then show ?thesis unfolding ls candidates_def by auto
  qed
  have found: "no_status g \<in> set (candidates info ?A)" if "g \<in> set gs" for g
    using some none that uuid by (cases "?u \<in> lb_UUIDs ?A") (auto simp: candidates_def)
  have st': "settled_status M w b" if "b \<in> set ls" for b
    using st that quietD [OF q1] by (auto simp: list_all_iff settled_status_def)
  have "limiter_AtMostOne ?found = Ok None" if "candidates info ?A = []"
  proof -
    have "gs = []" "ls = []" using that named found by (metis empty_iff list.set(1) list.set_sel(1))+
    with elements show ?thesis by (simp add: AtMostOne_None_iff)
  qed
  moreover have "\<exists>lb. limiter_AtMostOne ?found = Ok (Some lb) \<and> no_status lb = l \<and> settled_status M w lb"
    if l: "candidates info ?A = [l]" for l
  proof -
    have same: "no_status b = l" if "b \<in> set (gs @ ls)" for b using that l named found by auto
    have "gs @ ls \<noteq> []"
    proof
      assume empty: "gs @ ls = []"
      then have "?u \<notin> lb_UUIDs ?A" using some by auto
      then have "candidates info ?A = [l \<leftarrow> acc_lbs ?A. lb_Name l = annotation info LoadBalancerName]"
        unfolding candidates_def by (intro filter_cong refl) (metis image_eqI)
      with ls empty l show False by simp
    qed
    then obtain b bs where bs: "gs @ ls = b # bs" by (meson neq_Nil_conv)
    then have "settled_status M w b" using some none st'
      by (metis Un_iff append_Nil append_Cons list.set_intros(1) list.inject set_append)
    moreover have "lb_UUID b' = lb_UUID b" if "b' \<in> set bs" for b'
      using same [of b] same [of b'] that unfolding bs by (metis list.set_intros no_status_sel(1))
    then have "foldl (unique_step (\<lambda>a b. lb_UUID a = lb_UUID b)) [b] bs = [b]" by (rule unique_same)
    then have "foldl (unique_step (\<lambda>a b. lb_UUID a = lb_UUID b)) [] (gs @ ls) = [b]" by (simp add: bs unique_step_def)
    ultimately show ?thesis using elements same bs by (auto simp: AtMostOne_Some_iff)
  qed
  ultimately show ?thesis using call quiet_trans [OF q1 q2] by blast
qed

section \<open>The state read\<close>

text \<open>The state \<open>s\<close> holds the part of the account that belongs to the load balancer.\<close>

definition shows_account :: "account \<Rightarrow> LoadBalancer \<Rightarrow> lbState \<Rightarrow> bool" where
  "shows_account A lb s \<longleftrightarrow> st_lb s = Some lb \<and> st_pools s = own_pools lb 0 (acc_pools A) \<and>
     (\<forall>(q, p) \<in> set (st_pools s).
        st_members s (Some q) = acc_members A (pool_UUID p) \<and>
        st_listeners s (Some q) = listeners_of A (pool_UUID p) \<and>
        map no_address (st_monitors s (Some q)) = monitors_of A (pool_UUID p)) \<and>
     st_floatingIPs s = map fip_Network [f \<leftarrow> acc_fips A. fip_LoadBalancerUUID f = Some (lb_UUID lb)]"

lemma shows_accountD:
  assumes "shows_account A lb s"
  shows "st_lb s = Some lb" "map snd (st_pools s) = [p \<leftarrow> acc_pools A. pool_LoadBalancerUUID p = lb_UUID lb]"
    "a \<in> set (st_pools s) \<Longrightarrow> snd a \<in> set (acc_pools A) \<and> st_members s (Some (fst a)) = acc_members A (pool_UUID (snd a)) \<and>
      st_listeners s (Some (fst a)) = listeners_of A (pool_UUID (snd a)) \<and>
      map no_address (st_monitors s (Some (fst a))) = monitors_of A (pool_UUID (snd a))"
proof -
  show "st_lb s = Some lb" using assms by (simp add: shows_account_def)
  show pools: "map snd (st_pools s) = [p \<leftarrow> acc_pools A. pool_LoadBalancerUUID p = lb_UUID lb]"
    using assms by (simp add: shows_account_def own_pools_snd)
  assume a: "a \<in> set (st_pools s)"
  then have "snd a \<in> set (map snd (st_pools s))" by simp
  then have "snd a \<in> set (acc_pools A)" unfolding pools by simp
  with a assms show "snd a \<in> set (acc_pools A) \<and> st_members s (Some (fst a)) = acc_members A (pool_UUID (snd a)) \<and>
      st_listeners s (Some (fst a)) = listeners_of A (pool_UUID (snd a)) \<and>
      map no_address (st_monitors s (Some (fst a))) = monitors_of A (pool_UUID (snd a))"
    by (cases a) (auto simp: shows_account_def)
qed

lemma actual_pools_reads:
  assumes "documented_api M" "am_ok M w" "pool_UUID ` set pools \<subseteq> pool_UUIDs (am_acct M w)"
  shows "\<exists>s' w'. actual_pools (am_client M) lb mons lss i pools s w = (Ok s', w') \<and> quiet M w w' \<and>
    (\<forall>(j, p) \<in> set (own_pools lb i pools). st_members s' (Some j) = acc_members (am_acct M w) (pool_UUID p))"
  using assms(2,3)
proof (induction pools arbitrary: i s w)
  case Nil
  then show ?case by (simp add: quiet_refl own_pools_def)
next
  case (Cons p pools)
  show ?case
  proof (cases "pool_LoadBalancerUUID p = lb_UUID lb")
    case False
    with Cons.IH [of w "Suc i" s] Cons.prems show ?thesis by simp
  next
    case True
    obtain w1 where ms: "Members_List (am_client M) (pool_UUID p) w = (Inr (acc_members (am_acct M w) (pool_UUID p)), w1)" "quiet M w w1"
      using reads_documentedD(8) [OF api_reads [OF assms(1)] Cons.prems(1), of "pool_UUID p"] Cons.prems(2) by (auto simp: reports_def)
    let ?s = "s\<lparr>st_pools := st_pools s @ [(i, p)], st_members := (st_members s)(Some i := acc_members (am_acct M w) (pool_UUID p)),
       st_monitors := append_at (Some i) [m \<leftarrow> mons. mon_PoolUUID m = pool_UUID p] (st_monitors s),
       st_listeners := append_at (Some i) [l \<leftarrow> lss. lis_PoolUUID l = Some (pool_UUID p)] (st_listeners s)\<rparr>"
    note after = quietD [OF ms(2)]
    obtain s' w' where rest: "actual_pools (am_client M) lb mons lss (Suc i) pools ?s w1 = (Ok s', w')" "quiet M w1 w'"
      "\<forall>(j, p) \<in> set (own_pools lb (Suc i) pools). st_members s' (Some j) = acc_members (am_acct M w) (pool_UUID p)"
      using Cons.IH [of w1 "Suc i" ?s] Cons.prems(2) after by auto
    have "st_members s' (Some i) = acc_members (am_acct M w) (pool_UUID p)"
      using actual_pools_frame(2) [OF rest(1), of i] by simp
    moreover have "actual_pools (am_client M) lb mons lss i (p # pools) s w = (Ok s', w')"
      using True ms(1) rest(1) by (simp add: bind_io_apply wrap_io_apply sdk_call_def)
    ultimately show ?thesis using rest(3) True quiet_trans [OF ms(2) rest(2)] by auto
  qed
qed

lemma loaded_lbState_reads:
  assumes "documented_api M" "am_ok M w"
  shows "\<exists>s w'. loaded_lbState (am_client M) lb w = (Ok s, w') \<and> quiet M w w' \<and> shows_account (am_acct M w) lb s"
proof -
  let ?c = "am_client M" and ?A = "am_acct M w"
  note reads = reads_documentedD [OF api_reads [OF assms(1)]]
  obtain mons w1 where mons: "Monitors_List ?c w = (Inr mons, w1)" "quiet M w w1" "map no_address mons = acc_monitors ?A"
    using reads(10) [OF assms(2)] by (auto simp: reports_def)
  note w1 = quietD [OF mons(2)]
  obtain w2 where lss: "Listeners_List ?c w1 = (Inr (acc_listeners ?A), w2)" "quiet M w1 w2"
    using reads(9) [of w1] w1 by (auto simp: reports_def)
  note w2 = quietD [OF lss(2)]
  obtain w3 where pls: "Pools_List ?c w2 = (Inr (acc_pools ?A), w3)" "quiet M w2 w3"
    using reads(7) [of w2] w1 w2 by (auto simp: reports_def)
  note w3 = quietD [OF pls(2)]
  obtain s1 w4 where loop: "actual_pools ?c lb mons (acc_listeners ?A) 0 (acc_pools ?A) (newLbState lb) w3 = (Ok s1, w4)" "quiet M w3 w4"
    and members: "\<forall>(j, p) \<in> set (own_pools lb 0 (acc_pools ?A)). st_members s1 (Some j) = acc_members ?A (pool_UUID p)"
    using actual_pools_reads [OF assms(1), of w3 "acc_pools ?A" lb mons "acc_listeners ?A" 0 "newLbState lb"] w1 w2 w3 by auto
  note w4 = quietD [OF loop(2)]
  obtain w5 where ips: "FloatingIPs_List ?c w4 = (Inr (acc_fips ?A), w5)" "quiet M w4 w5"
    using reads(11) [of w4] w1 w2 w3 w4 by (auto simp: reports_def)
  let ?s = "s1\<lparr>st_listeners := append_at None [l \<leftarrow> acc_listeners ?A. lis_PoolUUID l = None \<and> lis_LoadBalancerUUID l = lb_UUID lb] (st_listeners s1),
      st_floatingIPs := st_floatingIPs s1 @ map fip_Network [ip \<leftarrow> acc_fips ?A. fip_LoadBalancerUUID ip = Some (lb_UUID lb)]\<rparr>"
  have "loaded_lbState ?c lb w = (Ok ?s, w5)"
    using mons(1) lss(1) pls(1) loop(1) ips(1) by (simp add: loaded_lbState_def bind_io_apply wrap_io_apply sdk_call_def Let_def)
  moreover have "quiet M w w5"
    using mons(2) lss(2) pls(2) loop(2) ips(2) quiet_trans by metis
  moreover have "shows_account ?A lb ?s"
  proof -
    note frame = actual_pools_frame(1) [OF loop(1)]
    have "st_listeners s1 (Some q) = listeners_of ?A (pool_UUID p) \<and> map no_address (st_monitors s1 (Some q)) = monitors_of ?A (pool_UUID p)"
      if "(q, p) \<in> set (own_pools lb 0 (acc_pools ?A))" for q p
      using actual_pools_content [OF loop(1) _ that]
      by (simp add: listeners_of_def monitors_of_def filter_map comp_def flip: mons(3))
    with members frame show ?thesis by (auto simp: shows_account_def)
  qed
  ultimately show ?thesis by blast
qed

text \<open>The abstraction: what \<open>actualLbState\<close> delivers is the part of the account that belongs to the service.\<close>

lemma actualLbState_reads:
  assumes "documented_api M" "am_ok M w" "annotation info LoadBalancerName \<noteq> []"
  shows "candidates info (am_acct M w) = [] \<Longrightarrow>
      \<exists>w'. actualLbState (am_client M) info w = (Ok empty_lbState, w') \<and> quiet M w w'"
    and "candidates info (am_acct M w) = [l] \<Longrightarrow>
      \<exists>lb s w'. actualLbState (am_client M) info w = (Ok s, w') \<and> quiet M w w' \<and>
        no_status lb = l \<and> settled_status M w lb \<and> shows_account (am_acct M w) lb s"
proof -
  obtain found w1 where find: "findByServiceInfo (am_client M) info w = (found, w1)" "quiet M w w1"
    "candidates info (am_acct M w) = [] \<Longrightarrow> limiter_AtMostOne found = Ok None"
    "\<And>l. candidates info (am_acct M w) = [l] \<Longrightarrow>
       \<exists>lb. limiter_AtMostOne found = Ok (Some lb) \<and> no_status lb = l \<and> settled_status M w lb"
    using findByServiceInfo_reads [OF assms] by blast
  { assume "candidates info (am_acct M w) = []"
    then have "actualLbState (am_client M) info w = (Ok empty_lbState, w1)"
      using find(1) find(3) by (simp add: actualLbState_def bind_io_apply wrap_io_apply)
    with find(2) show "\<exists>w'. actualLbState (am_client M) info w = (Ok empty_lbState, w') \<and> quiet M w w'" by blast }
  { assume "candidates info (am_acct M w) = [l]"
    then obtain lb where lb: "limiter_AtMostOne found = Ok (Some lb)" "no_status lb = l" "settled_status M w lb"
      using find(4) by blast
    obtain s w2 where s: "loaded_lbState (am_client M) lb w1 = (Ok s, w2)" "quiet M w1 w2" "shows_account (am_acct M w) lb s"
      using loaded_lbState_reads [OF assms(1), of w1 lb] quietD [OF find(2)] by auto
    then have "actualLbState (am_client M) info w = (Ok s, w2)"
      using find(1) lb(1) by (simp add: actualLbState_def bind_io_apply wrap_io_apply)
    with lb s quiet_trans [OF find(2)] show "\<exists>lb s w'. actualLbState (am_client M) info w = (Ok s, w') \<and> quiet M w w' \<and>
        no_status lb = l \<and> settled_status M w lb \<and> shows_account (am_acct M w) lb s" by blast }
qed

end
