(* ===== verification/Confinement.thy ===== *)
theory Confinement
  imports Account_View
begin

text \<open>
  Reconciling one service leaves the load balancers of all others alone, whatever the API answers. The
  condition on the API, \<open>truthful_api\<close>, is much weaker than \<open>documented_api\<close>: every call may fail at any
  time, and a call that reports a failure may have done its work all the same, as after a timeout. It only
  says that reading changes nothing and reports what is there, and that a writing call does what is
  documented or nothing.
\<close>

section \<open>An API that may fail\<close>

text \<open>A call that changes nothing, whatever it returns.\<close>

definition calm :: "'w api_model \<Rightarrow> ('w \<Rightarrow> 'r \<times> 'w) \<Rightarrow> bool" where
  "calm M f \<longleftrightarrow> (\<forall>w. am_ok M w \<longrightarrow> am_ok M (snd (f w)) \<and> am_acct M (snd (f w)) = am_acct M w)"

text \<open>A call that changes nothing and, if it succeeds, reports what holds of the account.\<close>

definition tells :: "'w api_model \<Rightarrow> ('w \<Rightarrow> (error + 'a) \<times> 'w) \<Rightarrow> (account \<Rightarrow> 'a \<Rightarrow> bool) \<Rightarrow> bool" where
  "tells M call P \<longleftrightarrow> calm M call \<and> (\<forall>w r w'. am_ok M w \<and> call w = (Inr r, w') \<longrightarrow> P (am_acct M w) r)"

text \<open>A call that does what is documented or nothing, whatever it returns.\<close>

definition attempts :: "'w api_model \<Rightarrow> ('w \<Rightarrow> error option \<times> 'w) \<Rightarrow> (account \<Rightarrow> account \<Rightarrow> bool) \<Rightarrow> bool" where
  "attempts M call R \<longleftrightarrow> (\<forall>w. am_ok M w \<longrightarrow> am_ok M (snd (call w)) \<and>
     (am_acct M (snd (call w)) = am_acct M w \<or> R (am_acct M w) (am_acct M (snd (call w)))))"

definition reads_truthfully :: "'w api_model \<Rightarrow> bool" where
  "reads_truthfully M \<longleftrightarrow> (let c = am_client M in
     (\<forall>w. am_ok M w \<longrightarrow> wf_account (am_acct M w) \<and> valid_site_orders (range_orders c w)) \<and>
     tells M (LoadBalancers_List c) (\<lambda>A ls. map no_status ls = acc_lbs A) \<and>
     (\<forall>u. tells M (LoadBalancers_Get c u) (\<lambda>A l. lb_UUID l = u \<and> no_status l \<in> set (acc_lbs A))) \<and>
     tells M (Pools_List c) (\<lambda>A ps. ps = acc_pools A) \<and>
     (\<forall>u. tells M (Members_List c u) (\<lambda>A ms. u \<in> pool_UUIDs A \<longrightarrow> ms = acc_members A u)) \<and>
     tells M (Listeners_List c) (\<lambda>A ls. ls = acc_listeners A) \<and>
     tells M (Monitors_List c) (\<lambda>A ms. map no_address ms = acc_monitors A) \<and>
     tells M (FloatingIPs_List c) (\<lambda>A ips. ips = acc_fips A) \<and>
     calm M (Servers_List c) \<and> (\<forall>u. calm M (Servers_Get c u)) \<and>
     (\<forall>d. calm M (wait_or_done c d)) \<and> (\<forall>n. calm M (rand_Intn c n)))"

definition writes_truthfully :: "'w api_model \<Rightarrow> bool" where
  "writes_truthfully M \<longleftrightarrow> (let c = am_client M in
     (\<forall>r. attempts M (LoadBalancers_Create c r) (lb_created r)) \<and>
     (\<forall>u name. attempts M (LoadBalancers_Update c u (zero_LoadBalancerRequest\<lparr>lbreq_Name := name\<rparr>)) (lb_renamed u name)) \<and>
     (\<forall>r. attempts M (Pools_Create c r) (pool_created r)) \<and>
     (\<forall>u r. attempts M (Members_Create c u r) (member_created (am_net M) u r)) \<and>
     (\<forall>r. attempts M (Listeners_Create c r) (listener_created r)) \<and>
     (\<forall>u r. attempts M (Listeners_Update c u r) (listener_updated u r)) \<and>
     (\<forall>r. attempts M (Monitors_Create c r) (monitor_created r)) \<and>
     (\<forall>u r. attempts M (Monitors_Update c u r) (monitor_updated u r)) \<and>
     (\<forall>addr u. attempts M (FloatingIPs_Update c addr u) (fip_assigned addr u)) \<and>
     (\<forall>url req. client_NewRequest c ''DELETE'' url = Inr req \<longrightarrow> attempts M (client_Do c req) (deleted url)))"

definition truthful_api :: "'w api_model \<Rightarrow> bool" where
  "truthful_api M \<longleftrightarrow> reads_truthfully M \<and> writes_truthfully M"

lemma tellsD:
  assumes "tells M call P" "am_ok M w" "call w = (r, w')"
  shows "am_ok M w'" "am_acct M w' = am_acct M w" "r = Inr y \<Longrightarrow> P (am_acct M w) y"
  using assms unfolding tells_def calm_def by (metis snd_conv, metis snd_conv, blast)

lemma calmD: "calm M f \<Longrightarrow> am_ok M w \<Longrightarrow> f w = (r, w') \<Longrightarrow> am_ok M w' \<and> am_acct M w' = am_acct M w"
  unfolding calm_def by (metis snd_conv)

lemma tells_calm: "tells M call P \<Longrightarrow> calm M call"
  by (simp add: tells_def)

lemma truthfulD:
  assumes "truthful_api M"
  shows "am_ok M w \<Longrightarrow> wf_account (am_acct M w)" "am_ok M w \<Longrightarrow> valid_site_orders (range_orders (am_client M) w)"
    "tells M (LoadBalancers_List (am_client M)) (\<lambda>A ls. map no_status ls = acc_lbs A)"
    "tells M (LoadBalancers_Get (am_client M) u) (\<lambda>A l. lb_UUID l = u \<and> no_status l \<in> set (acc_lbs A))"
    "tells M (Pools_List (am_client M)) (\<lambda>A ps. ps = acc_pools A)"
    "tells M (Members_List (am_client M) u) (\<lambda>A ms. u \<in> pool_UUIDs A \<longrightarrow> ms = acc_members A u)"
    "tells M (Listeners_List (am_client M)) (\<lambda>A ls. ls = acc_listeners A)"
    "tells M (Monitors_List (am_client M)) (\<lambda>A ms. map no_address ms = acc_monitors A)"
    "tells M (FloatingIPs_List (am_client M)) (\<lambda>A ips. ips = acc_fips A)"
    "calm M (Servers_List (am_client M))" "calm M (Servers_Get (am_client M) u)"
    "calm M (wait_or_done (am_client M) d)" "calm M (rand_Intn (am_client M) n)"
  using assms unfolding truthful_api_def reads_truthfully_def Let_def by blast+

lemma truthful_writes:
  assumes "truthful_api M"
  shows "attempts M (LoadBalancers_Create (am_client M) rb) (lb_created rb)"
    "attempts M (LoadBalancers_Update (am_client M) u (zero_LoadBalancerRequest\<lparr>lbreq_Name := name\<rparr>)) (lb_renamed u name)"
    "attempts M (Pools_Create (am_client M) rp) (pool_created rp)"
    "attempts M (Members_Create (am_client M) u rm) (member_created (am_net M) u rm)"
    "attempts M (Listeners_Create (am_client M) rl) (listener_created rl)"
    "attempts M (Listeners_Update (am_client M) u rl) (listener_updated u rl)"
    "attempts M (Monitors_Create (am_client M) ro) (monitor_created ro)"
    "attempts M (Monitors_Update (am_client M) u ro) (monitor_updated u ro)"
    "attempts M (FloatingIPs_Update (am_client M) addr u) (fip_assigned addr u)"
    "client_NewRequest (am_client M) ''DELETE'' url = Inr req \<Longrightarrow> attempts M (client_Do (am_client M) req) (deleted url)"
  using assms unfolding truthful_api_def writes_truthfully_def Let_def by blast+

section \<open>What belongs to other load balancers\<close>

definition foreign_pools :: "string set \<Rightarrow> account \<Rightarrow> string set" where
  "foreign_pools F A = pool_UUID ` {p \<in> set (acc_pools A). pool_LoadBalancerUUID p \<in> F}"

text \<open>
  The load balancers with UUIDs in \<open>F\<close> are the same, with their pools, and these have the same members,
  listeners and monitors.
\<close>

definition same_for :: "string set \<Rightarrow> account \<Rightarrow> account \<Rightarrow> bool" where
  "same_for F A A' \<longleftrightarrow>
     mset [l \<leftarrow> acc_lbs A'. lb_UUID l \<in> F] = mset [l \<leftarrow> acc_lbs A. lb_UUID l \<in> F] \<and>
     mset [p \<leftarrow> acc_pools A'. pool_LoadBalancerUUID p \<in> F] = mset [p \<leftarrow> acc_pools A. pool_LoadBalancerUUID p \<in> F] \<and>
     (\<forall>u \<in> foreign_pools F A. mset (acc_members A' u) = mset (acc_members A u) \<and>
        mset (listeners_of A' u) = mset (listeners_of A u) \<and> mset (monitors_of A' u) = mset (monitors_of A u))"

text \<open>
  Floating IPs keep their place, unless their address is among \<open>I\<close> or they point to a load balancer
  that is not in \<open>F\<close>.
\<close>

definition fip_kept :: "string set \<Rightarrow> string set \<Rightarrow> FloatingIP \<Rightarrow> FloatingIP \<Rightarrow> bool" where
  "fip_kept F I f f' \<longleftrightarrow> fip_Network f' = fip_Network f \<and>
     (fip_address f \<notin> I \<and> (\<forall>u. fip_LoadBalancerUUID f = Some u \<longrightarrow> u \<in> F) \<longrightarrow> f' = f)"

definition untouched :: "string set \<Rightarrow> string set \<Rightarrow> account \<Rightarrow> account \<Rightarrow> bool" where
  "untouched F I A A' \<longleftrightarrow> same_for F A A' \<and> list_all2 (fip_kept F I) (acc_fips A) (acc_fips A')"

lemma same_for_sets:
  assumes "same_for F A A'"
  shows "{l \<in> set (acc_lbs A'). lb_UUID l \<in> F} = {l \<in> set (acc_lbs A). lb_UUID l \<in> F}"
    "{p \<in> set (acc_pools A'). pool_LoadBalancerUUID p \<in> F} = {p \<in> set (acc_pools A). pool_LoadBalancerUUID p \<in> F}"
    "foreign_pools F A' = foreign_pools F A"
proof -
  show "{l \<in> set (acc_lbs A'). lb_UUID l \<in> F} = {l \<in> set (acc_lbs A). lb_UUID l \<in> F}"
    and pools: "{p \<in> set (acc_pools A'). pool_LoadBalancerUUID p \<in> F} = {p \<in> set (acc_pools A). pool_LoadBalancerUUID p \<in> F}"
    using assms unfolding same_for_def by (metis mset_eq_setD set_filter)+
  show "foreign_pools F A' = foreign_pools F A" by (simp add: foreign_pools_def pools)
qed

lemma same_for_contents:
  assumes "same_for F A A'" "u \<in> foreign_pools F A"
  shows "set (acc_members A' u) = set (acc_members A u)" "set (listeners_of A' u) = set (listeners_of A u)"
    "set (monitors_of A' u) = set (monitors_of A u)"
  using assms unfolding same_for_def by (metis mset_eq_setD)+

lemma same_for_refl [simp]: "same_for F A A"
  by (simp add: same_for_def)

lemma same_for_trans:
  assumes "same_for F A B" "same_for F B C"
  shows "same_for F A C"
  using assms(1) assms(2) [unfolded same_for_def same_for_sets(3) [OF assms(1)]] unfolding same_for_def by metis

lemma fip_kept_trans: "fip_kept F I f g \<Longrightarrow> fip_kept F I g h \<Longrightarrow> fip_kept F I f h"
  unfolding fip_kept_def by metis

lemma untouched_refl [simp]: "untouched F I A A"
  by (simp add: untouched_def fip_kept_def list.rel_refl)

lemma untouched_trans:
  assumes "untouched F I A B" "untouched F I B C"
  shows "untouched F I A C"
proof -
  have "list_all2 (fip_kept F I) (acc_fips A) (acc_fips C)"
    by (rule list_all2_trans [OF _ conjunct2 [OF assms(1) [unfolded untouched_def]] conjunct2 [OF assms(2) [unfolded untouched_def]]])
       (rule fip_kept_trans)
  then show ?thesis using assms same_for_trans [of F A B C] by (simp add: untouched_def)
qed

section \<open>Actions that spare other load balancers\<close>

text \<open>The addresses of everything that belongs to the load balancers in \<open>F\<close>.\<close>

definition foreign_hrefs :: "string set \<Rightarrow> account \<Rightarrow> string set" where
  "foreign_hrefs F A = lb_HREF ` {l \<in> set (acc_lbs A). lb_UUID l \<in> F} \<union>
     pool_HREF ` {p \<in> set (acc_pools A). pool_LoadBalancerUUID p \<in> F} \<union>
     (\<Union>u \<in> foreign_pools F A. mem_HREF ` set (acc_members A u) \<union> lis_HREF ` set (listeners_of A u) \<union> mon_HREF ` set (monitors_of A u))"

fun spares :: "string set \<Rightarrow> string set \<Rightarrow> account \<Rightarrow> action \<Rightarrow> bool" where
  "spares F I A (RenameLbAction u name) = (u \<notin> F)"
| "spares F I A (DeleteResourceAction url) = (url \<notin> foreign_hrefs F A)"
| "spares F I A (CreatePoolAction u p) = (u \<notin> F)"
| "spares F I A (CreatePoolMemberAction u m) = (u \<notin> foreign_pools F A)"
| "spares F I A (CreateListenerAction u l) = (u \<notin> foreign_pools F A)"
| "spares F I A (CreateHealthMonitorAction u m) = (u \<notin> foreign_pools F A)"
| "spares F I A (UpdateListenerAllowedCIDRsAction u cidrs) = (\<forall>v \<in> foreign_pools F A. u \<notin> lis_UUID ` set (listeners_of A v))"
| "spares F I A (UpdateListenerTimeoutAction u t key) = (\<forall>v \<in> foreign_pools F A. u \<notin> lis_UUID ` set (listeners_of A v))"
| "spares F I A (UpdateMonitorHTTPMethodAction u s) = (\<forall>v \<in> foreign_pools F A. u \<notin> mon_UUID ` set (monitors_of A v))"
| "spares F I A (UpdateMonitorHTTPPathAction u s) = (\<forall>v \<in> foreign_pools F A. u \<notin> mon_UUID ` set (monitors_of A v))"
| "spares F I A (UpdateMonitorHTTPHostAction u h) = (\<forall>v \<in> foreign_pools F A. u \<notin> mon_UUID ` set (monitors_of A v))"
| "spares F I A (UpdateMonitorHTTPExpectedCodesAction u cs) = (\<forall>v \<in> foreign_pools F A. u \<notin> mon_UUID ` set (monitors_of A v))"
| "spares F I A (UpdateMonitorNumberAction u n key) = (\<forall>v \<in> foreign_pools F A. u \<notin> mon_UUID ` set (monitors_of A v))"
| "spares F I A (AssignFloatingIPAction ip u) = (fip_address \<lparr>fip_Network = ip, fip_LoadBalancerUUID = None\<rparr> \<in> I)"
| "spares F I A a = True"

lemma foreign_hrefs_same:
  assumes "same_for F A A'"
  shows "foreign_hrefs F A' = foreign_hrefs F A"
  using same_for_contents [OF assms] unfolding foreign_hrefs_def same_for_sets [OF assms] by simp

lemma spares_same: "same_for F A A' \<Longrightarrow> spares F I A' a = spares F I A a"
  using same_for_sets(3) [of F A A'] foreign_hrefs_same [of F A A'] same_for_contents [of F A A']
  by (cases a) simp_all

text \<open>What the writing calls do to other load balancers: nothing.\<close>

lemma same_fips: "acc_fips A' = acc_fips A \<Longrightarrow> same_for F A A' \<Longrightarrow> untouched F I A A'"
  by (simp add: untouched_def fip_kept_def list.rel_refl)

lemma added_filter: "added i xs xs' \<Longrightarrow> \<not> P i \<Longrightarrow> mset [x \<leftarrow> xs'. P x] = mset [x \<leftarrow> xs. P x]"
  by (simp add: added_def)

lemma lb_created_spares:
  assumes "wf_account A'" "F \<subseteq> lb_UUIDs A" "lb_created r A A'"
  shows "untouched F I A A'"
proof -
  obtain l where l: "added l (acc_lbs A) (acc_lbs A')" and A': "A' = A\<lparr>acc_lbs := acc_lbs A'\<rparr>"
    using assms(3) unfolding lb_created_def by blast
  have same: "acc_pools A' = acc_pools A" "acc_members A' = acc_members A" "listeners_of A' = listeners_of A"
    "monitors_of A' = monitors_of A" "acc_fips A' = acc_fips A"
    by (subst A', simp add: fun_eq_iff listeners_of_def monitors_of_def)+
  have "mset (map lb_UUID (acc_lbs A')) = mset (lb_UUID l # map lb_UUID (acc_lbs A))"
    using l by (simp add: added_def)
  then have "distinct (lb_UUID l # map lb_UUID (acc_lbs A))"
    using assms(1) unfolding wf_account_def by (metis mset_eq_imp_distinct_iff)
  then have "lb_UUID l \<notin> F" using assms(2) by auto
  then show ?thesis using added_filter [OF l, of "\<lambda>l. lb_UUID l \<in> F"] same by (intro same_fips) (simp_all add: same_for_def)
qed

lemma lb_renamed_spares:
  assumes "lb_renamed u name A A'" "u \<notin> F"
  shows "untouched F I A A'"
proof -
  have A': "A' = A\<lparr>acc_lbs := map (\<lambda>l. if lb_UUID l = u then l\<lparr>lb_Name := name\<rparr> else l) (acc_lbs A)\<rparr>"
    using assms(1) by (simp add: lb_renamed_def)
  have kept: "[l \<leftarrow> map (\<lambda>l. if lb_UUID l = u then l\<lparr>lb_Name := name\<rparr> else l) ls. lb_UUID l \<in> F] = [l \<leftarrow> ls. lb_UUID l \<in> F]" for ls
    using assms(2) by (induction ls) auto
  have lbs: "acc_lbs A' = map (\<lambda>l. if lb_UUID l = u then l\<lparr>lb_Name := name\<rparr> else l) (acc_lbs A)" by (simp add: A')
  have "[l \<leftarrow> acc_lbs A'. lb_UUID l \<in> F] = [l \<leftarrow> acc_lbs A. lb_UUID l \<in> F]" by (simp only: lbs kept)
  moreover have "acc_pools A' = acc_pools A" "acc_members A' = acc_members A" "listeners_of A' = listeners_of A"
    "monitors_of A' = monitors_of A" "acc_fips A' = acc_fips A"
    by (simp_all add: A' fun_eq_iff listeners_of_def monitors_of_def)
  ultimately show ?thesis by (intro same_fips) (simp_all add: same_for_def)
qed

lemma pool_created_spares:
  assumes "pool_created r A A'" "poolreq_LoadBalancer r \<notin> F"
  shows "untouched F I A A'"
proof -
  obtain p where p: "added p (acc_pools A) (acc_pools A')" "pool_LoadBalancerUUID p = poolreq_LoadBalancer r"
    and A': "A' = A\<lparr>acc_pools := acc_pools A'\<rparr>"
    using assms(1) unfolding pool_created_def by blast
  have same: "acc_lbs A' = acc_lbs A" "acc_members A' = acc_members A" "listeners_of A' = listeners_of A"
    "monitors_of A' = monitors_of A" "acc_fips A' = acc_fips A"
    by (subst A', simp add: fun_eq_iff listeners_of_def monitors_of_def)+
  have "\<not> pool_LoadBalancerUUID p \<in> F" using p(2) assms(2) by simp
  from added_filter [OF p(1), of "\<lambda>p. pool_LoadBalancerUUID p \<in> F", OF this] same
  show ?thesis by (intro same_fips) (simp_all add: same_for_def)
qed

lemma member_created_spares:
  assumes "member_created net u r A A'" "u \<notin> foreign_pools F A"
  shows "untouched F I A A'"
proof -
  have A': "A' = A\<lparr>acc_members := (acc_members A)(u := acc_members A' u)\<rparr>"
    using assms(1) unfolding member_created_def by blast
  have same: "acc_lbs A' = acc_lbs A" "acc_pools A' = acc_pools A" "listeners_of A' = listeners_of A"
    "monitors_of A' = monitors_of A" "acc_fips A' = acc_fips A"
    by (subst A', simp add: fun_eq_iff listeners_of_def monitors_of_def)+
  have "acc_members A' v = acc_members A v" if "v \<in> foreign_pools F A" for v
    using that assms(2) by (subst A') auto
  with same show ?thesis by (intro same_fips) (simp_all add: same_for_def)
qed

lemma listener_created_spares:
  assumes "listener_created r A A'" "lisreq_Pool r \<notin> foreign_pools F A"
  shows "untouched F I A A'"
proof -
  obtain l where l: "added l (acc_listeners A) (acc_listeners A')" "lis_PoolUUID l = Some (lisreq_Pool r)"
    and A': "A' = A\<lparr>acc_listeners := acc_listeners A'\<rparr>"
    using assms(1) unfolding listener_created_def by blast
  have same: "acc_lbs A' = acc_lbs A" "acc_pools A' = acc_pools A" "acc_members A' = acc_members A"
    "monitors_of A' = monitors_of A" "acc_fips A' = acc_fips A"
    by (subst A', simp add: fun_eq_iff monitors_of_def)+
  have "mset (listeners_of A' v) = mset (listeners_of A v)" if "v \<in> foreign_pools F A" for v
    unfolding listeners_of_def by (rule added_filter [OF l(1)]) (use that l(2) assms(2) in auto)
  with same show ?thesis by (intro same_fips) (simp_all add: same_for_def)
qed

lemma monitor_created_spares:
  assumes "monitor_created r A A'" "monreq_Pool r \<notin> foreign_pools F A"
  shows "untouched F I A A'"
proof -
  obtain m where m: "added m (acc_monitors A) (acc_monitors A')" "mon_PoolUUID m = monreq_Pool r"
    and A': "A' = A\<lparr>acc_monitors := acc_monitors A'\<rparr>"
    using assms(1) unfolding monitor_created_def by blast
  have same: "acc_lbs A' = acc_lbs A" "acc_pools A' = acc_pools A" "acc_members A' = acc_members A"
    "listeners_of A' = listeners_of A" "acc_fips A' = acc_fips A"
    by (subst A', simp add: fun_eq_iff listeners_of_def)+
  have "mset (monitors_of A' v) = mset (monitors_of A v)" if "v \<in> foreign_pools F A" for v
    unfolding monitors_of_def by (rule added_filter [OF m(1)]) (use that m(2) assms(2) in auto)
  with same show ?thesis by (intro same_fips) (simp_all add: same_for_def)
qed

text \<open>An update in place of what is not picked.\<close>

lemma map_filter_update:
  assumes "\<And>y. P (f y) = P y" "u \<notin> k ` set [x \<leftarrow> xs. P x]"
  shows "[x \<leftarrow> map (\<lambda>x. if k x = u then f x else x) xs. P x] = [x \<leftarrow> xs. P x]"
  using assms by (induction xs) (auto split: if_splits)

lemma listener_updated_spares:
  assumes "listener_updated u r A A'" "\<forall>v \<in> foreign_pools F A. u \<notin> lis_UUID ` set (listeners_of A v)"
  shows "untouched F I A A'"
proof -
  have A': "A' = A\<lparr>acc_listeners := map (\<lambda>l. if lis_UUID l = u then set_listener r l else l) (acc_listeners A)\<rparr>"
    using assms(1) by (simp add: listener_updated_def)
  have "listeners_of A' v = listeners_of A v" if "v \<in> foreign_pools F A" for v
    using assms(2) that map_filter_update [of "\<lambda>l. lis_PoolUUID l = Some v" "set_listener r" u lis_UUID "acc_listeners A"]
    by (simp add: A' listeners_of_def)
  moreover have "foreign_pools F A' = foreign_pools F A" by (simp add: A' foreign_pools_def)
  ultimately show ?thesis by (intro same_fips) (simp_all add: A' same_for_def monitors_of_def)
qed

lemma monitor_updated_spares:
  assumes "monitor_updated u r A A'" "\<forall>v \<in> foreign_pools F A. u \<notin> mon_UUID ` set (monitors_of A v)"
  shows "untouched F I A A'"
proof -
  have A': "A' = A\<lparr>acc_monitors := map (\<lambda>m. if mon_UUID m = u then set_monitor r m else m) (acc_monitors A)\<rparr>"
    using assms(1) by (simp add: monitor_updated_def)
  have "monitors_of A' v = monitors_of A v" if "v \<in> foreign_pools F A" for v
    using assms(2) that map_filter_update [of "\<lambda>m. mon_PoolUUID m = v" "set_monitor r" u mon_UUID "acc_monitors A"]
    by (simp add: A' monitors_of_def)
  then show ?thesis by (intro same_fips) (simp_all add: A' same_for_def listeners_of_def)
qed

lemma fip_assigned_spares:
  assumes "fip_assigned addr u A A'" "addr \<in> I"
  shows "untouched F I A A'"
proof -
  have A': "A' = A\<lparr>acc_fips := map (\<lambda>f. if fip_address f = addr then f\<lparr>fip_LoadBalancerUUID := Some u\<rparr> else f) (acc_fips A)\<rparr>"
    using assms(1) by (simp add: fip_assigned_def)
  have "list_all2 (fip_kept F I) fs (map (\<lambda>f. if fip_address f = addr then f\<lparr>fip_LoadBalancerUUID := Some u\<rparr> else f) fs)" for fs
    using assms(2) by (induction fs) (simp_all add: fip_kept_def)
  moreover have "same_for F A A'" by (simp add: A' same_for_def listeners_of_def monitors_of_def)
  ultimately show ?thesis by (simp add: A' untouched_def)
qed

lemma filter_other: "\<forall>x \<in> set xs. h x \<noteq> u \<Longrightarrow> [x \<leftarrow> xs. h x \<noteq> u] = xs"
  by (simp add: filter_id_conv)

lemma deleted_spares:
  assumes "deleted url A A'" "url \<notin> foreign_hrefs F A"
  shows "untouched F I A A'"
proof -
  note laws = assms(1) [unfolded deleted_def]
  have lbs: "lb_HREF l \<noteq> url" if "l \<in> set (acc_lbs A)" "lb_UUID l \<in> F" for l
    using assms(2) that by (auto simp: foreign_hrefs_def)
  have pools: "pool_HREF p \<noteq> url" if "p \<in> set (acc_pools A)" "pool_LoadBalancerUUID p \<in> F" for p
    using assms(2) that by (auto simp: foreign_hrefs_def)
  have no: "gone url A \<inter> F = {}" using lbs by (auto simp: gone_def)
  have "[l \<leftarrow> acc_lbs A'. lb_UUID l \<in> F] = [l \<leftarrow> acc_lbs A. lb_UUID l \<in> F]"
    using laws lbs by (auto intro: filter_cong)
  moreover have own: "[p \<leftarrow> acc_pools A'. pool_LoadBalancerUUID p \<in> F] = [p \<leftarrow> acc_pools A. pool_LoadBalancerUUID p \<in> F]"
  proof -
    have "[p \<leftarrow> [p \<leftarrow> acc_pools A'. pool_LoadBalancerUUID p \<notin> gone url A]. pool_LoadBalancerUUID p \<in> F] =
        [p \<leftarrow> [p \<leftarrow> acc_pools A. pool_LoadBalancerUUID p \<notin> gone url A \<and> pool_HREF p \<noteq> url]. pool_LoadBalancerUUID p \<in> F]"
      using laws by metis
    moreover have "[p \<leftarrow> [p \<leftarrow> ps. pool_LoadBalancerUUID p \<notin> gone url A]. pool_LoadBalancerUUID p \<in> F] =
        [p \<leftarrow> ps. pool_LoadBalancerUUID p \<in> F]" for ps using no by (auto intro: filter_cong)
    moreover have "[p \<leftarrow> [p \<leftarrow> acc_pools A. pool_LoadBalancerUUID p \<notin> gone url A \<and> pool_HREF p \<noteq> url]. pool_LoadBalancerUUID p \<in> F] =
        [p \<leftarrow> acc_pools A. pool_LoadBalancerUUID p \<in> F]" using no pools by (auto intro: filter_cong)
    ultimately show ?thesis by metis
  qed
  moreover have "acc_members A' u = acc_members A u \<and> listeners_of A' u = listeners_of A u \<and> monitors_of A' u = monitors_of A u"
    if u: "u \<in> foreign_pools F A" for u
  proof -
    obtain p where p: "p \<in> set (acc_pools A)" "pool_LoadBalancerUUID p \<in> F" "u = pool_UUID p" using u by (auto simp: foreign_pools_def)
    then have "p \<in> set [p \<leftarrow> acc_pools A'. pool_LoadBalancerUUID p \<in> F]" unfolding own by simp
    then have "p \<in> set (acc_pools A')" by simp
    moreover have "pool_LoadBalancerUUID p \<notin> gone url A" using no p(2) by blast
    moreover have "\<forall>m \<in> set (acc_members A u). mem_HREF m \<noteq> url" "\<forall>l \<in> set (listeners_of A u). lis_HREF l \<noteq> url"
      "\<forall>m \<in> set (monitors_of A u). mon_HREF m \<noteq> url" using assms(2) u by (auto simp: foreign_hrefs_def)
    ultimately show ?thesis using laws p(3) by (simp add: filter_other)
  qed
  ultimately have "same_for F A A'" by (simp add: same_for_def)
  moreover have "list_all2 (fip_kept F I) (acc_fips A) (acc_fips A')"
    using laws [THEN conjunct2, THEN conjunct2, THEN conjunct2]
    by (rule list.rel_mono_strong) (use no in \<open>auto simp: fip_kept_def\<close>)
  ultimately show ?thesis by (simp add: untouched_def)
qed

section \<open>Running actions\<close>

text \<open>The account invariant \<open>J\<close> is kept by a call.\<close>

definition keeps :: "'w api_model \<Rightarrow> (account \<Rightarrow> bool) \<Rightarrow> ('w \<Rightarrow> 'r \<times> 'w) \<Rightarrow> bool" where
  "keeps M J f \<longleftrightarrow> (\<forall>w. am_ok M w \<and> J (am_acct M w) \<longrightarrow> am_ok M (snd (f w)) \<and> J (am_acct M (snd (f w))))"

lemma keepsD: "keeps M J f \<Longrightarrow> am_ok M w \<Longrightarrow> J (am_acct M w) \<Longrightarrow> f w = (r, w') \<Longrightarrow> am_ok M w' \<and> J (am_acct M w')"
  unfolding keeps_def by (metis snd_conv)

lemma calm_keeps: "calm M f \<Longrightarrow> keeps M J f"
  by (simp add: calm_def keeps_def)

lemma attempt_untouched:
  assumes "truthful_api M" "am_ok M w" "attempts M call R"
    and "\<And>A'. wf_account A' \<Longrightarrow> R (am_acct M w) A' \<Longrightarrow> untouched F I (am_acct M w) A'"
  shows "am_ok M (snd (proceed_call call w)) \<and> untouched F I (am_acct M w) (am_acct M (snd (proceed_call call w)))"
proof -
  have "snd (proceed_call call w) = snd (call w)" by (simp add: proceed_call_def split: prod.split)
  moreover have "am_ok M (snd (call w))" "am_acct M (snd (call w)) = am_acct M w \<or> R (am_acct M w) (am_acct M (snd (call w)))"
    using assms(2,3) unfolding attempts_def by blast+
  ultimately show ?thesis using assms(4) truthfulD(1) [OF assms(1), of "snd (call w)"] by auto
qed

lemma Run_untouched:
  assumes "truthful_api M" "am_ok M w" "F \<subseteq> lb_UUIDs (am_acct M w)" "spares F I (am_acct M w) a"
  shows "am_ok M (snd (Run (am_client M) a w)) \<and> untouched F I (am_acct M w) (am_acct M (snd (Run (am_client M) a w)))"
proof -
  note attempt = attempt_untouched [OF assms(1,2)] and writes = truthful_writes [OF assms(1)]
  note listener = attempt [OF writes(6) listener_updated_spares] and monitor = attempt [OF writes(8) monitor_updated_spares]
  show ?thesis
  proof (cases a)
    case (CreateLbAction lb)
    then show ?thesis using attempt [OF writes(1) lb_created_spares [OF _ assms(3)]] by simp
  next
    case (RenameLbAction u name)
    then show ?thesis using attempt [OF writes(2) lb_renamed_spares] assms(4) by simp
  next
    case (DeleteResourceAction url)
    then show ?thesis using attempt [OF writes(10) deleted_spares] assms(2,4)
      by (cases "client_NewRequest (am_client M) ''DELETE'' url") simp_all
  next
    case (SleepAction d)
    then show ?thesis using calmD [OF truthfulD(12) [OF assms(1)] assms(2), of d]
      by (cases "wait_or_done (am_client M) d w") auto
  next
    case (CreatePoolAction u p)
    then show ?thesis using attempt [OF writes(3) pool_created_spares] assms(4) by (simp add: CreatePool_request_def)
  next
    case (CreatePoolMemberAction u m)
    then show ?thesis using attempt [OF writes(4) member_created_spares] assms(4) by simp
  next
    case (CreateListenerAction u l)
    then show ?thesis using attempt [OF writes(5) listener_created_spares] assms(4) by (simp add: CreateListener_request_def)
  next
    case (CreateHealthMonitorAction u m)
    then show ?thesis using attempt [OF writes(7) monitor_created_spares] assms(4)
      by (simp add: CreateHealthMonitor_request_def Let_def)
  next
    case (UpdateListenerTimeoutAction u t key)
    then show ?thesis using listener assms(2,4) by (cases "UpdateListenerTimeout_request key t") simp_all
  next
    case (UpdateMonitorNumberAction u n key)
    then show ?thesis using monitor assms(2,4) by (cases "UpdateMonitorNumber_request key n") simp_all
  next
    case (AssignFloatingIPAction ip u)
    then show ?thesis using attempt [OF writes(9) fip_assigned_spares] assms(4)
      by (cases "strings_Cut ip ''/''") (auto simp: fip_address_def)
  qed (use listener monitor assms(2,4) in simp_all)
qed

text \<open>
  The invariant of a reconciliation that started with the account \<open>A0\<close>, and running a plan whose actions
  all spare the load balancers in \<open>F\<close>, up to whatever point it gets.
\<close>

lemma untouched_UUIDs:
  assumes "untouched F I A0 A" "F \<subseteq> lb_UUIDs A0"
  shows "F \<subseteq> lb_UUIDs A"
proof
  fix u assume "u \<in> F"
  with assms(2) obtain l where "l \<in> {l \<in> set (acc_lbs A0). lb_UUID l \<in> F}" "u = lb_UUID l" by auto
  then show "u \<in> lb_UUIDs A" using same_for_sets(1) [of F A0 A] assms(1) by (auto simp: untouched_def)
qed

lemma runActions_untouched:
  assumes "truthful_api M" "F \<subseteq> lb_UUIDs A0" "\<forall>a \<in> set acts. spares F I A0 a"
  shows "keeps M (untouched F I A0) (runActions x (am_client M) acts)"
  unfolding keeps_def
proof (intro allI impI)
  fix w assume "am_ok M w \<and> untouched F I A0 (am_acct M w)"
  then show "am_ok M (snd (runActions x (am_client M) acts w)) \<and> untouched F I A0 (am_acct M (snd (runActions x (am_client M) acts w)))"
    using assms(3)
  proof (induction acts arbitrary: w)
    case (Cons a acts)
    let ?w = "snd (Run (am_client M) a w)"
    have "spares F I (am_acct M w) a"
      using Cons.prems spares_same [of F A0 "am_acct M w" I a] by (simp add: untouched_def)
    then have "am_ok M ?w" "untouched F I (am_acct M w) (am_acct M ?w)"
      using Run_untouched [OF assms(1)] Cons.prems(1) untouched_UUIDs [OF _ assms(2)] by blast+
    then have w: "am_ok M ?w \<and> untouched F I A0 (am_acct M ?w)" using untouched_trans Cons.prems(1) by blast
    show ?case
    proof (cases "ctx_Err (am_client M) w")
      case None
      then show ?thesis using w Cons.IH [OF w] Cons.prems(2)
        by (cases rule: runActions_Cons [OF None, of a x acts]) (simp_all del: Run.simps)
    qed (use Cons.prems in simp)
  qed simp
qed

end
