(* ===== verification/Confined_Rounds.thy ===== *)
theory Confined_Rounds
  imports Confinement
begin

text \<open>
  The rounds of a reconciliation spare the load balancers of other services: what is read belongs to the
  service, so does everything a plan refers to, and so a whole reconciliation leaves the others alone,
  however it ends.
\<close>

section \<open>Calls that change nothing\<close>

lemma calm_return [simp]: "calm M (return_io y)" "calm M (res_io r)" "calm M (\<lambda>w. (y, w))"
  by (simp_all add: calm_def)

lemma calm_bind_io:
  assumes "calm M f" "\<And>y. calm M (g y)"
  shows "calm M (bind_io f g)"
  unfolding calm_def
proof (intro allI impI)
  fix w assume ok: "am_ok M w"
  obtain r w' where f: "f w = (r, w')" by fastforce
  note w' = calmD [OF assms(1) ok f]
  then show "am_ok M (snd (bind_io f g w)) \<and> am_acct M (snd (bind_io f g w)) = am_acct M w"
    using f assms(2) by (cases r) (auto simp: bind_io_apply calm_def)
qed

lemma calm_wrap_io: "calm M f \<Longrightarrow> calm M (wrap_io p f)"
  by (simp add: calm_def wrap_io_apply)

lemma calm_sdk_call: "calm M call \<Longrightarrow> calm M (sdk_call call)"
  by (simp add: calm_def sdk_call_def case_prod_beta)

text \<open>A call whose result decides how to go on.\<close>

lemma calm_case:
  assumes "calm M f" "\<And>r. calm M (g r)"
  shows "calm M (\<lambda>w. case f w of (r, w') \<Rightarrow> g r w')"
  using assms by (simp add: calm_def case_prod_beta)

lemmas calm_rules = calm_bind_io calm_wrap_io calm_sdk_call calm_case

section \<open>Reading\<close>

lemma lb_getByUUID_tells:
  assumes "truthful_api M"
  shows "calm M (lb_getByUUID (am_client M) u)"
    and "am_ok M w \<Longrightarrow> lb_getByUUID (am_client M) u w = (found, w') \<Longrightarrow> lb \<in> set (lim_elements found) \<Longrightarrow>
      lb_UUID lb = u \<and> no_status lb \<in> set (acc_lbs (am_acct M w))"
proof -
  note get = truthfulD(4) [OF assms, of u]
  show "calm M (lb_getByUUID (am_client M) u)"
    using tells_calm [OF get] by (auto simp: calm_def lb_getByUUID_def split: prod.split sum.split)
  assume ok: "am_ok M w" and call: "lb_getByUUID (am_client M) u w = (found, w')" "lb \<in> set (lim_elements found)"
  then obtain v where "LoadBalancers_Get (am_client M) u w = (Inr lb, v)"
    by (auto simp: lb_getByUUID_def split: prod.splits sum.splits if_splits)
  from tellsD(3) [OF get ok this] show "lb_UUID lb = u \<and> no_status lb \<in> set (acc_lbs (am_acct M w))" by simp
qed

lemma lb_findByName_tells:
  assumes "truthful_api M"
  shows "calm M (lb_findByName (am_client M) name)"
    and "am_ok M w \<Longrightarrow> lb_findByName (am_client M) name w = (found, w') \<Longrightarrow> lb \<in> set (lim_elements found) \<Longrightarrow>
      lb_Name lb = name \<and> no_status lb \<in> set (acc_lbs (am_acct M w))"
proof -
  note list = truthfulD(3) [OF assms]
  show "calm M (lb_findByName (am_client M) name)"
    using tells_calm [OF list] by (auto simp: calm_def lb_findByName_def split: prod.split sum.split)
  assume ok: "am_ok M w" and call: "lb_findByName (am_client M) name w = (found, w')" "lb \<in> set (lim_elements found)"
  then obtain lbs v where lbs: "LoadBalancers_List (am_client M) w = (Inr lbs, v)" "lb \<in> set lbs" "lb_Name lb = name"
    by (auto simp: lb_findByName_def split: prod.splits sum.splits if_splits)
  have "map no_status lbs = acc_lbs (am_acct M w)" using tellsD(3) [OF list ok lbs(1)] by simp
  then have "no_status ` set lbs = set (acc_lbs (am_acct M w))" by (metis list.set_map)
  with lbs(2,3) show "lb_Name lb = name \<and> no_status lb \<in> set (acc_lbs (am_acct M w))" by blast
qed

lemma findByServiceInfo_tells:
  assumes "truthful_api M"
  shows "calm M (findByServiceInfo (am_client M) info)"
    and "am_ok M w \<Longrightarrow> findByServiceInfo (am_client M) info w = (found, w') \<Longrightarrow> lb \<in> set (lim_elements found) \<Longrightarrow>
      no_status lb \<in> set (candidates info (am_acct M w))"
proof -
  note get = lb_getByUUID_tells [OF assms] and find = lb_findByName_tells [OF assms]
  show "calm M (findByServiceInfo (am_client M) info)"
    by (cases "annotation info LoadBalancerUUID = []")
       (simp_all add: findByServiceInfo_def [abs_def] find(1), intro calm_case get(1) find(1) calm_return)
  assume ok: "am_ok M w" and call: "findByServiceInfo (am_client M) info w = (found, w')" and lb: "lb \<in> set (lim_elements found)"
  let ?u = "annotation info LoadBalancerUUID" and ?n = "annotation info LoadBalancerName"
  show "no_status lb \<in> set (candidates info (am_acct M w))"
  proof (cases "?u = []")
    case True
    then show ?thesis using find(2) [OF ok _ lb] call by (simp add: findByServiceInfo_def candidates_def)
  next
    case False
    obtain l1 w1 where g: "lb_getByUUID (am_client M) ?u w = (l1, w1)" by fastforce
    obtain l2 w2 where f: "lb_findByName (am_client M) ?n w1 = (l2, w2)" by fastforce
    have "found = limiter_Unique (\<lambda>a b. lb_UUID a = lb_UUID b) (limiter_Join [l1, l2])"
      using call find_with_uuid [OF refl False g f] by simp
    then have "lb \<in> set (lim_elements l1) \<union> set (lim_elements l2)"
      using lb Unique_keys(3) [of "\<lambda>a b. lb_UUID a = lb_UUID b" lb_UUID "limiter_Join [l1, l2]"] by auto
    moreover have "am_ok M w1 \<and> am_acct M w1 = am_acct M w" by (rule calmD [OF get(1) ok g])
    ultimately show ?thesis using get(2) [OF ok g, of lb] find(2) [OF _ f, of lb] False by (auto simp: candidates_def)
  qed
qed

lemma actual_pools_tells:
  assumes "truthful_api M"
  shows "calm M (actual_pools (am_client M) lb mons lss i pools s)"
    and "am_ok M w \<Longrightarrow> actual_pools (am_client M) lb mons lss i pools s w = (Ok s', w') \<Longrightarrow> pool_UUID ` set pools \<subseteq> pool_UUIDs (am_acct M w) \<Longrightarrow>
      (j, p) \<in> set (own_pools lb i pools) \<Longrightarrow> st_members s' (Some j) = acc_members (am_acct M w) (pool_UUID p)"
proof -
  note list = truthfulD(6) [OF assms]
  show "calm M (actual_pools (am_client M) lb mons lss i pools s)"
    by (induction pools arbitrary: i s) (auto intro!: calm_rules tells_calm [OF list] simp: fun_eq_iff)
  show "am_ok M w \<Longrightarrow> actual_pools (am_client M) lb mons lss i pools s w = (Ok s', w') \<Longrightarrow> pool_UUID ` set pools \<subseteq> pool_UUIDs (am_acct M w) \<Longrightarrow>
      (j, p) \<in> set (own_pools lb i pools) \<Longrightarrow> st_members s' (Some j) = acc_members (am_acct M w) (pool_UUID p)"
  proof (induction pools arbitrary: i s w)
    case (Cons q pools)
    show ?case
    proof (cases "pool_LoadBalancerUUID q = lb_UUID lb")
      case False
      then show ?thesis using Cons.IH [OF Cons.prems(1), of "Suc i" s] Cons.prems by simp
    next
      case True
      then obtain ms w1 where ms: "Members_List (am_client M) (pool_UUID q) w = (Inr ms, w1)" and
        rest: "actual_pools (am_client M) lb mons lss (Suc i) pools (s\<lparr>st_pools := st_pools s @ [(i, q)],
             st_members := (st_members s)(Some i := ms),
             st_monitors := append_at (Some i) [m \<leftarrow> mons. mon_PoolUUID m = pool_UUID q] (st_monitors s),
             st_listeners := append_at (Some i) [l \<leftarrow> lss. lis_PoolUUID l = Some (pool_UUID q)] (st_listeners s)\<rparr>) w1 = (Ok s', w')"
        using Cons.prems(2) by (auto simp: bind_io_eq_Ok wrap_io_eq_Ok sdk_call_Ok)
      note tells = tellsD [OF list Cons.prems(1) ms]
      from Cons.prems(4) True consider "j = i" "p = q" | "(j, p) \<in> set (own_pools lb (Suc i) pools)" by auto
      then show ?thesis
      proof cases
        case 1
        then show ?thesis using actual_pools_frame(2) [OF rest, of i] tells(3) [of ms] Cons.prems(3) by simp
      next
        case 2
        then show ?thesis using Cons.IH [OF tells(1) rest] tells(2) Cons.prems(3) by simp
      qed
    qed
  qed (simp add: own_pools_def)
qed

lemma loaded_lbState_tells:
  assumes "truthful_api M"
  shows "calm M (loaded_lbState (am_client M) lb)"
    and "am_ok M w \<Longrightarrow> loaded_lbState (am_client M) lb w = (Ok s, w') \<Longrightarrow> shows_account (am_acct M w) lb s"
proof -
  note reads = truthfulD [OF assms]
  show "calm M (loaded_lbState (am_client M) lb)"
    unfolding loaded_lbState_def Let_def
    by (intro calm_rules tells_calm [OF reads(5)] tells_calm [OF reads(7)] tells_calm [OF reads(8)] tells_calm [OF reads(9)]
        actual_pools_tells(1) [OF assms] calm_return)
  assume ok: "am_ok M w" and "loaded_lbState (am_client M) lb w = (Ok s, w')"
  from this(2) obtain mons lss pls ips w1 w2 w3 s1 w4 where
    calls: "Monitors_List (am_client M) w = (Inr mons, w1)" "Listeners_List (am_client M) w1 = (Inr lss, w2)"
      "Pools_List (am_client M) w2 = (Inr pls, w3)"
      "actual_pools (am_client M) lb mons lss 0 pls (newLbState lb) w3 = (Ok s1, w4)" "FloatingIPs_List (am_client M) w4 = (Inr ips, w')"
    and s: "s = s1\<lparr>st_listeners := append_at None
           [l \<leftarrow> lss. lis_PoolUUID l = None \<and> lis_LoadBalancerUUID l = lb_UUID lb] (st_listeners s1),
         st_floatingIPs := st_floatingIPs s1 @ map fip_Network [ip \<leftarrow> ips. fip_LoadBalancerUUID ip = Some (lb_UUID lb)]\<rparr>"
    by (rule loaded_lbState_Ok)
  let ?A = "am_acct M w"
  note r1 = tellsD [OF reads(8) ok calls(1)]
  note r2 = tellsD [OF reads(7) r1(1) calls(2)]
  note r3 = tellsD [OF reads(5) r2(1) calls(3)]
  note r4 = calmD [OF actual_pools_tells(1) [OF assms] r3(1) calls(4)]
  note r5 = tellsD(3) [OF reads(9) conjunct1 [OF r4] calls(5)]
  have got: "map no_address mons = acc_monitors ?A" "lss = acc_listeners ?A" "pls = acc_pools ?A" "ips = acc_fips ?A"
    using r1(2,3) r2(2,3) r3(2,3) r4 r5 by simp_all
  have members: "st_members s1 (Some j) = acc_members ?A (pool_UUID p)" if "(j, p) \<in> set (own_pools lb 0 (acc_pools ?A))" for j p
    using actual_pools_tells(2) [OF assms r3(1) calls(4)] that got(3) r1(2) r2(2) r3(2) by simp
  have "st_listeners s1 (Some q) = listeners_of ?A (pool_UUID p) \<and> map no_address (st_monitors s1 (Some q)) = monitors_of ?A (pool_UUID p)"
    if "(q, p) \<in> set (own_pools lb 0 (acc_pools ?A))" for q p
    using actual_pools_content [OF calls(4) _ that [folded got(3)]]
    by (simp add: listeners_of_def monitors_of_def filter_map comp_def got(2) flip: got(1))
  with members actual_pools_frame(1) [OF calls(4)] got(3,4) show "shows_account ?A lb s" by (auto simp: shows_account_def s)
qed

lemma actualLbState_tells:
  assumes "truthful_api M"
  shows "calm M (actualLbState (am_client M) info)"
    and "am_ok M w \<Longrightarrow> actualLbState (am_client M) info w = (Ok s, w') \<Longrightarrow>
      s = empty_lbState \<or> (\<exists>lb. no_status lb \<in> set (candidates info (am_acct M w)) \<and> shows_account (am_acct M w) lb s)"
proof -
  note find = findByServiceInfo_tells [OF assms] and load = loaded_lbState_tells [OF assms]
  show "calm M (actualLbState (am_client M) info)"
    unfolding actualLbState_def [abs_def] by (intro calm_rules find(1) calm_return) (simp split: option.split add: load(1))
  assume ok: "am_ok M w" and call: "actualLbState (am_client M) info w = (Ok s, w')"
  obtain found w1 where f: "findByServiceInfo (am_client M) info w = (found, w1)" by fastforce
  note w1 = calmD [OF find(1) ok f]
  from call f obtain r where r: "limiter_AtMostOne found = Ok r"
    "(case r of None \<Rightarrow> return_io empty_lbState | Some l \<Rightarrow> loaded_lbState (am_client M) l) w1 = (Ok s, w')"
    by (auto simp: actualLbState_def bind_io_eq_Ok wrap_io_eq_Ok)
  show "s = empty_lbState \<or> (\<exists>lb. no_status lb \<in> set (candidates info (am_acct M w)) \<and> shows_account (am_acct M w) lb s)"
  proof (cases r)
    case (Some lb)
    then have "lb \<in> set (lim_elements found)" using r(1) by (simp add: AtMostOne_Some_iff)
    then show ?thesis using find(2) [OF ok f] load(2) [of w1 lb s w'] w1 r(2) Some by auto
  qed (use r(2) in simp)
qed

section \<open>Plans\<close>

text \<open>The place of a resource of other load balancers.\<close>

fun foreign_place :: "string set \<Rightarrow> account \<Rightarrow> place \<Rightarrow> bool" where
  "foreign_place F A Balancers = False"
| "foreign_place F A (Pools U) = (U \<in> F)"
| "foreign_place F A (Members u) = (u \<in> foreign_pools F A)"
| "foreign_place F A (Listeners u) = (u \<in> foreign_pools F A)"
| "foreign_place F A (Monitors u) = (u \<in> foreign_pools F A)"

lemma foreign_pools_live: "u \<in> foreign_pools F A \<Longrightarrow> u \<in> pool_UUIDs A"
  by (auto simp: foreign_pools_def)

lemma foreign_hrefs_place:
  assumes "url \<in> foreign_hrefs F A"
  obtains l where "l \<in> set (acc_lbs A)" "lb_UUID l \<in> F" "url = lb_HREF l"
  | pl where "foreign_place F A pl" "live A pl" "url \<in> set (hrefs A pl)"
proof -
  note places = that(2) [of "Pools U" for U] that(2) [of "Members u" for u] that(2) [of "Listeners u" for u] that(2) [of "Monitors u" for u]
  show thesis
    using assms that(1) places foreign_pools_live unfolding foreign_hrefs_def by (auto simp: hrefs.simps)
qed

lemma own_href:
  assumes "wf_account A" "live A pl" "pl \<noteq> Balancers" "\<not> foreign_place F A pl" "url \<in> set (hrefs A pl)"
  shows "url \<notin> foreign_hrefs F A"
proof
  assume "url \<in> foreign_hrefs F A"
  then show False
  proof (cases rule: foreign_hrefs_place)
    case (1 l)
    then have "url \<in> set (hrefs A Balancers)" by (simp add: hrefs.simps)
    then show False using wf_hrefs(2) [OF assms(1,2) _ assms(5), of Balancers] assms(3) by simp
  next
    case (2 pl')
    then show False using wf_hrefs(2) [OF assms(1,2) 2(2) assms(5) 2(3)] assms(4) by simp
  qed
qed

lemma own_lb_href:
  assumes "wf_account A" "l \<in> set (acc_lbs A)" "lb_UUID l \<notin> F"
  shows "lb_HREF l \<notin> foreign_hrefs F A"
proof
  have here: "lb_HREF l \<in> set (hrefs A Balancers)" using assms(2) by (simp add: hrefs.simps)
  assume "lb_HREF l \<in> foreign_hrefs F A"
  then show False
  proof (cases rule: foreign_hrefs_place)
    case (1 l')
    have "distinct (map lb_HREF (acc_lbs A))" using wf_hrefs(1) [OF assms(1), of Balancers] by (simp add: hrefs.simps)
    then have "l' = l" using 1 assms(2) by (metis distinct_map inj_onD)
    then show False using 1 assms(3) by simp
  next
    case (2 pl)
    then show False using wf_hrefs(2) [OF assms(1) _ 2(2) here 2(3)] by (cases pl) simp_all
  qed
qed

text \<open>What the state read from the account refers to belongs to the load balancer of the service.\<close>

lemma own_contents:
  assumes "wf_account A" "shows_account A lb s" "lb_UUID lb \<notin> F" "a \<in> set (st_pools s)"
  shows "pool_UUID (snd a) \<notin> foreign_pools F A" "pool_HREF (snd a) \<notin> foreign_hrefs F A"
    and "m \<in> set (st_members s (Some (fst a))) \<Longrightarrow> mem_HREF m \<notin> foreign_hrefs F A"
    and "l \<in> set (st_listeners s (Some (fst a))) \<Longrightarrow>
      lis_HREF l \<notin> foreign_hrefs F A \<and> (\<forall>v \<in> foreign_pools F A. lis_UUID l \<notin> lis_UUID ` set (listeners_of A v))"
    and "n \<in> set (st_monitors s (Some (fst a))) \<Longrightarrow>
      mon_HREF n \<notin> foreign_hrefs F A \<and> (\<forall>v \<in> foreign_pools F A. mon_UUID n \<notin> mon_UUID ` set (monitors_of A v))"
proof -
  note view = shows_accountD [OF assms(2)]
  let ?p = "snd a" and ?u = "pool_UUID (snd a)"
  have p: "?p \<in> set (acc_pools A)" using view(3) [OF assms(4)] by blast
  have "snd a \<in> set (map snd (st_pools s))" using assms(4) by simp
  then have own: "pool_LoadBalancerUUID ?p = lb_UUID lb" unfolding view(2) by simp
  have unique: "distinct (map pool_UUID (acc_pools A))" "distinct (map lis_UUID (acc_listeners A))" "distinct (map mon_UUID (acc_monitors A))"
    using assms(1) by (simp_all add: wf_account_def)
  show u: "?u \<notin> foreign_pools F A"
  proof
    assume "?u \<in> foreign_pools F A"
    then obtain q where "q \<in> set (acc_pools A)" "pool_LoadBalancerUUID q \<in> F" "pool_UUID q = ?u" by (auto simp: foreign_pools_def)
    moreover from this have "q = ?p" using unique(1) p by (metis distinct_map inj_onD)
    ultimately show False using own assms(3) by simp
  qed
  show "pool_HREF ?p \<notin> foreign_hrefs F A"
    by (rule own_href [OF assms(1), of "Pools (lb_UUID lb)"]) (use p own assms(3) in \<open>simp_all add: hrefs.simps\<close>)
  show "mem_HREF m \<notin> foreign_hrefs F A" if "m \<in> set (st_members s (Some (fst a)))"
    by (rule own_href [OF assms(1), of "Members ?u"]) (use p u that view(3) [OF assms(4)] in \<open>simp_all add: hrefs.simps\<close>)
  show "lis_HREF l \<notin> foreign_hrefs F A \<and> (\<forall>v \<in> foreign_pools F A. lis_UUID l \<notin> lis_UUID ` set (listeners_of A v))"
    if "l \<in> set (st_listeners s (Some (fst a)))"
  proof -
    have l: "l \<in> set (listeners_of A ?u)" using that view(3) [OF assms(4)] by simp
    have "lis_UUID l \<noteq> lis_UUID k" if "v \<in> foreign_pools F A" "k \<in> set (listeners_of A v)" for v k
      using l that u inj_onD [OF conjunct2 [OF unique(2) [unfolded distinct_map]], of l k] by (auto simp: listeners_of_def)
    moreover have "lis_HREF l \<notin> foreign_hrefs F A"
      by (rule own_href [OF assms(1), of "Listeners ?u"]) (use p u l in \<open>simp_all add: hrefs.simps\<close>)
    ultimately show ?thesis by blast
  qed
  show "mon_HREF n \<notin> foreign_hrefs F A \<and> (\<forall>v \<in> foreign_pools F A. mon_UUID n \<notin> mon_UUID ` set (monitors_of A v))"
    if "n \<in> set (st_monitors s (Some (fst a)))"
  proof -
    have "no_address n \<in> set (map no_address (st_monitors s (Some (fst a))))" using that by simp
    then have n: "no_address n \<in> set (monitors_of A ?u)" using view(3) [OF assms(4)] by simp
    have "mon_UUID n \<noteq> mon_UUID k" if "v \<in> foreign_pools F A" "k \<in> set (monitors_of A v)" for v k
      using n that u inj_onD [OF conjunct2 [OF unique(3) [unfolded distinct_map]], of "no_address n" k] by (auto simp: monitors_of_def)
    moreover have "mon_HREF (no_address n) \<notin> foreign_hrefs F A"
      by (rule own_href [OF assms(1), of "Monitors ?u"]) (use p u n in \<open>simp_all add: hrefs.simps del: no_address_sel\<close>)
    ultimately show ?thesis by auto
  qed
qed

lemma recreate_pool_spares:
  assumes "wf_account A" "shows_account A lb s" "lb_UUID lb \<notin> F" "valid_site_orders ro"
    and "recreate_pool x ro desired s j d = Ok here" "act \<in> set here"
  shows "spares F I A act"
proof -
  obtain a where a: "counterpart s d = Some a" and parts:
    "act \<in> set (recreate (ro (MembersSite j)) (st_members desired (Some (fst d))) (st_members s (Some (fst a)))
          (poolMemberKey x) mem_HREF (CreatePoolMemberAction (pool_UUID (snd a)))) \<or>
     act \<in> set (recreate (ro (ListenersSite j)) (st_listeners desired (Some (fst d))) (st_listeners s (Some (fst a)))
          (listenerKey x) lis_HREF (CreateListenerAction (pool_UUID (snd a)))) \<or>
     act \<in> set (recreate (ro (MonitorsSite j)) (st_monitors desired (Some (fst d))) (st_monitors s (Some (fst a)))
          (monitorKey x) mon_HREF (CreateHealthMonitorAction (pool_UUID (snd a))))"
    using assms(5,6) by (auto simp: recreate_pool_def split: option.splits)
  note own = own_contents [OF assms(1-3) conjunct1 [OF counterpart_mem [OF a]]] and valid = valid_site_ordersD [OF assms(4)]
  from parts show ?thesis
    by (elim disjE; elim recreate_mem [OF valid]) (use own in auto)
qed

lemma update_pool_spares:
  assumes "wf_account A" "shows_account A lb s" "lb_UUID lb \<notin> F" "counterpart s d = Some a" "act \<in> set (update_pool x desired s d)"
  shows "spares F I A act"
proof -
  note own = own_contents [OF assms(1-3) conjunct1 [OF counterpart_mem [OF assms(4)]]]
  from assms(4,5) consider
    dl al where "al \<in> set (st_listeners s (Some (fst a)))" "act \<in> set (update_listener (dl, al))"
  | dm am where "am \<in> set (st_monitors s (Some (fst a)))" "act \<in> set (update_monitor (dm, am))"
    by (auto simp: update_pool_def Let_def dest!: MatchD)
  then show ?thesis
  proof cases
    case 1
    then show ?thesis using own(4) [OF 1(1)] by (auto simp: update_listener_def split: if_splits)
  next
    case 2
    then show ?thesis using own(5) [OF 2(1)]
      by (auto simp: update_monitor_def update_monitor_http_def split: if_splits option.splits)
  qed
qed

definition addresses :: "string list \<Rightarrow> string set" where
  "addresses ips = (\<lambda>ip. fip_address \<lparr>fip_Network = ip, fip_LoadBalancerUUID = None\<rparr>) ` set ips"

lemma plan_spares:
  assumes "wf_account A" "shows_account A lb s" "no_status lb \<in> set (acc_lbs A)" "lb_UUID lb \<notin> F" "valid_site_orders ro"
    and "nextLbActions x ro (Some desired) (Some s) = Ok acts" "addresses (st_floatingIPs desired) \<subseteq> I" "act \<in> set acts"
  shows "spares F I A act"
proof (cases "st_lb desired")
  case None
  have "lb_HREF (no_status lb) \<notin> foreign_hrefs F A" by (rule own_lb_href [OF assms(1,3)]) (simp add: assms(4))
  then show ?thesis using assms(6,8) None shows_accountD(1) [OF assms(2)] by (auto simp: nextLbActions_def)
next
  case (Some dlb)
  note own = own_contents [OF assms(1,2,4)]
  from assms(5) nextLbActions_change [OF Some shows_accountD(1) [OF assms(2)] assms(6)] show ?thesis
  proof (cases rule: change_actions_cases)
    case (pools del cre)
    have "spares F I A b" if "a \<in> set del" "b \<in> set (delete_pool s a)" for a b
    proof -
      have "a \<in> set (st_pools s)" using that(1) go_diff.delete_subset [OF valid_site_ordersD [OF assms(5)] pools(1)] by blast
      from own(2,3) [OF this] that(2) show ?thesis by (auto simp: delete_pool_def)
    qed
    then show ?thesis using assms(4,8) by (auto simp: pools(3) split: if_splits)
  next
    case (contents changes)
    have "spares F I A b" if b: "b \<in> set changes" for b
      using recreate_pools_mem [OF contents(1) b] recreate_pool_spares [OF assms(1,2,4,5)] by blast
    then show ?thesis using assms(4,8) by (auto simp: contents(3) split: if_splits)
  next
    case settled
    have "spares F I A b" if "d \<in> set (st_pools desired)" "b \<in> set (update_pool x desired s d)" for d b
      using settled(2) that update_pool_spares [OF assms(1,2,4)] unfolding same_structure_def by blast
    moreover have "spares F I A b" if b: "b \<in> set (assign_floating ro lb desired s)" for b
    proof -
      obtain del cre where diff: "Diff (ro FloatingSite) (st_floatingIPs desired) (st_floatingIPs s) (\<lambda>ip. ip) = (del, cre)" by fastforce
      then obtain ip where ip: "ip \<in> set cre" "b = AssignFloatingIPAction ip (lb_UUID lb)" using b by (auto simp: assign_floating_def)
      then have "ip \<in> set (st_floatingIPs desired)" using go_diff.create_subset [OF valid_site_ordersD [OF assms(5)] diff] by blast
      then show ?thesis using assms(7) ip(2) by (auto simp: addresses_def)
    qed
    ultimately show ?thesis using assms(4,8) by (auto simp: settled(1) split: if_splits)
  qed
qed

section \<open>Rounds\<close>

definition foreign :: "serviceInfo \<Rightarrow> account \<Rightarrow> string set" where
  "foreign info A = lb_UUIDs A - lb_UUID ` set (candidates info A)"

lemma foreign_not_candidate:
  assumes "wf_account A" "untouched (foreign info start) I start A" "l \<in> set (candidates info A)"
  shows "lb_UUID l \<notin> foreign info start"
proof
  let ?F = "foreign info start"
  assume F: "lb_UUID l \<in> ?F"
  have "l \<in> {l \<in> set (acc_lbs A). lb_UUID l \<in> ?F}" using assms(3) F by (simp add: candidates_def)
  then have "l \<in> set (acc_lbs start)" using same_for_sets(1) [of ?F start A] assms(2) unfolding untouched_def by blast
  then have "l \<in> set (candidates info start)" using assms(3) by (simp add: candidates_def)
  with F show False by (simp add: foreign_def)
qed

lemma plan_of_candidate_spares:
  assumes "truthful_api M" "untouched (foreign info start) I start (am_acct M w)" "am_ok M w"
    and "actualLbState (am_client M) info w = (Ok s, w')" "valid_site_orders ro"
    and "nextLbActions x ro (Some desired) (Some s) = Ok acts" "addresses (st_floatingIPs desired) \<subseteq> I" "act \<in> set acts"
  shows "spares (foreign info start) I start act"
proof -
  note same = spares_same [OF conjunct1 [OF assms(2) [unfolded untouched_def]], of I act]
  from actualLbState_tells(2) [OF assms(1,3,4)] show ?thesis
  proof (elim disjE exE conjE)
    assume "s = empty_lbState"
    then show ?thesis using assms(6,8) by (auto simp: nextLbActions_def empty_lbState_def split: option.splits)
  next
    fix lb assume lb: "no_status lb \<in> set (candidates info (am_acct M w))" "shows_account (am_acct M w) lb s"
    have "lb_UUID (no_status lb) \<notin> foreign info start"
      by (rule foreign_not_candidate [OF truthfulD(1) [OF assms(1,3)] assms(2) lb(1)])
    then have "spares (foreign info start) I (am_acct M w) act"
      using lb(1) by (intro plan_spares [OF truthfulD(1) [OF assms(1,3)] lb(2) _ _ assms(5-8)]) (simp_all add: candidates_def)
    then show ?thesis using same by simp
  qed
qed

text \<open>
  A reconciliation keeps the load balancers of others, if computing the desired state changes nothing
  and asks for no floating IPs but those in \<open>I\<close>; it may end with success, with an error, or with a panic.
\<close>

lemma reconcile_round_untouched:
  assumes "truthful_api M" "calm M ds"
    and "\<And>v d v'. ds v = (Ok (Some d), v') \<Longrightarrow> addresses (st_floatingIPs d) \<subseteq> I"
  shows "keeps M (untouched (foreign info start) I start) (reconcile_round x (am_client M) ds (bind_io (actualLbState (am_client M) info) (\<lambda>s. return_io (Some s))))"
  (is "keeps M ?J (reconcile_round x ?c ds ?as)")
  unfolding keeps_def
proof (intro allI impI, elim conjE)
  fix w assume ok: "am_ok M w" and J: "?J (am_acct M w)"
  let ?round = "reconcile_round x ?c ds ?as w"
  obtain r1 w1 where r1: "ds w = (r1, w1)" by fastforce
  note w1 = calmD [OF assms(2) ok r1]
  obtain r2 w2 where r2: "actualLbState ?c info w1 = (r2, w2)" by fastforce
  note w2 = calmD [OF actualLbState_tells(1) [OF assms(1)] conjunct1 [OF w1] r2]
  show "am_ok M (snd ?round) \<and> ?J (am_acct M (snd ?round))"
  proof (cases "\<exists>d s acts. r1 = Ok d \<and> r2 = Ok s \<and> nextLbActions x (range_orders ?c w2) d (Some s) = Ok acts")
    case False
    then show ?thesis using r1 r2 w1 w2 J
      by (cases r1; cases r2) (auto simp: reconcile_round_def bind_io_apply split: res.splits)
  next
    case True
    then obtain d s acts where r: "r1 = Ok d" "r2 = Ok s" and plan: "nextLbActions x (range_orders ?c w2) d (Some s) = Ok acts" by blast
    then obtain desired where d: "d = Some desired" by (cases d) (simp_all add: nextLbActions_def)
    have "\<forall>a \<in> set acts. spares (foreign info start) I start a"
      using plan_of_candidate_spares [OF assms(1) _ _ r2 [unfolded r(2)] truthfulD(2) [OF assms(1)] plan [unfolded d]
          assms(3) [OF r1 [unfolded r(1) d]]] w1 w2 J by auto
    then have run: "keeps M ?J (runActions x ?c acts)"
      by (intro runActions_untouched [OF assms(1)]) (auto simp: foreign_def)
    obtain r3 w3 where r3: "runActions x ?c acts w2 = (r3, w3)" by fastforce
    note w3 = keepsD [OF run _ _ r3]
    have "calm M (wait_for_next ?c)"
      unfolding wait_for_next_def [abs_def] by (intro calm_case truthfulD(12,13) [OF assms(1)])
    then have wait: "am_ok M (snd (wait_for_next ?c w3)) \<and> ?J (am_acct M (snd (wait_for_next ?c w3)))"
      using w3 w1 w2 J by (simp add: calm_def)
    have "snd ?round = w3 \<or> snd ?round = snd (wait_for_next ?c w3)"
      using r1 r2 r3 r plan by (cases r3) (auto simp: reconcile_round_def bind_io_apply split: prod.splits)
    with w3 wait w1 w2 J show ?thesis by auto
  qed
qed

lemma reconcile_untouched:
  assumes "truthful_api M" "calm M ds"
    and "\<And>v d v'. ds v = (Ok (Some d), v') \<Longrightarrow> addresses (st_floatingIPs d) \<subseteq> I"
    and "as = bind_io (actualLbState (am_client M) info) (\<lambda>s. return_io (Some s))"
    and "am_ok M w" "untouched (foreign info start) I start (am_acct M w)" "reconcileLbState x (am_client M) ds as fuel w = Some (r, w')"
  shows "am_ok M w' \<and> untouched (foreign info start) I start (am_acct M w')"
  using assms(5-7)
proof (induction fuel arbitrary: w)
  case (Suc fuel)
  obtain q v where q: "reconcile_round x (am_client M) ds as w = (q, v)" by fastforce
  have "keeps M (untouched (foreign info start) I start) (reconcile_round x (am_client M) ds as)"
    unfolding assms(4) by (rule reconcile_round_untouched [OF assms(1,2)]) (rule assms(3))
  then have v: "am_ok M v \<and> untouched (foreign info start) I start (am_acct M v)"
    using q Suc.prems(1,2) by (intro keepsD [where f = "reconcile_round x (am_client M) ds as" and w = w and r = q])
  show ?case using v Suc.IH [of v] Suc.prems(3) q by (cases q) auto
qed simp

end
