(* ===== verification/Updates_In_Place.thy ===== *)
theory Updates_In_Place
  imports Plan_Effects
begin

text \<open>
  The last part of a plan: changing listeners and monitors in place, and assigning floating IPs. None
  of it changes the structure of the load balancer.
\<close>

section \<open>The effect on one resource\<close>

text \<open>The request an action sends to a listener or a monitor.\<close>

fun listener_request :: "action \<Rightarrow> (string \<times> ListenerRequest) option" where
  "listener_request (UpdateListenerAllowedCIDRsAction u cidrs) = Some (u, zero_ListenerRequest\<lparr>lisreq_AllowedCIDRs := Some cidrs\<rparr>)"
| "listener_request (UpdateListenerTimeoutAction u t key) = map_option (Pair u) (UpdateListenerTimeout_request key t)"
| "listener_request _ = None"

fun monitor_request :: "action \<Rightarrow> (string \<times> MonitorRequest) option" where
  "monitor_request (UpdateMonitorHTTPMethodAction u v) = Some (u, http_only (zero_MonitorHTTPRequest\<lparr>httpreq_Method := v\<rparr>))"
| "monitor_request (UpdateMonitorHTTPPathAction u v) = Some (u, http_only (zero_MonitorHTTPRequest\<lparr>httpreq_URLPath := v\<rparr>))"
| "monitor_request (UpdateMonitorHTTPHostAction u v) = Some (u, http_only (zero_MonitorHTTPRequest\<lparr>httpreq_Host := v\<rparr>))"
| "monitor_request (UpdateMonitorHTTPExpectedCodesAction u v) = Some (u, http_only (zero_MonitorHTTPRequest\<lparr>httpreq_ExpectedCodes := v\<rparr>))"
| "monitor_request (UpdateMonitorNumberAction u n key) = map_option (Pair u) (UpdateMonitorNumber_request key n)"
| "monitor_request _ = None"

text \<open>What is left of a listener or a monitor after a list of actions.\<close>

definition change_listener :: "action \<Rightarrow> LoadBalancerListener \<Rightarrow> LoadBalancerListener" where
  "change_listener a l = (case listener_request a of
       Some (u, r) \<Rightarrow> if lis_UUID l = u then set_listener r l else l
     | None \<Rightarrow> l)"

definition change_monitor :: "action \<Rightarrow> LoadBalancerHealthMonitor \<Rightarrow> LoadBalancerHealthMonitor" where
  "change_monitor a m = (case monitor_request a of
       Some (u, r) \<Rightarrow> if mon_UUID m = u then set_monitor r m else m
     | None \<Rightarrow> m)"

abbreviation change_listeners :: "action list \<Rightarrow> LoadBalancerListener \<Rightarrow> LoadBalancerListener" where
  "change_listeners acts \<equiv> fold change_listener acts"

abbreviation change_monitors :: "action list \<Rightarrow> LoadBalancerHealthMonitor \<Rightarrow> LoadBalancerHealthMonitor" where
  "change_monitors acts \<equiv> fold change_monitor acts"

text \<open>The action goes to a listener or monitor of the account, with a request the API accepts.\<close>

definition sends_update :: "'w api_model \<Rightarrow> account \<Rightarrow> action \<Rightarrow> bool" where
  "sends_update M A a \<longleftrightarrow>
     (\<exists>u r. listener_request a = Some (u, r) \<and> monitor_request a = None \<and> u \<in> lis_UUID ` set (acc_listeners A) \<and>
        am_accepts M (ReqListenerUpdate r)) \<or>
     (\<exists>u r. monitor_request a = Some (u, r) \<and> listener_request a = None \<and> u \<in> mon_UUID ` set (acc_monitors A) \<and>
        am_accepts M (ReqMonitorUpdate r))"

lemma listener_request_key:
  "listener_request a = Some (u, r) \<Longrightarrow> lisreq_Name r = [] \<and> lisreq_Protocol r = [] \<and> lisreq_ProtocolPort r = 0"
  by (cases a) (auto simp: UpdateListenerTimeout_request_def zero_ListenerRequest_def split: if_splits)

lemma monitor_request_key:
  "monitor_request a = Some (u, r) \<Longrightarrow> monreq_Type r = [] \<and> (\<forall>h. monreq_HTTP r = Some h \<longrightarrow> httpreq_Version h = [])"
  by (cases a) (auto simp: UpdateMonitorNumber_request_def http_only_def zero_MonitorRequest_def zero_MonitorHTTPRequest_def split: if_splits)

lemma change_listener_sel [simp]:
  "lis_UUID (change_listener a l) = lis_UUID l" "lis_HREF (change_listener a l) = lis_HREF l"
  "lis_PoolUUID (change_listener a l) = lis_PoolUUID l" "listenerKey x (change_listener a l) = listenerKey x l"
  using listener_request_key [of a]
  by (auto simp: change_listener_def listenerKey_def set_listener_def split: option.split)

lemma change_monitor_sel [simp]:
  "mon_UUID (change_monitor a m) = mon_UUID m" "mon_HREF (change_monitor a m) = mon_HREF m"
  "mon_PoolUUID (change_monitor a m) = mon_PoolUUID m"
  by (auto simp: change_monitor_def split: option.split)

lemma change_monitor_key [simp]: "monitorKey x (change_monitor a m) = monitorKey x m"
proof (cases "monitor_request a")
  case (Some ur)
  then obtain u r where a: "monitor_request a = Some (u, r)" by (cases ur) auto
  note key = monitor_request_key [OF a]
  have "mon_Type (set_monitor r m) = mon_Type m" using key by (simp add: set_monitor_def)
  moreover have "mon_version (set_monitor r m) = mon_version m"
    using key by (cases "monreq_HTTP r"; cases "mon_HTTP m") (simp_all add: mon_version_def set_monitor_def set_http_def)
  ultimately have "monitorKey x (set_monitor r m) = monitorKey x m" by (simp only: monitorKey_version)
  then show ?thesis by (simp add: change_monitor_def a)
qed (simp add: change_monitor_def)

lemma change_listeners_sel [simp]:
  "lis_UUID (change_listeners as l) = lis_UUID l" "lis_HREF (change_listeners as l) = lis_HREF l"
  "lis_PoolUUID (change_listeners as l) = lis_PoolUUID l" "listenerKey x (change_listeners as l) = listenerKey x l"
  by (induction as arbitrary: l) simp_all

lemma change_monitors_sel [simp]:
  "mon_UUID (change_monitors as m) = mon_UUID m" "mon_HREF (change_monitors as m) = mon_HREF m"
  "mon_PoolUUID (change_monitors as m) = mon_PoolUUID m" "monitorKey x (change_monitors as m) = monitorKey x m"
  by (induction as arbitrary: m) simp_all

section \<open>The effect on the account\<close>

definition changed :: "action list \<Rightarrow> account \<Rightarrow> account" where
  "changed acts A = A\<lparr>acc_listeners := map (change_listeners acts) (acc_listeners A),
     acc_monitors := map (change_monitors acts) (acc_monitors A)\<rparr>"

lemma wp_update:
  assumes "documented_api M" "sends_update M A a"
  shows "wp M [a] (\<lambda>B. B = changed [a] A) A"
  using assms(2) unfolding sends_update_def
proof (elim disjE exE conjE)
  fix u r assume a: "listener_request a = Some (u, r)" "monitor_request a = None" "u \<in> lis_UUID ` set (acc_listeners A)"
    "am_accepts M (ReqListenerUpdate r)"
  show "wp M [a] (\<lambda>B. B = changed [a] A) A"
  proof (rule wp_call [OF assms(1), where call = "Listeners_Update (am_client M) u r" and R = "listener_updated u r"])
    fix w
    show "Run (am_client M) a w = proceed_call (Listeners_Update (am_client M) u r) w" using a(1) by (cases a) auto
    assume "am_ok M w" "am_acct M w = A"
    then show "performs M (Listeners_Update (am_client M) u r) w (listener_updated u r)"
      using a(3) by (intro writes_documentedD(6) [OF api_writes [OF assms(1)] _ _ a(4)]) simp_all
  next
    fix A' assume "listener_updated u r A A'"
    moreover have "map (change_monitor a) ms = ms" for ms by (simp add: change_monitor_def a(2) map_idI)
    ultimately show "A' = changed [a] A" by (simp add: listener_updated_def changed_def change_listener_def a(1))
  qed
next
  fix u r assume a: "monitor_request a = Some (u, r)" "listener_request a = None" "u \<in> mon_UUID ` set (acc_monitors A)"
    "am_accepts M (ReqMonitorUpdate r)"
  show "wp M [a] (\<lambda>B. B = changed [a] A) A"
  proof (rule wp_call [OF assms(1), where call = "Monitors_Update (am_client M) u r" and R = "monitor_updated u r"])
    fix w
    show "Run (am_client M) a w = proceed_call (Monitors_Update (am_client M) u r) w" using a(1) by (cases a) auto
    assume "am_ok M w" "am_acct M w = A"
    then show "performs M (Monitors_Update (am_client M) u r) w (monitor_updated u r)"
      using a(3) by (intro writes_documentedD(8) [OF api_writes [OF assms(1)] _ _ a(4)]) simp_all
  next
    fix A' assume "monitor_updated u r A A'"
    moreover have "map (change_listener a) ls = ls" for ls by (simp add: change_listener_def a(2) map_idI)
    ultimately show "A' = changed [a] A" by (simp add: monitor_updated_def changed_def change_monitor_def a(1))
  qed
qed

lemma changed_UUIDs [simp]:
  "lis_UUID ` set (acc_listeners (changed acts A)) = lis_UUID ` set (acc_listeners A)"
  "mon_UUID ` set (acc_monitors (changed acts A)) = mon_UUID ` set (acc_monitors A)"
  by (simp_all add: changed_def image_image)

lemma changed_snoc: "changed [a] (changed as A) = changed (as @ [a]) A"
  by (simp add: changed_def comp_def)

lemma wp_updates:
  assumes "documented_api M" "\<And>a. a \<in> set acts \<Longrightarrow> sends_update M A a"
  shows "wp M acts (\<lambda>B. B = changed acts A) A"
proof -
  have "wp M (concat (map (\<lambda>a. [a]) acts)) (\<lambda>B. B = changed acts A) A"
  proof (rule wp_concat [where J = "\<lambda>as B. B = changed as A"])
    fix ys y zs B assume split: "acts = ys @ y # zs" and B: "B = changed ys A"
    have "sends_update M B y" using assms(2) [of y] split by (simp add: sends_update_def B)
    from wp_update [OF assms(1) this] show "wp M [y] (\<lambda>B. B = changed (ys @ [y]) A) B"
      by (rule wp_mono) (simp add: B changed_snoc)
  qed (simp add: changed_def)
  then show ?thesis by simp
qed

text \<open>Changes in place leave the structure alone.\<close>

lemma changed_frame [simp]:
  "acc_lbs (changed acts A) = acc_lbs A" "acc_pools (changed acts A) = acc_pools A" "acc_members (changed acts A) = acc_members A"
  "acc_fips (changed acts A) = acc_fips A"
  "listeners_of (changed acts A) u = map (change_listeners acts) (listeners_of A u)"
  "monitors_of (changed acts A) u = map (change_monitors acts) (monitors_of A u)"
  by (simp_all add: changed_def listeners_of_def monitors_of_def filter_map comp_def)

lemma changed_items: "items x (changed acts A) pl = items x A pl"
  by (cases pl) (simp_all add: items.simps image_mset.compositionality comp_def)

section \<open>Floating IPs\<close>

abbreviation ip_address :: "string \<Rightarrow> string" where
  "ip_address ip \<equiv> (case strings_Cut ip ''/'' of Some (before, after) \<Rightarrow> before | None \<Rightarrow> ip)"

definition assigned :: "string list \<Rightarrow> string \<Rightarrow> account \<Rightarrow> account" where
  "assigned ips U A = A\<lparr>acc_fips := map (\<lambda>f. if fip_address f \<in> ip_address ` set ips
     then f\<lparr>fip_LoadBalancerUUID := Some U\<rparr> else f) (acc_fips A)\<rparr>"

lemma wp_assign:
  assumes "documented_api M" "U \<in> lb_UUIDs A" "set ips \<subseteq> fip_Network ` set (acc_fips A)"
  shows "wp M (map (\<lambda>ip. AssignFloatingIPAction ip U) ips) (\<lambda>B. B = assigned ips U A) A"
proof -
  have "wp M (concat (map (\<lambda>ip. [AssignFloatingIPAction ip U]) ips)) (\<lambda>B. B = assigned ips U A) A"
  proof (rule wp_concat [where J = "\<lambda>ys B. B = assigned ys U A"])
    fix ys y zs B assume split: "ips = ys @ y # zs" and B: "B = assigned ys U A"
    have addr: "fip_address (f\<lparr>fip_LoadBalancerUUID := v\<rparr>) = fip_address f" for f v
      by (simp add: fip_address_def split: option.split)
    obtain f where "f \<in> set (acc_fips A)" "fip_Network f = y" using assms(3) split by auto
    then have "ip_address y \<in> fip_address ` set (acc_fips A)" by (auto simp: fip_address_def)
    moreover have "fip_address ` set (acc_fips B) = fip_address ` set (acc_fips A)"
    proof -
      have "map fip_address (acc_fips B) = map fip_address (acc_fips A)" by (simp add: B assigned_def addr)
      then show ?thesis by (metis list.set_map)
    qed
    ultimately have here: "ip_address y \<in> fip_address ` set (acc_fips B)" by simp
    show "wp M [AssignFloatingIPAction y U] (\<lambda>B. B = assigned (ys @ [y]) U A) B"
    proof (rule wp_call [OF assms(1), where call = "FloatingIPs_Update (am_client M) (ip_address y) U" and R = "fip_assigned (ip_address y) U"])
      fix w assume "am_ok M w" "am_acct M w = B"
      then show "performs M (FloatingIPs_Update (am_client M) (ip_address y) U) w (fip_assigned (ip_address y) U)"
        using here assms(2) B by (intro writes_documentedD(9) [OF api_writes [OF assms(1)]]) (simp_all add: assigned_def)
    next
      fix C assume "fip_assigned (ip_address y) U B C"
      then show "C = assigned (ys @ [y]) U A" by (auto simp: fip_assigned_def B assigned_def addr)
    qed simp
  qed (simp add: assigned_def)
  then show ?thesis by simp
qed

lemma assigned_frame [simp]:
  "acc_lbs (assigned ips U A) = acc_lbs A" "acc_pools (assigned ips U A) = acc_pools A" "acc_members (assigned ips U A) = acc_members A"
  "listeners_of (assigned ips U A) = listeners_of A" "monitors_of (assigned ips U A) = monitors_of A"
  "items x (assigned ips U A) pl = items x A pl" "map fip_Network (acc_fips (assigned ips U A)) = map fip_Network (acc_fips A)"
  by (cases pl; simp add: assigned_def listeners_of_def monitors_of_def items.simps fun_eq_iff)+

end
