(* ===== verification/Round_Plans.thy ===== *)
theory Round_Plans
  imports Account_View Updates_In_Place
begin

text \<open>
  What the plan of one round does to the account: how far an account is from the desired state, which
  desired states are within reach, and the effect of each kind of plan that \<open>nextLbActions\<close> makes, from
  the creation of the load balancer to the settings of its listeners and monitors.
\<close>

section \<open>How far the account is from the desired state\<close>

lemma find_map_snd: "map_option snd (find (\<lambda>a. P (snd a)) xs) = find P (map snd xs)"
  by (induction xs) auto

definition acc_match :: "account \<Rightarrow> string \<Rightarrow> pool_ref \<Rightarrow> LoadBalancerPool option" where
  "acc_match A U e = find (\<lambda>p. pool_Name p = pool_Name (snd e)) (rev [p \<leftarrow> acc_pools A. pool_LoadBalancerUUID p = U])"

definition pools_gap :: "lbState \<Rightarrow> string \<Rightarrow> account \<Rightarrow> nat" where
  "pools_gap desired U A =
     gap ((poolKey \<circ> snd) ` set (st_pools desired)) (mset (map poolKey [p \<leftarrow> acc_pools A. pool_LoadBalancerUUID p = U]))"

definition content_gap :: "ext \<Rightarrow> lbState \<Rightarrow> string \<Rightarrow> account \<Rightarrow> nat" where
  "content_gap x desired U A =
     (\<Sum>e \<leftarrow> st_pools desired. contents_gap x desired e (case acc_match A U e of Some p \<Rightarrow> pool_UUID p | None \<Rightarrow> []) A)"

lemma shows_counterpart:
  assumes "shows_account A lb s"
  shows "map_option snd (counterpart s e) = acc_match A (lb_UUID lb) e"
  unfolding acc_match_def poolsByName_def index_by_lookup shows_accountD(2) [OF assms, symmetric] rev_map
  by (simp flip: find_map_snd)

lemma shows_matched:
  assumes "shows_account A lb s"
  shows "matched s e = (case acc_match A (lb_UUID lb) e of Some p \<Rightarrow> pool_UUID p | None \<Rightarrow> [])"
  unfolding matched_def using shows_counterpart [OF assms, of e, symmetric] by (simp split: option.split)

lemma shows_pool_contents:
  assumes "shows_account A lb s" "a \<in> set (st_pools s)"
  shows "shows_contents x s (fst a) A (pool_UUID (snd a))"
proof -
  note a = shows_accountD(3) [OF assms]
  have "map (\<lambda>m. (monitorKey x m, mon_HREF m)) (map no_address ms) = map (\<lambda>m. (monitorKey x m, mon_HREF m)) ms" for ms
    by simp
  then show ?thesis using a unfolding shows_contents_def items.simps by metis
qed

lemma shows_match_counterpart:
  assumes "shows_account A lb s" "counterpart s e = Some a"
  shows "shows_match x s A e"
  using assms(2) counterpart_mem [OF assms(2)] shows_pool_contents [OF assms(1)] shows_accountD(3) [OF assms(1)]
  by (auto simp: shows_match_def matched_def)

lemma pools_gap_items:
  "pools_gap desired U A = gap ((poolKey \<circ> snd) ` set (st_pools desired)) (image_mset fst (items x A (Pools U)))"
  by (simp add: pools_gap_def items.simps image_mset.compositionality comp_def)

lemma shows_total_gap:
  assumes "shows_account A lb s"
  shows "total_gap x desired s (st_pools desired) A = content_gap x desired (lb_UUID lb) A"
  by (simp add: content_gap_def shows_matched [OF assms])

lemma contents_gap_zero_iff:
  assumes "shows_contents x s (fst a) A u"
  shows "contents_gap x desired e u A = 0 \<longleftrightarrow> keys_agree x desired s e a"
  using assms by (auto simp: contents_gap_def shows_contents_def gap_zero_iff keys_agree_def image_image image_comp comp_def)

text \<open>Desired pools have a counterpart as soon as the keys agree.\<close>

lemma keys_counterpart:
  assumes "list_all (api_pool \<circ> snd) (st_pools desired)" "list_all (api_pool \<circ> snd) (st_pools s)"
    and "(poolKey \<circ> snd) ` set (st_pools desired) = (poolKey \<circ> snd) ` set (st_pools s)" "e \<in> set (st_pools desired)"
  shows "\<exists>a. counterpart s e = Some a"
proof -
  have "(poolKey \<circ> snd) e \<in> (poolKey \<circ> snd) ` set (st_pools s)" using assms(3,4) by blast
  then obtain a where a: "a \<in> set (st_pools s)" "poolKey (snd e) = poolKey (snd a)" by fastforce
  then have "pool_Name (snd e) = pool_Name (snd a)"
    using poolKey_inject assms(1,2,4) unfolding list_all_iff comp_apply by blast
  then have "counterpart s e \<noteq> None" unfolding counterpart_None using a(1) by fastforce
  then show ?thesis by simp
qed

lemma shows_api_pools:
  assumes "shows_account A lb s" "wf_account A"
  shows "list_all (api_pool \<circ> snd) (st_pools s)"
  using shows_accountD(3) [OF assms(1)] assms(2) by (auto simp: wf_account_def list_all_iff)

lemma pools_gap_zero_iff:
  assumes "shows_account A lb s"
  shows "pools_gap desired (lb_UUID lb) A = 0 \<longleftrightarrow> (poolKey \<circ> snd) ` set (st_pools desired) = (poolKey \<circ> snd) ` set (st_pools s)"
proof -
  have "(poolKey \<circ> snd) ` set (st_pools s) = poolKey ` set (map snd (st_pools s))" by (simp add: image_comp)
  then show ?thesis unfolding shows_accountD(2) [OF assms] pools_gap_def gap_zero_iff by auto
qed

lemma structure_gap_iff:
  assumes "shows_account A lb s" "wf_account A" "list_all (api_pool \<circ> snd) (st_pools desired)"
  shows "same_structure x desired s \<longleftrightarrow> pools_gap desired (lb_UUID lb) A = 0 \<and> content_gap x desired (lb_UUID lb) A = 0"
proof -
  have "contents_gap x desired e (matched s e) A = 0 \<longleftrightarrow> keys_agree x desired s e a" if "counterpart s e = Some a" for e a
    using contents_gap_zero_iff shows_pool_contents [OF assms(1)] counterpart_mem [OF that] that by (simp add: matched_def)
  moreover have "\<exists>a. counterpart s e = Some a" if "pools_gap desired (lb_UUID lb) A = 0" "e \<in> set (st_pools desired)" for e
    by (rule keys_counterpart [OF assms(3) shows_api_pools [OF assms(1,2)] _ that(2)])
       (use that(1) pools_gap_zero_iff [OF assms(1)] in blast)
  moreover have "content_gap x desired (lb_UUID lb) A = 0 \<longleftrightarrow> (\<forall>e \<in> set (st_pools desired). contents_gap x desired e (matched s e) A = 0)"
    by (simp flip: shows_total_gap [OF assms(1)])
  ultimately show ?thesis
    unfolding same_structure_def pools_gap_zero_iff [OF assms(1), symmetric] by (metis option.inject)
qed

section \<open>Desired states within reach\<close>

text \<open>The requests a plan can send to update the listeners and monitors of a pool.\<close>

definition listener_updates :: "LoadBalancerListener \<Rightarrow> ListenerRequest set" where
  "listener_updates l =
     {zero_ListenerRequest\<lparr>lisreq_AllowedCIDRs := Some (lis_AllowedCIDRs l)\<rparr>,
      zero_ListenerRequest\<lparr>lisreq_TimeoutClientDataMS := lis_TimeoutClientDataMS l\<rparr>,
      zero_ListenerRequest\<lparr>lisreq_TimeoutMemberConnectMS := lis_TimeoutMemberConnectMS l\<rparr>,
      zero_ListenerRequest\<lparr>lisreq_TimeoutMemberDataMS := lis_TimeoutMemberDataMS l\<rparr>}"

definition monitor_updates :: "LoadBalancerHealthMonitor \<Rightarrow> MonitorRequest set" where
  "monitor_updates m =
     {zero_MonitorRequest\<lparr>monreq_DelayS := mon_DelayS m\<rparr>, zero_MonitorRequest\<lparr>monreq_TimeoutS := mon_TimeoutS m\<rparr>,
      zero_MonitorRequest\<lparr>monreq_UpThreshold := mon_UpThreshold m\<rparr>, zero_MonitorRequest\<lparr>monreq_DownThreshold := mon_DownThreshold m\<rparr>} \<union>
     (case mon_HTTP m of None \<Rightarrow> {} | Some h \<Rightarrow>
       {http_only (zero_MonitorHTTPRequest\<lparr>httpreq_Host := http_Host h\<rparr>), http_only (zero_MonitorHTTPRequest\<lparr>httpreq_URLPath := http_URLPath h\<rparr>),
        http_only (zero_MonitorHTTPRequest\<lparr>httpreq_Method := http_Method h\<rparr>),
        http_only (zero_MonitorHTTPRequest\<lparr>httpreq_ExpectedCodes := http_ExpectedCodes h\<rparr>)})"

text \<open>
  The API accepts what the desired state asks for, the virtual addresses name their subnets, and no two
  pools have the same name.
\<close>

definition attainable :: "'w api_model \<Rightarrow> serviceInfo \<Rightarrow> lbState \<Rightarrow> LoadBalancer \<Rightarrow> bool" where
  "attainable M info desired dlb \<longleftrightarrow> st_lb desired = Some dlb \<and>
     lb_Name dlb = annotation info LoadBalancerName \<and> annotation info LoadBalancerName \<noteq> [] \<and>
     am_accepts M (ReqLoadBalancer (CreateLb_request dlb)) \<and> am_accepts M (ReqRename (lb_Name dlb)) \<and>
     (\<forall>v \<in> set (lb_VIPAddresses dlb). subnet_UUID (vip_Subnet v) \<noteq> []) \<and>
     distinct (map (pool_Name \<circ> snd) (st_pools desired)) \<and> list_all (api_pool \<circ> snd) (st_pools desired) \<and>
     (\<forall>e \<in> set (st_pools desired). \<forall>U. am_accepts M (ReqPool (CreatePool_request U (snd e)))) \<and>
     (\<forall>e \<in> set (st_pools desired). feasible_contents M desired e) \<and>
     (\<forall>e \<in> set (st_pools desired). \<forall>l \<in> set (st_listeners desired (Some (fst e))). \<forall>r \<in> listener_updates l.
        am_accepts M (ReqListenerUpdate r)) \<and>
     (\<forall>e \<in> set (st_pools desired). \<forall>m \<in> set (st_monitors desired (Some (fst e))). \<forall>r \<in> monitor_updates m.
        am_accepts M (ReqMonitorUpdate r))"

lemma attainableD:
  assumes "attainable M info desired dlb"
  shows "st_lb desired = Some dlb" "lb_Name dlb = annotation info LoadBalancerName" "annotation info LoadBalancerName \<noteq> []"
    "am_accepts M (ReqLoadBalancer (CreateLb_request dlb))" "am_accepts M (ReqRename (lb_Name dlb))"
    "distinct (map (pool_Name \<circ> snd) (st_pools desired))" "list_all (api_pool \<circ> snd) (st_pools desired)"
  using assms unfolding attainable_def by blast+

text \<open>
  The service has no load balancer yet, or one that agrees in what cannot be changed; and the account
  has the floating IPs.
\<close>

definition startable :: "serviceInfo \<Rightarrow> lbState \<Rightarrow> LoadBalancer \<Rightarrow> account \<Rightarrow> bool" where
  "startable info desired dlb A \<longleftrightarrow>
     (candidates info A = [] \<or> (\<exists>l. candidates info A = [l] \<and> same_fixed dlb l)) \<and>
     (\<forall>ip \<in> set (st_floatingIPs desired). ip \<in> fip_Network ` set (acc_fips A))"

lemma startable_cong:
  assumes "acc_lbs A' = acc_lbs A" "map fip_Network (acc_fips A') = map fip_Network (acc_fips A)"
  shows "startable info desired dlb A' = startable info desired dlb A"
proof -
  have "fip_Network ` set (acc_fips A') = fip_Network ` set (acc_fips A)" using assms(2) by (metis list.set_map)
  then show ?thesis using assms(1) by (simp add: startable_def candidates_def)
qed

section \<open>The rounds\<close>

lemma wp_refetch:
  assumes "wp M acts Q A" "documented_api M" "am_ok M w" "am_acct M w = A"
  shows "\<exists>w'. runActions x (am_client M) (acts @ [RefetchAction]) w = (Ok True, w') \<and> am_ok M w' \<and> Q (am_acct M w')"
proof -
  obtain w' where "runActions x (am_client M) acts w = (Ok False, w')" "am_ok M w'" "Q (am_acct M w')"
    using assms(1,3,4) unfolding wp_def by blast
  then show ?thesis using api_ctx [OF assms(2)] by (simp add: runActions_append)
qed

lemma wp_await:
  assumes "documented_api M" "lb_Status lb \<noteq> ''changing''" "Q A"
  shows "wp M [AwaitLbAction lb] Q A"
  by (rule wp_one [OF assms(1)]) (use assms(2,3) in auto)

text \<open>The plan for a service without a load balancer.\<close>

lemma wp_create_lb:
  assumes "documented_api M" "attainable M info desired dlb" "startable info desired dlb A" "candidates info A = []"
  shows "wp M [CreateLbAction dlb] (\<lambda>A'. startable info desired dlb A' \<and> candidates info A' \<noteq> []) A"
proof (rule wp_call [OF assms(1), where call = "LoadBalancers_Create (am_client M) (CreateLb_request dlb)"
      and R = "lb_created (CreateLb_request dlb)"])
  fix w assume "am_ok M w" "am_acct M w = A"
  then show "performs M (LoadBalancers_Create (am_client M) (CreateLb_request dlb)) w (lb_created (CreateLb_request dlb))"
    using assms(2) by (intro writes_documentedD(1) [OF api_writes [OF assms(1)]]) (simp_all add: attainable_def)
next
  fix A' assume "lb_created (CreateLb_request dlb) A A'"
  then obtain l where l: "added l (acc_lbs A) (acc_lbs A')" "A' = A\<lparr>acc_lbs := acc_lbs A'\<rparr>" "lb_Name l = lb_Name dlb"
    "lb_FlavorSlug l = lb_FlavorSlug dlb" "lb_ZoneSlug l = lb_ZoneSlug dlb"
    "case lbreq_VIPAddresses (CreateLb_request dlb) of Some (v # vs) \<Rightarrow> list_all2 vip_granted (v # vs) (lb_VIPAddresses l) | _ \<Rightarrow> True"
    by (auto simp: lb_created_def CreateLb_request_def)
  have "mset (candidates info A') = add_mset l (mset (candidates info A))"
    using l(1,3) assms(2) by (simp add: candidates_def added_def attainable_def)
  then have "candidates info A' = [l]" using assms(4) by simp
  moreover have "same_fixed dlb l"
  proof (cases "lb_VIPAddresses dlb")
    case (Cons v vs)
    then have "list_all2 (\<lambda>d a. vip_granted \<lparr>vipreq_Address = vip_Address d, vipreq_Subnet = subnet_UUID (vip_Subnet d)\<rparr> a)
        (lb_VIPAddresses dlb) (lb_VIPAddresses l)"
      using l(6) by (auto simp: CreateLb_request_def list_all2_map1 list_all2_Cons1)
    then have "list_all2 vip_matches (lb_VIPAddresses dlb) (lb_VIPAddresses l)"
      by (rule list.rel_mono_strong) (use assms(2) in \<open>auto simp: attainable_def vip_granted_def vip_matches_def\<close>)
    then show ?thesis using l(4,5) by (simp add: same_fixed_def)
  qed (use l(4,5) in \<open>simp add: same_fixed_def\<close>)
  moreover have "acc_fips A' = acc_fips A" by (subst l(2)) simp
  ultimately show "startable info desired dlb A' \<and> candidates info A' \<noteq> []"
    using assms(3) by (auto simp: startable_def)
qed simp

text \<open>Renaming the load balancer changes nothing else, and the search still finds it.\<close>

lemma lbs_only [simp]:
  "shows_account (A\<lparr>acc_lbs := ls\<rparr>) lb s = shows_account A lb s" "pools_gap desired U (A\<lparr>acc_lbs := ls\<rparr>) = pools_gap desired U A"
  "content_gap x desired U (A\<lparr>acc_lbs := ls\<rparr>) = content_gap x desired U A"
  by (simp_all add: shows_account_def pools_gap_def content_gap_def contents_gap_def acc_match_def items.simps listeners_of_def monitors_of_def)

abbreviation rename_part :: "LoadBalancer \<Rightarrow> LoadBalancer \<Rightarrow> action list" where
  "rename_part dlb lb \<equiv> (if lb_Name dlb \<noteq> lb_Name lb then [RenameLbAction (lb_UUID lb) (lb_Name dlb)] else [])"

definition renamed :: "serviceInfo \<Rightarrow> LoadBalancer \<Rightarrow> LoadBalancer \<Rightarrow> account \<Rightarrow> account \<Rightarrow> bool" where
  "renamed info dlb lb A A' \<longleftrightarrow> (\<exists>ls. A' = A\<lparr>acc_lbs := ls\<rparr>) \<and> candidates info A' = [no_status (lb\<lparr>lb_Name := lb_Name dlb\<rparr>)]"

lemma candidates_renamed:
  assumes "wf_account A" "candidates info A = [no_status lb]" "name = annotation info LoadBalancerName"
    and "lb_renamed (lb_UUID lb) name A A'"
  shows "candidates info A' = [no_status (lb\<lparr>lb_Name := name\<rparr>)]"
proof -
  let ?P = "\<lambda>l. lb_Name l = annotation info LoadBalancerName \<or>
     annotation info LoadBalancerUUID \<noteq> [] \<and> lb_UUID l = annotation info LoadBalancerUUID"
  let ?f = "\<lambda>l. if lb_UUID l = lb_UUID lb then l\<lparr>lb_Name := name\<rparr> else l"
  have mem: "no_status lb \<in> set (candidates info A)" using assms(2) by simp
  have "?P (?f l) = ?P l" if "l \<in> set (acc_lbs A)" for l
  proof (cases "lb_UUID l = lb_UUID lb")
    case True
    then have "lb_UUID l = lb_UUID (no_status lb)" by simp
    moreover have "no_status lb \<in> set (acc_lbs A)" using mem by (simp add: candidates_def)
    ultimately have "l = no_status lb" using assms(1) that unfolding wf_account_def distinct_map inj_on_def by blast
    then have "l \<in> set (candidates info A)" using mem by simp
    then have "?P l" by (simp add: candidates_def)
    with True show ?thesis using assms(3) by simp
  qed simp
  then have "filter (?P \<circ> ?f) (acc_lbs A) = filter ?P (acc_lbs A)" by (intro filter_cong) auto
  moreover have "acc_lbs A' = map ?f (acc_lbs A)" using assms(4) by (simp add: lb_renamed_def)
  ultimately have "candidates info A' = map ?f (candidates info A)" by (simp only: candidates_def filter_map)
  then show ?thesis by (simp add: assms(2)) (simp add: no_status_def)
qed

lemma wp_rename:
  assumes "documented_api M" "attainable M info desired dlb" "wf_account A" "candidates info A = [no_status lb]"
  shows "wp M (rename_part dlb lb) (renamed info dlb lb A) A"
proof (cases "lb_Name dlb = lb_Name lb")
  case True
  then have "no_status (lb\<lparr>lb_Name := lb_Name dlb\<rparr>) = no_status lb" "A = A\<lparr>acc_lbs := acc_lbs A\<rparr>" by simp_all
  then have "renamed info dlb lb A A" unfolding renamed_def using assms(4) by metis
  with True show ?thesis by (auto intro: wp_Nil)
next
  case False
  have name: "lb_Name dlb = annotation info LoadBalancerName" using assms(2) by (simp add: attainable_def)
  have "no_status lb \<in> set (acc_lbs A)" using assms(4) by (metis candidates_def filter_is_subset list.set_intros(1) subsetD)
  then have here: "lb_UUID lb \<in> lb_UUIDs A" by (metis image_eqI no_status_sel(1))
  have "wp M [RenameLbAction (lb_UUID lb) (lb_Name dlb)] (renamed info dlb lb A) A"
  proof (rule wp_call [OF assms(1), where R = "lb_renamed (lb_UUID lb) (lb_Name dlb)"
        and call = "LoadBalancers_Update (am_client M) (lb_UUID lb) (zero_LoadBalancerRequest\<lparr>lbreq_Name := lb_Name dlb\<rparr>)"])
    fix w assume "am_ok M w" "am_acct M w = A"
    then show "performs M (LoadBalancers_Update (am_client M) (lb_UUID lb) (zero_LoadBalancerRequest\<lparr>lbreq_Name := lb_Name dlb\<rparr>)) w
        (lb_renamed (lb_UUID lb) (lb_Name dlb))"
      using here by (intro writes_documentedD(2) [OF api_writes [OF assms(1)]] attainableD(5) [OF assms(2)]) simp_all
  next
    fix A' assume A': "lb_renamed (lb_UUID lb) (lb_Name dlb) A A'"
    then have "\<exists>ls. A' = A\<lparr>acc_lbs := ls\<rparr>" unfolding lb_renamed_def by blast
    with candidates_renamed [OF assms(3,4) name A'] show "renamed info dlb lb A A'" unfolding renamed_def by blast
  qed simp
  with False show ?thesis by simp
qed

lemma renamed_startable:
  assumes "renamed info dlb lb A A'" "startable info desired dlb A" "candidates info A = [no_status lb]"
  shows "startable info desired dlb A'"
proof -
  have "same_fixed dlb (no_status (lb\<lparr>lb_Name := lb_Name dlb\<rparr>)) = same_fixed dlb (no_status lb)" by (simp add: same_fixed_def)
  then show ?thesis using assms by (auto simp: renamed_def startable_def)
qed

text \<open>The plan that corrects the pools.\<close>

lemma pools_gone_items:
  assumes "pools_gone urls A A'"
  shows "items x A' (Pools U) = {#i \<in># items x A (Pools U). snd i \<notin> urls#}"
proof -
  have "[p \<leftarrow> acc_pools A'. pool_LoadBalancerUUID p = U] = [p \<leftarrow> [p \<leftarrow> acc_pools A. pool_LoadBalancerUUID p = U]. pool_HREF p \<notin> urls]"
    using assms by (simp add: pools_gone_def conj_commute)
  then show ?thesis by (simp only: items.simps filter_mset_map snd_conv)
qed

lemma shows_pools_items:
  assumes "shows_account A lb s"
  shows "items x A (Pools (lb_UUID lb)) = mset (map (\<lambda>a. ((poolKey \<circ> snd) a, (pool_HREF \<circ> snd) a)) (st_pools s))"
  unfolding items.simps shows_accountD(2) [OF assms, symmetric] by (simp only: map_map comp_def)

lemma wp_pools_part:
  assumes "documented_api M" "attainable M info desired dlb" "wf_account A" "shows_account A lb s" "lb_UUID lb \<in> lb_UUIDs A"
    and "valid_orders ords" "Diff ords (st_pools desired) (st_pools s) (poolKey \<circ> snd) = (del, cre)" "del \<noteq> [] \<or> cre \<noteq> []"
  shows "wp M (concat (map (delete_pool s) del) @ map (CreatePoolAction (lb_UUID lb) \<circ> snd) cre)
    (\<lambda>A'. acc_lbs A' = acc_lbs A \<and> acc_fips A' = acc_fips A \<and>
       pools_gap desired (lb_UUID lb) A' < pools_gap desired (lb_UUID lb) A) A"
proof -
  let ?U = "lb_UUID lb" and ?x = sample_ext
  note its = shows_pools_items [OF assms(4), of ?x] and sub = go_diff.delete_subset [OF assms(6,7)]
  have "hrefs A (Pools ?U) = map (pool_HREF \<circ> snd) (st_pools s)"
    unfolding hrefs.simps shows_accountD(2) [OF assms(4), symmetric] by simp
  then have hrefs: "distinct (map (pool_HREF \<circ> snd) (st_pools s))" using wf_hrefs(1) [OF assms(3), of "Pools ?U"] by simp
  have "distinct (map (pool_HREF \<circ> snd) del)"
    using sub hrefs go_diff.delete_once [OF assms(6,7)] by (metis distinct_map inj_on_subset)
  moreover have "snd a \<in> set (acc_pools A) \<and>
      mset (map mem_HREF (st_members s (Some (fst a)))) = mset (hrefs A (Members (pool_UUID (snd a))))" if "a \<in> set del" for a
    using shows_accountD(3) [OF assms(4), of a] sub that by (simp add: hrefs.simps subsetD)
  ultimately have dels: "wp M (concat (map (delete_pool s) del)) (\<lambda>B. wf_account B \<and> pools_gone ((pool_HREF \<circ> snd) ` set del) A B) A"
    by (rule wp_delete_pools [OF assms(1,3)])
  have create: "am_accepts M (ReqPool (CreatePool_request ?U (snd d)))" if "d \<in> set cre" for d
    using that go_diff.create_subset [OF assms(6,7)] assms(2) unfolding attainable_def by blast
  have changes: "recreate ords (st_pools desired) (st_pools s) (poolKey \<circ> snd) (pool_HREF \<circ> snd) (\<lambda>_. RefetchAction) \<noteq> []"
    using assms(8) by (cases del; cases cre) (simp_all add: recreate_def assms(7))
  show ?thesis
  proof (rule wp_append, rule wp_mono [OF dels])
    fix B assume B: "wf_account B \<and> pools_gone ((pool_HREF \<circ> snd) ` set del) A B"
    then have same: "acc_lbs B = acc_lbs A" "acc_fips B = acc_fips A" by (simp_all add: pools_gone_def)
    show "wp M (map (CreatePoolAction ?U \<circ> snd) cre) (\<lambda>A'. acc_lbs A' = acc_lbs A \<and> acc_fips A' = acc_fips A \<and>
       pools_gap desired ?U A' < pools_gap desired ?U A) B"
    proof (rule wp_mono [OF wp_create_pools [OF assms(1) _ create, where x = ?x]])
      show "?U \<in> lb_UUIDs B" using assms(5) same(1) by simp
      fix C assume C: "acc_lbs C = acc_lbs B \<and> acc_fips C = acc_fips B \<and>
        (\<exists>N. items ?x C (Pools ?U) = items ?x B (Pools ?U) + N \<and> image_mset fst N = mset (map (poolKey \<circ> snd) cre))"
      then obtain N where N: "items ?x C (Pools ?U) = {#i \<in># items ?x A (Pools ?U). snd i \<notin> (pool_HREF \<circ> snd) ` set del#} + N"
        "image_mset fst N = mset (map (poolKey \<circ> snd) cre)" using pools_gone_items B by metis
      have "pools_gap desired ?U C < pools_gap desired ?U A"
        using recreate_gap [OF assms(6,7) hrefs its N, of "\<lambda>_. RefetchAction"] changes
        by (simp only: pools_gap_items [of _ _ _ ?x] if_False)
      with C same show "acc_lbs C = acc_lbs A \<and> acc_fips C = acc_fips A \<and> pools_gap desired ?U C < pools_gap desired ?U A" by simp
    qed
  qed
qed

text \<open>The plan that corrects the contents of the pools.\<close>

lemma matched_distinct:
  assumes "shows_account A lb s" "wf_account A" "distinct (map (pool_Name \<circ> snd) es)" "\<And>e. e \<in> set es \<Longrightarrow> counterpart s e \<noteq> None"
  shows "distinct (map (matched s) es)"
proof -
  have "pool_Name (snd e) = pool_Name (snd f)" if ef: "e \<in> set es" "f \<in> set es" "matched s e = matched s f" for e f
  proof -
    obtain a b where ab: "counterpart s e = Some a" "counterpart s f = Some b" using assms(4) ef(1,2) by blast
    then have "snd a \<in> set (acc_pools A)" "snd b \<in> set (acc_pools A)" "pool_UUID (snd a) = pool_UUID (snd b)"
      using counterpart_mem shows_accountD(3) [OF assms(1)] ef(3) by (auto simp: matched_def)
    then have "snd a = snd b" using assms(2) unfolding wf_account_def distinct_map inj_on_def by blast
    with ab counterpart_mem show ?thesis by metis
  qed
  then have "inj_on (matched s) (set es)" using assms(3) unfolding distinct_map inj_on_def comp_apply by blast
  moreover have "distinct es" using assms(3) by (simp add: distinct_map)
  ultimately show ?thesis by (simp add: distinct_map)
qed

lemma wp_contents_part:
  assumes "documented_api M" "attainable M info desired dlb" "wf_account A" "shows_account A lb s" "valid_site_orders ro"
    and "recreate_pools x ro desired s 0 (st_pools desired) = Ok changes" "changes \<noteq> []"
  shows "wp M changes (\<lambda>A'. acc_lbs A' = acc_lbs A \<and> acc_fips A' = acc_fips A \<and> acc_pools A' = acc_pools A \<and>
    content_gap x desired (lb_UUID lb) A' < content_gap x desired (lb_UUID lb) A) A"
proof -
  have counterparts: "counterpart s e \<noteq> None" if "e \<in> set (st_pools desired)" for e
    using recreate_pools_total assms(6) that by metis
  have "wp M changes (\<lambda>A'. wf_account A' \<and> only_changes x (\<Union>e \<in> set (st_pools desired). pool_places (matched s e)) A A' \<and>
    total_gap x desired s (st_pools desired) A' + (if changes = [] then 0 else 1) \<le> total_gap x desired s (st_pools desired) A) A"
  proof (rule wp_recreate_pools [OF assms(1,5,6,3)])
    show "distinct (map (matched s) (st_pools desired))"
      by (rule matched_distinct [OF assms(4,3) _ counterparts]) (use assms(2) in \<open>simp add: attainable_def\<close>)
    show "feasible_contents M desired e \<and> shows_match x s A e" if e: "e \<in> set (st_pools desired)" for e
    proof
      show "feasible_contents M desired e" using assms(2) e unfolding attainable_def by blast
      obtain a where "counterpart s e = Some a" using counterparts [OF e] by blast
      then show "shows_match x s A e" by (rule shows_match_counterpart [OF assms(4)])
    qed
  qed
  then show ?thesis
  proof (rule wp_mono)
    fix A' assume A': "wf_account A' \<and> only_changes x (\<Union>e \<in> set (st_pools desired). pool_places (matched s e)) A A' \<and>
      total_gap x desired s (st_pools desired) A' + (if changes = [] then 0 else 1) \<le> total_gap x desired s (st_pools desired) A"
    then have same: "acc_lbs A' = acc_lbs A" "acc_pools A' = acc_pools A" "acc_fips A' = acc_fips A" by (simp_all add: only_changes_def)
    have "total_gap x desired s (st_pools desired) A' = content_gap x desired (lb_UUID lb) A'"
      by (simp add: content_gap_def shows_matched [OF assms(4)] acc_match_def same(2))
    with A' assms(7) shows_total_gap [OF assms(4)] same show "acc_lbs A' = acc_lbs A \<and> acc_fips A' = acc_fips A \<and>
      acc_pools A' = acc_pools A \<and> content_gap x desired (lb_UUID lb) A' < content_gap x desired (lb_UUID lb) A" by simp
  qed
qed

text \<open>The plan for a load balancer with the desired structure.\<close>

lemma update_listener_sends:
  assumes "a \<in> set (update_listener (dl, al))" "lis_UUID al \<in> lis_UUID ` set (acc_listeners A)"
    and "\<forall>r \<in> listener_updates dl. am_accepts M (ReqListenerUpdate r)"
  shows "sends_update M A a"
  using assms
  by (auto simp: update_listener_def sends_update_def listener_updates_def UpdateListenerTimeout_request_def split: if_splits)

lemma update_monitor_sends:
  assumes "a \<in> set (update_monitor (dm, am))" "mon_UUID am \<in> mon_UUID ` set (acc_monitors A)"
    and "\<forall>r \<in> monitor_updates dm. am_accepts M (ReqMonitorUpdate r)"
  shows "sends_update M A a"
  using assms
  by (auto simp: update_monitor_def update_monitor_http_def sends_update_def monitor_updates_def UpdateMonitorNumber_request_def
      split: if_splits option.splits)

lemma update_pool_sends:
  assumes "attainable M info desired dlb" "shows_account A lb s" "e \<in> set (st_pools desired)" "counterpart s e = Some b"
    and "a \<in> set (update_pool x desired s e)"
  shows "sends_update M A a"
proof -
  note b = shows_accountD(3) [OF assms(2) conjunct1 [OF counterpart_mem [OF assms(4)]]]
  consider (listener) dl al where "(dl, al) \<in> set (Match (st_listeners desired (Some (fst e))) (st_listeners s (Some (fst b))) (listenerKey x))"
      "a \<in> set (update_listener (dl, al))"
    | (monitor) dm am where "(dm, am) \<in> set (Match (st_monitors desired (Some (fst e))) (st_monitors s (Some (fst b))) (monitorKey x))"
      "a \<in> set (update_monitor (dm, am))"
    using assms(4,5) by (auto simp: update_pool_def Let_def)
  then show ?thesis
  proof cases
    case listener
    note pair = MatchD [OF listener(1)]
    then have "al \<in> set (acc_listeners A)" using b by (simp add: listeners_of_def)
    moreover have "\<forall>r \<in> listener_updates dl. am_accepts M (ReqListenerUpdate r)"
      using assms(1,3) pair unfolding attainable_def by blast
    ultimately show ?thesis using update_listener_sends [OF listener(2)] by blast
  next
    case monitor
    note pair = MatchD [OF monitor(1)]
    then have "no_address am \<in> set (map no_address (st_monitors s (Some (fst b))))" by simp
    then have "no_address am \<in> set (acc_monitors A)" using b by (simp add: monitors_of_def)
    then have "mon_UUID am \<in> mon_UUID ` set (acc_monitors A)" by (metis image_eqI no_address_sel(1))
    moreover have "\<forall>r \<in> monitor_updates dm. am_accepts M (ReqMonitorUpdate r)"
      using assms(1,3) pair unfolding attainable_def by blast
    ultimately show ?thesis using update_monitor_sends [OF monitor(2)] by blast
  qed
qed

text \<open>The account after the settled plan, given the account with the new name.\<close>

definition settled_account :: "ext \<Rightarrow> site_orders \<Rightarrow> lbState \<Rightarrow> lbState \<Rightarrow> string \<Rightarrow> account \<Rightarrow> account" where
  "settled_account x ro desired s U A =
     assigned (snd (Diff (ro FloatingSite) (st_floatingIPs desired) (st_floatingIPs s) (\<lambda>ip. ip))) U
       (changed (concat (map (update_pool x desired s) (st_pools desired))) A)"

lemma wp_settled_part:
  assumes "documented_api M" "attainable M info desired dlb" "startable info desired dlb A" "shows_account A lb s"
    and "lb_UUID lb \<in> lb_UUIDs A" "valid_site_orders ro" "same_structure x desired s"
  shows "wp M (concat (map (update_pool x desired s) (st_pools desired)) @ assign_floating ro lb desired s)
    (\<lambda>B. B = settled_account x ro desired s (lb_UUID lb) A) A"
proof (rule wp_append, rule wp_mono [OF wp_updates [OF assms(1)]])
  fix a assume "a \<in> set (concat (map (update_pool x desired s) (st_pools desired)))"
  then obtain e where e: "e \<in> set (st_pools desired)" "a \<in> set (update_pool x desired s e)" by auto
  then obtain b where "counterpart s e = Some b" using assms(7) unfolding same_structure_def by blast
  then show "sends_update M A a" using update_pool_sends [OF assms(2,4) e(1) _ e(2)] by blast
next
  let ?acts = "concat (map (update_pool x desired s) (st_pools desired))"
  obtain un new where diff: "Diff (ro FloatingSite) (st_floatingIPs desired) (st_floatingIPs s) (\<lambda>ip. ip) = (un, new)" by fastforce
  fix B assume B: "B = changed ?acts A"
  have "set new \<subseteq> fip_Network ` set (acc_fips A)"
    using go_diff.create_subset [OF valid_site_ordersD [OF assms(6)] diff] assms(3) by (auto simp: startable_def)
  then show "wp M (assign_floating ro lb desired s) (\<lambda>C. C = settled_account x ro desired s (lb_UUID lb) A) B"
    unfolding assign_floating_def diff prod.case settled_account_def snd_conv
    using assms(5) by (intro wp_mono [OF wp_assign [OF assms(1)]]) (simp_all add: B)
qed

lemma settled_account_frame:
  "acc_lbs (settled_account x ro desired s U A) = acc_lbs A" "acc_pools (settled_account x ro desired s U A) = acc_pools A"
  "map fip_Network (acc_fips (settled_account x ro desired s U A)) = map fip_Network (acc_fips A)"
  "items y (settled_account x ro desired s U A) pl = items y A pl"
  by (simp_all add: settled_account_def changed_items)

lemma gaps_cong:
  assumes "acc_pools B = acc_pools A" "\<And>pl. items x B pl = items x A pl"
  shows "pools_gap desired U B = pools_gap desired U A" "content_gap x desired U B = content_gap x desired U A"
  by (simp_all add: pools_gap_def content_gap_def contents_gap_def acc_match_def assms)

end
