(* ===== verification/Settings.thy ===== *)
theory Settings
  imports Round_Plans
begin

text \<open>
  What is left after the last plan of a reconciliation, which changes listeners and monitors in place:
  every matched listener and monitor has the desired settings, except the host of a monitor, which the
  reconciler compares by address (\<open>src/pkg/cloudscale_ccm/reconcile.go\<close>: \<open>nextLbActions\<close>).
\<close>

section \<open>Matches of changed elements\<close>

lemma find_map: "find P (map f xs) = map_option f (find (\<lambda>x. P (f x)) xs)"
  by (induction xs) auto

lemma Match_map:
  assumes "\<And>b. key (f b) = key b" "(a, b') \<in> set (Match as (map f bs) key)"
  obtains b where "(a, b) \<in> set (Match as bs key)" "b' = f b"
  using assms by (auto simp: Match_mem find_map rev_map)

text \<open>
  A field of a record changed by a list of actions has the value \<open>v\<close> in the end, if it had it before or
  one of the actions sets it, and no action sets it to anything else.
\<close>

lemma fold_field:
  assumes "u m = k" "\<And>a m. a \<in> set acts \<Longrightarrow> u m = k \<Longrightarrow> u (ch a m) = k"
    and "\<And>a m. a \<in> set acts \<Longrightarrow> u m = k \<Longrightarrow> f (ch a m) = f m \<or> f (ch a m) = v"
    and "f m = v \<or> (\<exists>a \<in> set acts. \<forall>m. u m = k \<longrightarrow> f (ch a m) = v)"
  shows "f (fold ch acts m) = v"
  using assms
proof (induction acts arbitrary: m)
  case (Cons a acts)
  have "u (ch a m) = k" by (rule Cons.prems(2)) (simp_all add: Cons.prems(1))
  then have "f (fold ch acts (ch a m)) = v"
  proof (rule Cons.IH)
    show "f (ch a m) = v \<or> (\<exists>a \<in> set acts. \<forall>m. u m = k \<longrightarrow> f (ch a m) = v)"
      using Cons.prems(1,4) Cons.prems(3) [of a m] by auto
  qed (use Cons.prems(2,3) in auto)
  then show ?case by simp
qed simp

section \<open>Listeners\<close>

lemma update_listener_request:
  assumes "a \<in> set (update_listener (dl, al))"
  shows "\<exists>r \<in> listener_updates dl. listener_request a = Some (lis_UUID al, r)" "monitor_request a = None"
  using assms by (auto simp: update_listener_def listener_updates_def UpdateListenerTimeout_request_def split: if_splits)

definition definite_listener :: "LoadBalancerListener \<Rightarrow> bool" where
  "definite_listener l \<longleftrightarrow> lis_TimeoutClientDataMS l \<noteq> 0 \<and> lis_TimeoutMemberConnectMS l \<noteq> 0 \<and> lis_TimeoutMemberDataMS l \<noteq> 0"

lemma set_listener_towards:
  assumes "r \<in> listener_updates dl"
  shows "lis_AllowedCIDRs (set_listener r l) \<in> {lis_AllowedCIDRs l, lis_AllowedCIDRs dl}"
    "lis_TimeoutClientDataMS (set_listener r l) \<in> {lis_TimeoutClientDataMS l, lis_TimeoutClientDataMS dl}"
    "lis_TimeoutMemberConnectMS (set_listener r l) \<in> {lis_TimeoutMemberConnectMS l, lis_TimeoutMemberConnectMS dl}"
    "lis_TimeoutMemberDataMS (set_listener r l) \<in> {lis_TimeoutMemberDataMS l, lis_TimeoutMemberDataMS dl}"
  using assms by (auto simp: listener_updates_def set_listener_def zero_ListenerRequest_def)

lemma listener_field:
  assumes "set (update_listener (dl, al)) \<subseteq> set acts"
    and "\<And>a u r. a \<in> set acts \<Longrightarrow> listener_request a = Some (u, r) \<Longrightarrow> u = lis_UUID al \<Longrightarrow> r \<in> listener_updates dl"
    and "\<And>r l. r \<in> listener_updates dl \<Longrightarrow> f (set_listener r l) \<in> {f l, v}"
    and "f al \<noteq> v \<Longrightarrow> act \<in> set (update_listener (dl, al))" "\<And>l. lis_UUID l = lis_UUID al \<Longrightarrow> f (change_listener act l) = v"
  shows "f (change_listeners acts al) = v"
proof (rule fold_field [where u = lis_UUID and k = "lis_UUID al"])
  show "f al = v \<or> (\<exists>a \<in> set acts. \<forall>l. lis_UUID l = lis_UUID al \<longrightarrow> f (change_listener a l) = v)" using assms(1,4,5) by blast
  show "f (change_listener a l) = f l \<or> f (change_listener a l) = v" if a: "a \<in> set acts" and l: "lis_UUID l = lis_UUID al" for a l
  proof (cases "\<exists>r. listener_request a = Some (lis_UUID al, r)")
    case True
    then obtain r where r: "listener_request a = Some (lis_UUID al, r)" by blast
    have "f (set_listener r l) \<in> {f l, v}" by (rule assms(3) [OF assms(2) [OF a r refl]])
    then show ?thesis using l by (simp add: change_listener_def r)
  next
    case False
    then have "change_listener a l = l" using l by (auto simp: change_listener_def split: option.split)
    then show ?thesis by simp
  qed
qed simp_all

lemma listener_reaches:
  assumes "definite_listener dl" "set (update_listener (dl, al)) \<subseteq> set acts"
    and "\<And>a u r. a \<in> set acts \<Longrightarrow> listener_request a = Some (u, r) \<Longrightarrow> u = lis_UUID al \<Longrightarrow> r \<in> listener_updates dl"
  shows "same_listener (dl, change_listeners acts al)"
proof -
  note sent = update_listener_def UpdateListenerTimeout_request_def change_listener_def set_listener_def zero_ListenerRequest_def
  have "lis_AllowedCIDRs (change_listeners acts al) = lis_AllowedCIDRs dl"
    by (rule listener_field [OF assms(2,3) set_listener_towards(1), where act = "UpdateListenerAllowedCIDRsAction (lis_UUID al) (lis_AllowedCIDRs dl)"])
       (use assms(1) in \<open>simp_all add: sent definite_listener_def\<close>)
  moreover have "lis_TimeoutClientDataMS (change_listeners acts al) = lis_TimeoutClientDataMS dl"
    by (rule listener_field [OF assms(2,3) set_listener_towards(2), where act = "UpdateListenerTimeoutAction (lis_UUID al) (lis_TimeoutClientDataMS dl) ''client-data-ms''"])
       (use assms(1) in \<open>simp_all add: sent definite_listener_def\<close>)
  moreover have "lis_TimeoutMemberConnectMS (change_listeners acts al) = lis_TimeoutMemberConnectMS dl"
    by (rule listener_field [OF assms(2,3) set_listener_towards(3), where act = "UpdateListenerTimeoutAction (lis_UUID al) (lis_TimeoutMemberConnectMS dl) ''member-connect-ms''"])
       (use assms(1) in \<open>simp_all add: sent definite_listener_def\<close>)
  moreover have "lis_TimeoutMemberDataMS (change_listeners acts al) = lis_TimeoutMemberDataMS dl"
    by (rule listener_field [OF assms(2,3) set_listener_towards(4), where act = "UpdateListenerTimeoutAction (lis_UUID al) (lis_TimeoutMemberDataMS dl) ''member-data-ms''"])
       (use assms(1) in \<open>simp_all add: sent definite_listener_def\<close>)
  ultimately show ?thesis by (simp add: same_listener_def)
qed

section \<open>Monitors\<close>

lemma update_monitor_request:
  assumes "a \<in> set (update_monitor (dm, am))"
  shows "\<exists>r \<in> monitor_updates dm. monitor_request a = Some (mon_UUID am, r)" "listener_request a = None"
  using assms by (auto simp: update_monitor_def update_monitor_http_def monitor_updates_def UpdateMonitorNumber_request_def
      split: if_splits option.splits)

definition definite_monitor :: "LoadBalancerHealthMonitor \<Rightarrow> bool" where
  "definite_monitor m \<longleftrightarrow> mon_DelayS m \<noteq> 0 \<and> mon_TimeoutS m \<noteq> 0 \<and> mon_UpThreshold m \<noteq> 0 \<and> mon_DownThreshold m \<noteq> 0 \<and>
     (\<forall>h. mon_HTTP m = Some h \<longrightarrow> http_URLPath h \<noteq> [] \<and> http_Method h \<noteq> [] \<and> http_ExpectedCodes h \<noteq> [])"

text \<open>Two monitors with the same settings, up to the host.\<close>

definition same_but_host :: "LoadBalancerHealthMonitor \<times> LoadBalancerHealthMonitor \<Rightarrow> bool" where
  "same_but_host pair = (case pair of (d, a) \<Rightarrow>
     mon_DelayS d = mon_DelayS a \<and> mon_TimeoutS d = mon_TimeoutS a \<and>
     mon_UpThreshold d = mon_UpThreshold a \<and> mon_DownThreshold d = mon_DownThreshold a \<and>
     (case (mon_HTTP d, mon_HTTP a) of
        (Some dh, Some ah) \<Rightarrow> http_URLPath dh = http_URLPath ah \<and> http_Method dh = http_Method ah \<and>
          http_ExpectedCodes dh = http_ExpectedCodes ah
      | _ \<Rightarrow> True))"

text \<open>An option for HTTP of a monitor, where \<open>v\<close> stands for one of a monitor without.\<close>

definition http_field :: "(MonitorHTTP \<Rightarrow> 'v) \<Rightarrow> 'v \<Rightarrow> LoadBalancerHealthMonitor \<Rightarrow> 'v" where
  "http_field f v m = (case mon_HTTP m of None \<Rightarrow> v | Some h \<Rightarrow> f h)"

lemma set_monitor_number:
  assumes "r \<in> monitor_updates dm"
  shows "mon_DelayS (set_monitor r m) \<in> {mon_DelayS m, mon_DelayS dm}"
    "mon_TimeoutS (set_monitor r m) \<in> {mon_TimeoutS m, mon_TimeoutS dm}"
    "mon_UpThreshold (set_monitor r m) \<in> {mon_UpThreshold m, mon_UpThreshold dm}"
    "mon_DownThreshold (set_monitor r m) \<in> {mon_DownThreshold m, mon_DownThreshold dm}"
  using assms by (cases "mon_HTTP dm"; auto simp: monitor_updates_def set_monitor_def http_only_def zero_MonitorRequest_def)+

lemma set_monitor_http:
  assumes "mon_HTTP dm = Some h" "r \<in> monitor_updates dm"
  shows "http_field http_URLPath (http_URLPath h) (set_monitor r m) \<in> {http_field http_URLPath (http_URLPath h) m, http_URLPath h}"
    "http_field http_Method (http_Method h) (set_monitor r m) \<in> {http_field http_Method (http_Method h) m, http_Method h}"
    "http_field http_ExpectedCodes (http_ExpectedCodes h) (set_monitor r m) \<in> {http_field http_ExpectedCodes (http_ExpectedCodes h) m, http_ExpectedCodes h}"
  using assms by (cases "mon_HTTP m"; auto simp: monitor_updates_def set_monitor_def set_http_def http_only_def http_field_def
      zero_MonitorRequest_def zero_MonitorHTTPRequest_def)+

lemma monitor_field:
  assumes "set (update_monitor (dm, am)) \<subseteq> set acts"
    and "\<And>a u r. a \<in> set acts \<Longrightarrow> monitor_request a = Some (u, r) \<Longrightarrow> u = mon_UUID am \<Longrightarrow> r \<in> monitor_updates dm"
    and "\<And>r m. r \<in> monitor_updates dm \<Longrightarrow> f (set_monitor r m) \<in> {f m, v}"
    and "f (no_address am) \<noteq> v \<Longrightarrow> act \<in> set (update_monitor (dm, am))" "\<And>m. mon_UUID m = mon_UUID am \<Longrightarrow> f (change_monitor act m) = v"
  shows "f (change_monitors acts (no_address am)) = v"
proof (rule fold_field [where u = mon_UUID and k = "mon_UUID am"])
  show "f (no_address am) = v \<or> (\<exists>a \<in> set acts. \<forall>m. mon_UUID m = mon_UUID am \<longrightarrow> f (change_monitor a m) = v)"
    using assms(1,4,5) by blast
  show "f (change_monitor a m) = f m \<or> f (change_monitor a m) = v" if a: "a \<in> set acts" and m: "mon_UUID m = mon_UUID am" for a m
  proof (cases "\<exists>r. monitor_request a = Some (mon_UUID am, r)")
    case True
    then obtain r where r: "monitor_request a = Some (mon_UUID am, r)" by blast
    have "f (set_monitor r m) \<in> {f m, v}" by (rule assms(3) [OF assms(2) [OF a r refl]])
    then show ?thesis using m by (simp add: change_monitor_def r)
  next
    case False
    then have "change_monitor a m = m" using m by (auto simp: change_monitor_def split: option.split)
    then show ?thesis by simp
  qed
qed simp_all

lemma monitor_reaches:
  assumes "definite_monitor dm" "set (update_monitor (dm, am)) \<subseteq> set acts"
    and "\<And>a u r. a \<in> set acts \<Longrightarrow> monitor_request a = Some (u, r) \<Longrightarrow> u = mon_UUID am \<Longrightarrow> r \<in> monitor_updates dm"
  shows "same_but_host (dm, change_monitors acts (no_address am))"
proof -
  note sent = update_monitor_def UpdateMonitorNumber_request_def change_monitor_def set_monitor_def zero_MonitorRequest_def no_address_def
  note http = update_monitor_http_def http_only_def set_http_def zero_MonitorHTTPRequest_def http_field_def
  let ?m = "change_monitors acts (no_address am)"
  have "mon_DelayS ?m = mon_DelayS dm"
    by (rule monitor_field [OF assms(2,3) set_monitor_number(1), where act = "UpdateMonitorNumberAction (mon_UUID am) (mon_DelayS dm) ''delay-s''"])
       (use assms(1) in \<open>simp_all add: sent definite_monitor_def\<close>)
  moreover have "mon_TimeoutS ?m = mon_TimeoutS dm"
    by (rule monitor_field [OF assms(2,3) set_monitor_number(2), where act = "UpdateMonitorNumberAction (mon_UUID am) (mon_TimeoutS dm) ''timeout-s''"])
       (use assms(1) in \<open>simp_all add: sent definite_monitor_def\<close>)
  moreover have "mon_UpThreshold ?m = mon_UpThreshold dm"
    by (rule monitor_field [OF assms(2,3) set_monitor_number(3), where act = "UpdateMonitorNumberAction (mon_UUID am) (mon_UpThreshold dm) ''up-threshold''"])
       (use assms(1) in \<open>simp_all add: sent definite_monitor_def\<close>)
  moreover have "mon_DownThreshold ?m = mon_DownThreshold dm"
    by (rule monitor_field [OF assms(2,3) set_monitor_number(4), where act = "UpdateMonitorNumberAction (mon_UUID am) (mon_DownThreshold dm) ''down-threshold''"])
       (use assms(1) in \<open>simp_all add: sent definite_monitor_def\<close>)
  moreover have "http_field http_URLPath (http_URLPath h) ?m = http_URLPath h" if "mon_HTTP dm = Some h" for h
    by (rule monitor_field [OF assms(2,3) set_monitor_http(1) [OF that], where act = "UpdateMonitorHTTPPathAction (mon_UUID am) (http_URLPath h)"])
       (use assms(1) that in \<open>auto simp: sent http definite_monitor_def split: option.splits\<close>)
  moreover have "http_field http_Method (http_Method h) ?m = http_Method h" if "mon_HTTP dm = Some h" for h
    by (rule monitor_field [OF assms(2,3) set_monitor_http(2) [OF that], where act = "UpdateMonitorHTTPMethodAction (mon_UUID am) (http_Method h)"])
       (use assms(1) that in \<open>auto simp: sent http definite_monitor_def split: option.splits\<close>)
  moreover have "http_field http_ExpectedCodes (http_ExpectedCodes h) ?m = http_ExpectedCodes h" if "mon_HTTP dm = Some h" for h
    by (rule monitor_field [OF assms(2,3) set_monitor_http(3) [OF that], where act = "UpdateMonitorHTTPExpectedCodesAction (mon_UUID am) (http_ExpectedCodes h)"])
       (use assms(1) that in \<open>auto simp: sent http definite_monitor_def split: option.splits\<close>)
  ultimately show ?thesis by (auto simp: same_but_host_def http_field_def split: option.splits)
qed

section \<open>The last plan\<close>

text \<open>One value for each setting, and settings that a request can carry.\<close>

definition definite :: "ext \<Rightarrow> lbState \<Rightarrow> bool" where
  "definite x desired \<longleftrightarrow> (\<forall>e \<in> set (st_pools desired).
     distinct (map (listenerKey x) (st_listeners desired (Some (fst e)))) \<and> list_all definite_listener (st_listeners desired (Some (fst e))) \<and>
     distinct (map (monitorKey x) (st_monitors desired (Some (fst e)))) \<and> list_all definite_monitor (st_monitors desired (Some (fst e))))"

definition settings_reached :: "ext \<Rightarrow> lbState \<Rightarrow> lbState \<Rightarrow> bool" where
  "settings_reached x desired s \<longleftrightarrow> (\<forall>e \<in> set (st_pools desired). \<forall>a. counterpart s e = Some a \<longrightarrow>
     list_all same_listener (Match (st_listeners desired (Some (fst e))) (st_listeners s (Some (fst a))) (listenerKey x)) \<and>
     list_all same_but_host (Match (st_monitors desired (Some (fst e))) (st_monitors s (Some (fst a))) (monitorKey x)))"

abbreviation updates :: "ext \<Rightarrow> lbState \<Rightarrow> lbState \<Rightarrow> action list" where
  "updates x desired s \<equiv> concat (map (update_pool x desired s) (st_pools desired))"

lemma updates_from:
  assumes "a \<in> set (updates x desired s)"
  obtains e where "e \<in> set (st_pools desired)" "a \<in> set (update_pool x desired s e)"
  using assms by auto

lemma update_pool_cases:
  assumes "a \<in> set (update_pool x desired s e)" "counterpart s e = Some b"
  obtains (listener) dl al where "(dl, al) \<in> set (Match (st_listeners desired (Some (fst e))) (st_listeners s (Some (fst b))) (listenerKey x))"
      "a \<in> set (update_listener (dl, al))"
    | (monitor) dm am where "(dm, am) \<in> set (Match (st_monitors desired (Some (fst e))) (st_monitors s (Some (fst b))) (monitorKey x))"
      "a \<in> set (update_monitor (dm, am))"
  using assms by (auto simp: update_pool_def Let_def)

text \<open>A listener or monitor of a pool is in no other pool.\<close>

lemma same_pool:
  assumes "wf_account A" "shows_account A lb s" "distinct (map (pool_Name \<circ> snd) (st_pools desired))"
    and "e \<in> set (st_pools desired)" "counterpart s e = Some a" "e' \<in> set (st_pools desired)" "counterpart s e' = Some a'"
    and "pool_UUID (snd a) = pool_UUID (snd a')"
  shows "e' = e"
proof -
  have "snd a \<in> set (acc_pools A)" "snd a' \<in> set (acc_pools A)"
    using counterpart_mem assms(5,7) shows_accountD(3) [OF assms(2)] by blast+
  then have "snd a = snd a'" using assms(1,8) unfolding wf_account_def distinct_map inj_on_def by blast
  then have "(pool_Name \<circ> snd) e = (pool_Name \<circ> snd) e'" using counterpart_mem assms(5,7) by (metis comp_apply)
  then show ?thesis using assms(3,4,6) unfolding distinct_map inj_on_def by blast
qed

lemma listener_requests_from:
  assumes "wf_account A" "shows_account A lb s" "same_structure x desired s" "definite x desired"
    and "distinct (map (pool_Name \<circ> snd) (st_pools desired))" "e \<in> set (st_pools desired)" "counterpart s e = Some b"
    and "(dl, al) \<in> set (Match (st_listeners desired (Some (fst e))) (st_listeners s (Some (fst b))) (listenerKey x))"
    and "a \<in> set (updates x desired s)" "listener_request a = Some (lis_UUID al, r)"
  shows "r \<in> listener_updates dl"
proof -
  obtain e' where e': "e' \<in> set (st_pools desired)" "a \<in> set (update_pool x desired s e')" using assms(9) by (rule updates_from)
  obtain b' where b': "counterpart s e' = Some b'" using assms(3) e'(1) unfolding same_structure_def by blast
  note pair = MatchD [OF assms(8)]
  from e'(2) b' show ?thesis
  proof (cases rule: update_pool_cases)
    case (listener dl' al')
    note pair' = MatchD [OF listener(1)]
    obtain q where q: "q \<in> listener_updates dl'" "listener_request a = Some (lis_UUID al', q)"
      using update_listener_request(1) [OF listener(2)] by blast
    have "al \<in> set (listeners_of A (pool_UUID (snd b)))" "al' \<in> set (listeners_of A (pool_UUID (snd b')))"
      using pair pair' shows_accountD(3) [OF assms(2)] counterpart_mem [OF assms(7)] counterpart_mem [OF b'] by metis+
    then have here: "al \<in> set (acc_listeners A)" "lis_PoolUUID al = Some (pool_UUID (snd b))"
      "al' \<in> set (acc_listeners A)" "lis_PoolUUID al' = Some (pool_UUID (snd b'))" by (simp_all add: listeners_of_def)
    have "al' = al" using assms(1,10) q(2) here(1,3) unfolding wf_account_def distinct_map inj_on_def by auto
    then have "e' = e" using same_pool [OF assms(1,2,5,6,7) e'(1) b'] here(2,4) by simp
    then have "dl' \<in> set (st_listeners desired (Some (fst e)))" "listenerKey x dl' = listenerKey x dl"
      using pair pair' \<open>al' = al\<close> by simp_all
    then have "dl' = dl" using pair assms(4,6) unfolding definite_def distinct_map inj_on_def by blast
    with q assms(10) show ?thesis by simp
  next
    case (monitor dm am)
    with assms(10) show ?thesis using update_monitor_request(2) by fastforce
  qed
qed

lemma monitor_requests_from:
  assumes "wf_account A" "shows_account A lb s" "same_structure x desired s" "definite x desired"
    and "distinct (map (pool_Name \<circ> snd) (st_pools desired))" "e \<in> set (st_pools desired)" "counterpart s e = Some b"
    and "(dm, am) \<in> set (Match (st_monitors desired (Some (fst e))) (st_monitors s (Some (fst b))) (monitorKey x))"
    and "a \<in> set (updates x desired s)" "monitor_request a = Some (mon_UUID am, r)"
  shows "r \<in> monitor_updates dm"
proof -
  obtain e' where e': "e' \<in> set (st_pools desired)" "a \<in> set (update_pool x desired s e')" using assms(9) by (rule updates_from)
  obtain b' where b': "counterpart s e' = Some b'" using assms(3) e'(1) unfolding same_structure_def by blast
  note pair = MatchD [OF assms(8)]
  from e'(2) b' show ?thesis
  proof (cases rule: update_pool_cases)
    case (monitor dm' am')
    note pair' = MatchD [OF monitor(1)]
    obtain q where q: "q \<in> monitor_updates dm'" "monitor_request a = Some (mon_UUID am', q)"
      using update_monitor_request(1) [OF monitor(2)] by blast
    have "no_address am \<in> set (map no_address (st_monitors s (Some (fst b))))"
      "no_address am' \<in> set (map no_address (st_monitors s (Some (fst b'))))" using pair pair' by simp_all
    then have "no_address am \<in> set (monitors_of A (pool_UUID (snd b)))" "no_address am' \<in> set (monitors_of A (pool_UUID (snd b')))"
      using shows_accountD(3) [OF assms(2)] counterpart_mem [OF assms(7)] counterpart_mem [OF b'] by metis+
    then have here: "no_address am \<in> set (acc_monitors A)" "mon_PoolUUID am = pool_UUID (snd b)"
      "no_address am' \<in> set (acc_monitors A)" "mon_PoolUUID am' = pool_UUID (snd b')" by (simp_all add: monitors_of_def)
    have "mon_UUID (no_address am') = mon_UUID (no_address am)" using assms(10) q(2) by simp
    then have same: "no_address am' = no_address am" using assms(1) here(1,3) unfolding wf_account_def distinct_map inj_on_def by blast
    then have "mon_PoolUUID am' = mon_PoolUUID am" "monitorKey x am' = monitorKey x am" using no_address_sel by metis+
    then have "e' = e" using same_pool [OF assms(1,2,5,6,7) e'(1) b'] here(2,4) by simp
    then have "dm' \<in> set (st_monitors desired (Some (fst e)))" "monitorKey x dm' = monitorKey x dm"
      using pair pair' \<open>monitorKey x am' = monitorKey x am\<close> by simp_all
    then have "dm' = dm" using pair assms(4,6) unfolding definite_def distinct_map inj_on_def by blast
    with q assms(10) show ?thesis by simp
  next
    case (listener dl al)
    with assms(10) show ?thesis using update_listener_request(2) by fastforce
  qed
qed

lemma update_pool_incl:
  assumes "e \<in> set (st_pools desired)" "counterpart s e = Some b"
  shows "(dl, al) \<in> set (Match (st_listeners desired (Some (fst e))) (st_listeners s (Some (fst b))) (listenerKey x)) \<Longrightarrow>
      set (update_listener (dl, al)) \<subseteq> set (updates x desired s)"
    "(dm, am) \<in> set (Match (st_monitors desired (Some (fst e))) (st_monitors s (Some (fst b))) (monitorKey x)) \<Longrightarrow>
      set (update_monitor (dm, am)) \<subseteq> set (updates x desired s)"
proof -
  have incl: "set (update_pool x desired s e) \<subseteq> set (updates x desired s)" using assms(1) by auto
  { assume "(dl, al) \<in> set (Match (st_listeners desired (Some (fst e))) (st_listeners s (Some (fst b))) (listenerKey x))"
    then have "set (update_listener (dl, al)) \<subseteq> set (update_pool x desired s e)" by (auto simp: update_pool_def Let_def assms(2))
    with incl show "set (update_listener (dl, al)) \<subseteq> set (updates x desired s)" by blast }
  { assume "(dm, am) \<in> set (Match (st_monitors desired (Some (fst e))) (st_monitors s (Some (fst b))) (monitorKey x))"
    then have "set (update_monitor (dm, am)) \<subseteq> set (update_pool x desired s e)" by (auto simp: update_pool_def Let_def assms(2))
    with incl show "set (update_monitor (dm, am)) \<subseteq> set (updates x desired s)" by blast }
qed

lemma same_but_host_address: "same_but_host (d, no_address a) = same_but_host (d, a)"
  by (auto simp: same_but_host_def no_address_def split: option.splits)

lemma settled_account_contents:
  "listeners_of (settled_account x ro desired s U B) u = map (change_listeners (updates x desired s)) (listeners_of B u)"
  "monitors_of (settled_account x ro desired s U B) u = map (change_monitors (updates x desired s)) (monitors_of B u)"
  by (simp_all add: settled_account_def)

lemma settled_settings:
  assumes "wf_account B" "shows_account B lb s" "same_structure x desired s" "definite x desired"
    and "distinct (map (pool_Name \<circ> snd) (st_pools desired))"
    and "shows_account (settled_account x ro desired s U B) lb' s'" "lb_UUID lb' = lb_UUID lb"
  shows "settings_reached x desired s'"
  unfolding settings_reached_def
proof (intro ballI allI impI)
  fix e a' assume e: "e \<in> set (st_pools desired)" and a': "counterpart s' e = Some a'"
  let ?acts = "updates x desired s" and ?dls = "st_listeners desired (Some (fst e))" and ?dms = "st_monitors desired (Some (fst e))"
  obtain b where b: "counterpart s e = Some b" using assms(3) e unfolding same_structure_def by blast
  have "acc_match (settled_account x ro desired s U B) V e = acc_match B V e" for V
    by (simp add: acc_match_def settled_account_frame)
  then have pool: "snd a' = snd b"
    using shows_counterpart [OF assms(6), of e] shows_counterpart [OF assms(2), of e] a' b assms(7) by (metis option.map(2) option.inject)
  note now = shows_accountD(3) [OF assms(6) conjunct1 [OF counterpart_mem [OF a']]]
  note before = shows_accountD(3) [OF assms(2) conjunct1 [OF counterpart_mem [OF b]]]
  have ls: "st_listeners s' (Some (fst a')) = map (change_listeners ?acts) (st_listeners s (Some (fst b)))"
    using now before pool by (simp add: settled_account_contents)
  have ms: "map no_address (st_monitors s' (Some (fst a'))) =
      map (\<lambda>m. change_monitors ?acts (no_address m)) (st_monitors s (Some (fst b)))"
  proof -
    have "map no_address (st_monitors s' (Some (fst a'))) = map (change_monitors ?acts) (map no_address (st_monitors s (Some (fst b))))"
      using now before pool by (simp only: settled_account_contents)
    then show ?thesis by (simp add: comp_def)
  qed
  have definite: "list_all definite_listener ?dls" "list_all definite_monitor ?dms" using assms(4) e by (simp_all add: definite_def)
  have "same_listener (dl, al')" if pair': "(dl, al') \<in> set (Match ?dls (st_listeners s' (Some (fst a'))) (listenerKey x))" for dl al'
  proof -
    obtain al where pair: "(dl, al) \<in> set (Match ?dls (st_listeners s (Some (fst b))) (listenerKey x))" "al' = change_listeners ?acts al"
      by (rule Match_map [OF _ pair' [unfolded ls]]) simp_all
    have "definite_listener dl" using definite(1) MatchD [OF pair(1)] by (simp add: list_all_iff)
    then have "same_listener (dl, change_listeners ?acts al)"
      by (rule listener_reaches [OF _ update_pool_incl(1) [OF e b pair(1)]])
         (use listener_requests_from [OF assms(1-5) e b pair(1)] in blast)
    then show ?thesis using pair(2) by simp
  qed
  moreover have "same_but_host (dm, am')" if pair': "(dm, am') \<in> set (Match ?dms (st_monitors s' (Some (fst a'))) (monitorKey x))" for dm am'
  proof -
    have "(dm, no_address am') \<in> set (Match ?dms (map no_address (st_monitors s' (Some (fst a')))) (monitorKey x))"
      using pair' by (auto simp: Match_mem rev_map find_map)
    then obtain am where pair: "(dm, am) \<in> set (Match ?dms (st_monitors s (Some (fst b))) (monitorKey x))"
      "no_address am' = change_monitors ?acts (no_address am)" unfolding ms by (rule Match_map [rotated]) simp_all
    have "definite_monitor dm" using definite(2) MatchD [OF pair(1)] by (simp add: list_all_iff)
    then have "same_but_host (dm, change_monitors ?acts (no_address am))"
      by (rule monitor_reaches [OF _ update_pool_incl(2) [OF e b pair(1)]])
         (use monitor_requests_from [OF assms(1-5) e b pair(1)] in blast)
    then show ?thesis by (simp only: pair(2) [symmetric] same_but_host_address)
  qed
  ultimately show "list_all same_listener (Match ?dls (st_listeners s' (Some (fst a'))) (listenerKey x)) \<and>
      list_all same_but_host (Match ?dms (st_monitors s' (Some (fst a'))) (monitorKey x))" by (auto simp: list_all_iff)
qed

end
