(* ===== verification/Convergence.thy ===== *)
theory Convergence
  imports Settings
begin

text \<open>
  Reconciliation reaches the desired state. Under the documented behaviour of the API, every round of
  \<open>reconcileLbState\<close> either comes closer to the desired structure, or waits for a load balancer that is
  changing, or is the last one; so the loop ends, without an error, and leaves the account in the
  desired state.
\<close>

section \<open>One round\<close>

lemma wp_run:
  assumes "wp M acts Q A" "am_ok M w" "am_acct M w = A"
  shows "\<exists>w'. runActions x (am_client M) acts w = (Ok False, w') \<and> am_ok M w' \<and> Q (am_acct M w')"
  using assms unfolding wp_def by blast

abbreviation read_actual :: "'w client \<Rightarrow> serviceInfo \<Rightarrow> ('w, lbState option) io" where
  "read_actual c info \<equiv> bind_io (actualLbState c info) (\<lambda>s. return_io (Some s))"

text \<open>The computation of the desired state gives the same state in every round and changes nothing.\<close>

definition steady :: "'w api_model \<Rightarrow> ('w, lbState option) io \<Rightarrow> lbState \<Rightarrow> bool" where
  "steady M ds desired \<longleftrightarrow> (\<forall>w. am_ok M w \<longrightarrow> (\<exists>w'. ds w = (Ok (Some desired), w') \<and> quiet M w w'))"

lemma reconcile_round_run:
  assumes "ds w = (Ok d, w1)" "as w1 = (Ok s, w2)" "nextLbActions x (range_orders c w2) d s = Ok acts" "runActions x c acts w2 = (Ok b, w3)"
  shows "reconcile_round x c ds as w = (if \<not> b then (Some (Ok ()), w3)
    else (case wait_for_next c w3 of (done, w') \<Rightarrow> if done then (Some (Err (ErrorMsg ''action has been aborted'')), w') else (None, w')))"
  using assms by (simp add: reconcile_round_def bind_io_apply)

lemma wait_for_next_goes_on:
  assumes "documented_api M" "am_ok M w"
  shows "\<exists>w'. wait_for_next (am_client M) w = (False, w') \<and> quiet M w w' \<and> am_pending M w' \<le> am_pending M w - 1"
proof -
  have "\<exists>i w1. rand_Intn (am_client M) 2500 w = (i, w1) \<and> 0 \<le> i \<and> quiet M w w1"
    using assms unfolding documented_api_def waits_documented_def by (metis zero_less_numeral)
  then obtain i w1 where i: "rand_Intn (am_client M) 2500 w = (i, w1)" "0 \<le> i" "quiet M w w1" by blast
  obtain w2 where w2: "wait_or_done (am_client M) ((5000 + i) * Millisecond) w1 = (False, w2)" "quiet M w1 w2"
    "5 * Second \<le> (5000 + i) * Millisecond \<Longrightarrow> am_pending M w2 \<le> am_pending M w1 - 1"
    using api_wait [OF assms(1), of w1 "(5000 + i) * Millisecond"] quietD [OF i(3)] by blast
  then have "am_pending M w2 \<le> am_pending M w - 1" using i(2) quietD [OF i(3)] by force
  with w2(1) i(1) quiet_trans [OF i(3) w2(2)] show ?thesis by (auto simp: wait_for_next_def)
qed

text \<open>
  The order in which rounds make progress: a load balancer comes into being, its pools become the
  desired ones, their contents do, or a change at the API comes to its end.
\<close>

definition missing_lb :: "'w api_model \<Rightarrow> serviceInfo \<Rightarrow> 'w \<Rightarrow> nat" where
  "missing_lb M info w = (if candidates info (am_acct M w) = [] then 1 else 0)"

abbreviation found_UUID :: "serviceInfo \<Rightarrow> account \<Rightarrow> string" where
  "found_UUID info A \<equiv> lb_UUID (hd (candidates info A))"

definition progress :: "ext \<Rightarrow> 'w api_model \<Rightarrow> serviceInfo \<Rightarrow> lbState \<Rightarrow> ('w \<times> 'w) set" where
  "progress x M info desired = measures [missing_lb M info,
     \<lambda>w. pools_gap desired (found_UUID info (am_acct M w)) (am_acct M w),
     \<lambda>w. content_gap x desired (found_UUID info (am_acct M w)) (am_acct M w), am_pending M]"

lemma candidates_cong: "acc_lbs A' = acc_lbs A \<Longrightarrow> candidates info A' = candidates info A"
  by (simp add: candidates_def)

lemma candidate_here: "candidates info A = [no_status lb] \<Longrightarrow> lb_UUID lb \<in> lb_UUIDs A"
proof -
  assume "candidates info A = [no_status lb]"
  then have "no_status lb \<in> set (acc_lbs A)" by (metis candidates_def filter_is_subset list.set_intros(1) subsetD)
  then show ?thesis by (metis image_eqI no_status_sel(1))
qed

text \<open>A load balancer that is changing ends the run of the plan at once.\<close>

lemma runActions_changing:
  assumes "documented_api M" "am_ok M w" "lb_Status lb = ''changing''"
  shows "runActions x (am_client M) (AwaitLbAction lb # acts) w = (Ok True, w)"
  using api_ctx [OF assms(1,2)] assms(3) by simp

text \<open>The two kinds of plans for an existing load balancer that end with a fresh look.\<close>

lemma run_structural_plan:
  assumes "documented_api M" "attainable M info desired dlb" "am_ok M w" "am_acct M w = A"
    and "startable info desired dlb A" "candidates info A = [no_status lb]" "lb_Status lb \<noteq> ''changing''"
    and "\<And>B. wf_account B \<Longrightarrow> renamed info dlb lb A B \<Longrightarrow> wp M part (\<lambda>C. acc_lbs C = acc_lbs B \<and> acc_fips C = acc_fips B \<and> Q C) B"
  shows "\<exists>w'. runActions x (am_client M) (AwaitLbAction lb # rename_part dlb lb @ part @ [RefetchAction]) w = (Ok True, w') \<and>
    am_ok M w' \<and> startable info desired dlb (am_acct M w') \<and> candidates info (am_acct M w') = [no_status (lb\<lparr>lb_Name := lb_Name dlb\<rparr>)] \<and>
    Q (am_acct M w')"
proof -
  let ?Q = "\<lambda>C. startable info desired dlb C \<and> candidates info C = [no_status (lb\<lparr>lb_Name := lb_Name dlb\<rparr>)] \<and> Q C"
  have wf: "wf_account A" using api_wf [OF assms(1,3)] assms(4) by simp
  have "wp M (rename_part dlb lb @ part) ?Q A"
  proof (rule wp_append, rule wp_mono [OF wp_wf [OF assms(1) wp_rename [OF assms(1,2) wf assms(6)]]])
    fix B assume B: "renamed info dlb lb A B \<and> wf_account B"
    then have start: "startable info desired dlb B" using renamed_startable assms(5,6) by blast
    from B have "wp M part (\<lambda>C. acc_lbs C = acc_lbs B \<and> acc_fips C = acc_fips B \<and> Q C) B" using assms(8) by blast
    then show "wp M part ?Q B"
    proof (rule wp_mono)
      fix C assume C: "acc_lbs C = acc_lbs B \<and> acc_fips C = acc_fips B \<and> Q C"
      then have "startable info desired dlb C" using startable_cong [of C B] start by simp
      moreover have "candidates info C = [no_status (lb\<lparr>lb_Name := lb_Name dlb\<rparr>)]"
        using C B candidates_cong [of C B info] by (simp add: renamed_def)
      ultimately show "?Q C" using C by blast
    qed
  qed
  then have "wp M ([AwaitLbAction lb] @ rename_part dlb lb @ part) ?Q A"
    by (rule wp_append [OF wp_await [OF assms(1,7)]])
  from wp_refetch [OF this assms(1,3,4), of x] show ?thesis by simp
qed

lemma run_settled_plan:
  assumes "documented_api M" "attainable M info desired dlb" "am_ok M w" "am_acct M w = A" "shows_account A lb s"
    and "startable info desired dlb A" "candidates info A = [no_status lb]" "lb_Status lb \<noteq> ''changing''"
    and "valid_site_orders ro" "same_structure x desired s"
  shows "\<exists>w' B. runActions y (am_client M) (AwaitLbAction lb # rename_part dlb lb @
      concat (map (update_pool x desired s) (st_pools desired)) @ assign_floating ro lb desired s) w = (Ok False, w') \<and>
    am_ok M w' \<and> wf_account B \<and> renamed info dlb lb A B \<and> am_acct M w' = settled_account x ro desired s (lb_UUID lb) B"
proof -
  have wf: "wf_account A" using api_wf [OF assms(1,3)] assms(4) by simp
  let ?Q = "\<lambda>C. \<exists>B. wf_account B \<and> renamed info dlb lb A B \<and> C = settled_account x ro desired s (lb_UUID lb) B"
  have "wp M (rename_part dlb lb @ concat (map (update_pool x desired s) (st_pools desired)) @ assign_floating ro lb desired s) ?Q A"
  proof (rule wp_append, rule wp_mono [OF wp_wf [OF assms(1) wp_rename [OF assms(1,2) wf assms(7)]]])
    fix B assume B: "renamed info dlb lb A B \<and> wf_account B"
    then have "startable info desired dlb B" using renamed_startable assms(6,7) by blast
    moreover have "shows_account B lb s" using B assms(5) by (auto simp: renamed_def)
    moreover have "lb_UUID lb \<in> lb_UUIDs B" using candidate_here [of info B "lb\<lparr>lb_Name := lb_Name dlb\<rparr>"] B by (simp add: renamed_def)
    ultimately show "wp M (concat (map (update_pool x desired s) (st_pools desired)) @ assign_floating ro lb desired s) ?Q B"
      using B by (intro wp_mono [OF wp_settled_part [OF assms(1,2)]]) (use assms(9,10) in blast)+
  qed
  then have "wp M ([AwaitLbAction lb] @ rename_part dlb lb @ concat (map (update_pool x desired s) (st_pools desired)) @
      assign_floating ro lb desired s) ?Q A"
    by (rule wp_append [OF wp_await [OF assms(1,8)]])
  then obtain w' where "runActions y (am_client M) ([AwaitLbAction lb] @ rename_part dlb lb @
      concat (map (update_pool x desired s) (st_pools desired)) @ assign_floating ro lb desired s) w = (Ok False, w')"
    "am_ok M w'" "?Q (am_acct M w')" using wp_run [OF _ assms(3,4), of _ _ y] by blast
  then show ?thesis unfolding append_Cons append_Nil by blast
qed

text \<open>The possible plans for a load balancer that agrees in what cannot be changed.\<close>

lemma plan_exists:
  assumes "attainable M info desired dlb" "wf_account A" "shows_account A lb s" "same_fixed dlb lb" "valid_site_orders ro"
  shows "\<exists>acts. nextLbActions x ro (Some desired) (Some s) = Ok acts \<and> change_actions x ro dlb lb desired s = Ok acts"
proof -
  obtain del cre where diff: "Diff (ro PoolsSite) (st_pools desired) (st_pools s) (poolKey \<circ> snd) = (del, cre)" by fastforce
  have "\<exists>changes. recreate_pools x ro desired s 0 (st_pools desired) = Ok changes" if "del = []" "cre = []"
  proof -
    have "(poolKey \<circ> snd) ` set (st_pools desired) = (poolKey \<circ> snd) ` set (st_pools s)"
      by (rule iffD1 [OF go_diff.idle_iff [OF valid_site_ordersD [OF assms(5), of PoolsSite]]]) (rule diff [unfolded that])
    then show ?thesis
      unfolding recreate_pools_total
      using keys_counterpart [OF attainableD(7) [OF assms(1)] shows_api_pools [OF assms(3,2)]] by (metis option.distinct(1))
  qed
  then have "\<exists>acts. change_actions x ro dlb lb desired s = Ok acts" using diff by (auto simp: change_actions_def Let_def)
  then show ?thesis
    using nextLbActions_fixed(1) [OF attainableD(1) [OF assms(1)] shows_accountD(1) [OF assms(3)] assms(4)] by simp
qed

text \<open>A round in which another one is asked for, and one that is the last.\<close>

lemma round_goes_on:
  assumes "documented_api M" "ds w = (Ok (Some desired), w1)" "read_actual (am_client M) info w1 = (Ok (Some s), w2)"
    and "nextLbActions x (range_orders (am_client M) w2) (Some desired) (Some s) = Ok acts"
    and "runActions x (am_client M) acts w2 = (Ok True, w3)" "am_ok M w3"
  shows "\<exists>w'. reconcile_round x (am_client M) ds (read_actual (am_client M) info) w = (None, w') \<and> quiet M w3 w' \<and>
    am_pending M w' \<le> am_pending M w3 - 1"
  using wait_for_next_goes_on [OF assms(1,6)] reconcile_round_run [where as = "read_actual (am_client M) info" and ds = ds, OF assms(2-5)] by auto

lemma progress_same_account:
  assumes "am_acct M w' = am_acct M w" "am_pending M w' < am_pending M w"
  shows "(w', w) \<in> progress x M info desired"
  using assms by (simp add: progress_def missing_lb_def)

lemma round_without_lb:
  assumes "documented_api M" "attainable M info desired dlb" "steady M ds desired" "am_ok M w"
    and "startable info desired dlb (am_acct M w)" "candidates info (am_acct M w) = []"
  shows "\<exists>w'. reconcile_round x (am_client M) ds (read_actual (am_client M) info) w = (None, w') \<and> am_ok M w' \<and>
    startable info desired dlb (am_acct M w') \<and> (w', w) \<in> progress x M info desired"
proof -
  obtain w1 where w1: "ds w = (Ok (Some desired), w1)" "quiet M w w1" using assms(3,4) unfolding steady_def by blast
  note q1 = quietD [OF w1(2)]
  obtain w2 where w2: "actualLbState (am_client M) info w1 = (Ok empty_lbState, w2)" "quiet M w1 w2"
    using actualLbState_reads(1) [OF assms(1) _ attainableD(3) [OF assms(2)], of w1] assms(6) q1 by auto
  note q2 = quietD [OF w2(2)]
  have "wp M [CreateLbAction dlb] (\<lambda>A'. startable info desired dlb A' \<and> candidates info A' \<noteq> []) (am_acct M w)"
    by (rule wp_create_lb [OF assms(1,2,5,6)])
  from wp_refetch [OF this assms(1), of w2 x] q1 q2 obtain w3 where
    w3: "runActions x (am_client M) [CreateLbAction dlb, RefetchAction] w2 = (Ok True, w3)" "am_ok M w3"
      "startable info desired dlb (am_acct M w3)" "candidates info (am_acct M w3) \<noteq> []" by auto
  have read: "read_actual (am_client M) info w1 = (Ok (Some empty_lbState), w2)" using w2(1) by (simp add: bind_io_apply)
  have plan: "nextLbActions x (range_orders (am_client M) w2) (Some desired) (Some empty_lbState) = Ok [CreateLbAction dlb, RefetchAction]"
    using attainableD(1) [OF assms(2)] by (simp add: nextLbActions_def empty_lbState_def)
  obtain w' where w': "reconcile_round x (am_client M) ds (read_actual (am_client M) info) w = (None, w')" "quiet M w3 w'"
    using round_goes_on [where ds = ds and w = w, OF assms(1) w1(1) read plan w3(1,2)] by blast
  note q = quietD [OF w'(2)]
  have "(w', w) \<in> progress x M info desired" using w3(4) assms(6) q by (simp add: progress_def missing_lb_def)
  with w'(1) w3(3) q show ?thesis by auto
qed

text \<open>The account after the last round.\<close>

definition reconciled :: "ext \<Rightarrow> serviceInfo \<Rightarrow> lbState \<Rightarrow> LoadBalancer \<Rightarrow> account \<Rightarrow> bool" where
  "reconciled x info desired dlb A \<longleftrightarrow> (\<exists>lb ro s B. candidates info A = [no_status (lb\<lparr>lb_Name := lb_Name dlb\<rparr>)] \<and> same_fixed dlb lb \<and>
     valid_site_orders ro \<and> wf_account B \<and> startable info desired dlb B \<and> shows_account B lb s \<and> same_structure x desired s \<and>
     A = settled_account x ro desired s (lb_UUID lb) B)"

lemma renamed_gaps:
  assumes "renamed info dlb lb A B"
  shows "shows_account B l s = shows_account A l s" "pools_gap desired U B = pools_gap desired U A"
    "content_gap x desired U B = content_gap x desired U A" "wf_account A \<Longrightarrow> lb_UUID lb \<in> lb_UUIDs B"
  using assms candidate_here [of info B "lb\<lparr>lb_Name := lb_Name dlb\<rparr>"] by (auto simp: renamed_def)

text \<open>The plan for the pools and the plan for their contents, in one: the gaps shrink in this order.\<close>

lemma structural_round:
  assumes "documented_api M" "attainable M info desired dlb" "wf_account A" "shows_account A lb s" "valid_site_orders ro"
    and "change_actions x ro dlb lb desired s = Ok acts" "\<not> same_structure x desired s"
  shows "\<exists>part. acts = AwaitLbAction lb # rename_part dlb lb @ part @ [RefetchAction] \<and>
    (\<forall>B. wf_account B \<and> renamed info dlb lb A B \<longrightarrow> wp M part (\<lambda>C. acc_lbs C = acc_lbs B \<and> acc_fips C = acc_fips B \<and>
       (pools_gap desired (lb_UUID lb) C < pools_gap desired (lb_UUID lb) A \<or>
        pools_gap desired (lb_UUID lb) C = pools_gap desired (lb_UUID lb) A \<and>
        content_gap x desired (lb_UUID lb) C < content_gap x desired (lb_UUID lb) A)) B)"
  using assms(5,6)
proof (cases rule: change_actions_cases)
  case (pools del cre)
  let ?part = "concat (map (delete_pool s) del) @ map (CreatePoolAction (lb_UUID lb) \<circ> snd) cre"
  have "wp M ?part (\<lambda>C. acc_lbs C = acc_lbs B \<and> acc_fips C = acc_fips B \<and>
       (pools_gap desired (lb_UUID lb) C < pools_gap desired (lb_UUID lb) A \<or>
        pools_gap desired (lb_UUID lb) C = pools_gap desired (lb_UUID lb) A \<and>
        content_gap x desired (lb_UUID lb) C < content_gap x desired (lb_UUID lb) A)) B"
    if B: "wf_account B \<and> renamed info dlb lb A B" for B
  proof -
    note gaps = renamed_gaps [of info dlb lb A B]
    have "wp M ?part (\<lambda>C. acc_lbs C = acc_lbs B \<and> acc_fips C = acc_fips B \<and>
        pools_gap desired (lb_UUID lb) C < pools_gap desired (lb_UUID lb) B) B"
      by (rule wp_pools_part [OF assms(1,2) _ _ _ valid_site_ordersD [OF assms(5)] pools(1,2)]) (use B gaps assms(3,4) in auto)
    then show ?thesis by (rule wp_mono) (use B gaps in auto)
  qed
  then show ?thesis using pools(3) by (intro exI [of _ ?part] conjI allI impI) simp_all
next
  case (contents changes)
  have "wp M changes (\<lambda>C. acc_lbs C = acc_lbs B \<and> acc_fips C = acc_fips B \<and>
       (pools_gap desired (lb_UUID lb) C < pools_gap desired (lb_UUID lb) A \<or>
        pools_gap desired (lb_UUID lb) C = pools_gap desired (lb_UUID lb) A \<and>
        content_gap x desired (lb_UUID lb) C < content_gap x desired (lb_UUID lb) A)) B"
    if B: "wf_account B \<and> renamed info dlb lb A B" for B
  proof -
    note gaps = renamed_gaps [of info dlb lb A B]
    have "wp M changes (\<lambda>C. acc_lbs C = acc_lbs B \<and> acc_fips C = acc_fips B \<and> acc_pools C = acc_pools B \<and>
        content_gap x desired (lb_UUID lb) C < content_gap x desired (lb_UUID lb) B) B"
      using wp_contents_part [OF assms(1,2) _ _ assms(5) contents(1,2), of B lb] B gaps assms(4) by simp
    then show ?thesis by (rule wp_mono) (use B gaps in \<open>auto simp: pools_gap_def\<close>)
  qed
  then show ?thesis using contents(3) by (intro exI [of _ changes] conjI allI impI) simp_all
next
  case settled
  with assms(7) show ?thesis by blast
qed

text \<open>
  A round with a load balancer: it is the last one, and the account is reconciled, or it is followed by
  another one and has made progress.
\<close>

definition round_advances ::
  "ext \<Rightarrow> 'w api_model \<Rightarrow> serviceInfo \<Rightarrow> lbState \<Rightarrow> LoadBalancer \<Rightarrow> ('w, lbState option) io \<Rightarrow> 'w \<Rightarrow> bool" where
  "round_advances x M info desired dlb ds w \<longleftrightarrow>
     (\<exists>w'. reconcile_round x (am_client M) ds (read_actual (am_client M) info) w = (Some (Ok ()), w') \<and> am_ok M w' \<and>
        reconciled x info desired dlb (am_acct M w')) \<or>
     (\<exists>w'. reconcile_round x (am_client M) ds (read_actual (am_client M) info) w = (None, w') \<and> am_ok M w' \<and>
        startable info desired dlb (am_acct M w') \<and> (w', w) \<in> progress x M info desired)"

lemma round_with_lb:
  assumes "documented_api M" "attainable M info desired dlb" "steady M ds desired" "am_ok M w"
    and "startable info desired dlb (am_acct M w)" "candidates info (am_acct M w) = [l]"
  shows "round_advances x M info desired dlb ds w"
proof -
  let ?c = "am_client M" and ?A = "am_acct M w"
  obtain w1 where w1: "ds w = (Ok (Some desired), w1)" "quiet M w w1" using assms(3,4) unfolding steady_def by blast
  note q1 = quietD [OF w1(2)]
  obtain lb s w2 where w2: "actualLbState ?c info w1 = (Ok s, w2)" "quiet M w1 w2" and lb: "no_status lb = l" "settled_status M w1 lb"
    and view: "shows_account ?A lb s"
    using actualLbState_reads(2) [OF assms(1) _ attainableD(3) [OF assms(2)], of w1 l] assms(6) q1 by auto
  note q2 = quietD [OF w2(2)]
  have acct: "am_acct M w2 = ?A" and ok: "am_ok M w2" using q1 q2 by simp_all
  have cand: "candidates info ?A = [no_status lb]" using assms(6) lb by simp
  have wf: "wf_account ?A" using api_wf [OF assms(1,4)] by simp
  have fixed: "same_fixed dlb lb" using assms(5) cand by (auto simp: startable_def same_fixed_def)
  let ?ro = "range_orders ?c w2"
  have ro: "valid_site_orders ?ro" by (rule reads_documentedD(3) [OF api_reads [OF assms(1)] ok])
  obtain acts where plan: "nextLbActions x ?ro (Some desired) (Some s) = Ok acts" "change_actions x ?ro dlb lb desired s = Ok acts"
    using plan_exists [OF assms(2) wf view fixed ro] by blast
  have read: "read_actual ?c info w1 = (Ok (Some s), w2)" using w2(1) by (simp add: bind_io_apply)
  note on = round_goes_on [where ds = ds and w = w, OF assms(1) w1(1) read plan(1)]
  consider (changing) "lb_Status lb = ''changing''" | (unequal) "lb_Status lb \<noteq> ''changing''" "\<not> same_structure x desired s"
    | (settled) "lb_Status lb \<noteq> ''changing''" "same_structure x desired s" by blast
  then show ?thesis
  proof cases
    case changing
    have "\<exists>rest. acts = AwaitLbAction lb # rest" using ro plan(2) by (rule change_actions_cases) auto
    then have "runActions x ?c acts w2 = (Ok True, w2)" using runActions_changing [OF assms(1) ok changing] by blast
    from on [OF this ok] obtain w' where w': "reconcile_round x ?c ds (read_actual ?c info) w = (None, w')" "quiet M w2 w'"
      "am_pending M w' \<le> am_pending M w2 - 1" by blast
    note q = quietD [OF w'(2)]
    have "0 < am_pending M w1" using lb(2) changing by (simp add: settled_status_def)
    then have "am_pending M w' < am_pending M w" using w'(3) q1 q2 by linarith
    then have "(w', w) \<in> progress x M info desired" using q acct by (intro progress_same_account) simp_all
    with w'(1) q acct assms(5) show ?thesis unfolding round_advances_def by auto
  next
    case unequal
    obtain part where part: "acts = AwaitLbAction lb # rename_part dlb lb @ part @ [RefetchAction]"
      "\<And>B. wf_account B \<Longrightarrow> renamed info dlb lb ?A B \<Longrightarrow> wp M part (\<lambda>C. acc_lbs C = acc_lbs B \<and> acc_fips C = acc_fips B \<and>
       (pools_gap desired (lb_UUID lb) C < pools_gap desired (lb_UUID lb) ?A \<or>
        pools_gap desired (lb_UUID lb) C = pools_gap desired (lb_UUID lb) ?A \<and>
        content_gap x desired (lb_UUID lb) C < content_gap x desired (lb_UUID lb) ?A)) B"
      using structural_round [OF assms(1,2) wf view ro plan(2) unequal(2)] by blast
    obtain w3 where w3: "runActions x ?c acts w2 = (Ok True, w3)" "am_ok M w3" "startable info desired dlb (am_acct M w3)"
      "candidates info (am_acct M w3) = [no_status (lb\<lparr>lb_Name := lb_Name dlb\<rparr>)]"
      "pools_gap desired (lb_UUID lb) (am_acct M w3) < pools_gap desired (lb_UUID lb) ?A \<or>
        pools_gap desired (lb_UUID lb) (am_acct M w3) = pools_gap desired (lb_UUID lb) ?A \<and>
        content_gap x desired (lb_UUID lb) (am_acct M w3) < content_gap x desired (lb_UUID lb) ?A"
      using run_structural_plan [OF assms(1,2) ok acct assms(5) cand unequal(1) part(2), of x] unfolding part(1) by blast
    from on [OF w3(1,2)] obtain w' where w': "reconcile_round x ?c ds (read_actual ?c info) w = (None, w')" "quiet M w3 w'" by blast
    note q = quietD [OF w'(2)]
    have "(w', w) \<in> progress x M info desired" using w3(4,5) cand q by (auto simp: progress_def missing_lb_def)
    with w'(1) q w3(3) show ?thesis unfolding round_advances_def by auto
  next
    case settled
    have "acts = AwaitLbAction lb # rename_part dlb lb @ concat (map (update_pool x desired s) (st_pools desired)) @
        assign_floating ?ro lb desired s" using ro plan(2) by (rule change_actions_cases) (use settled(2) in auto)
    then obtain w3 B where w3: "runActions x ?c acts w2 = (Ok False, w3)" "am_ok M w3" "renamed info dlb lb ?A B"
      "wf_account B" "am_acct M w3 = settled_account x ?ro desired s (lb_UUID lb) B"
      using run_settled_plan [OF assms(1,2) ok acct view assms(5) cand settled(1) ro settled(2), of x] by blast
    have "reconciled x info desired dlb (am_acct M w3)"
      unfolding reconciled_def
    proof (intro exI conjI)
      show "am_acct M w3 = settled_account x ?ro desired s (lb_UUID lb) B" by (rule w3(5))
      show "shows_account B lb s" using renamed_gaps(1) [OF w3(3)] view by simp
      show "candidates info (am_acct M w3) = [no_status (lb\<lparr>lb_Name := lb_Name dlb\<rparr>)]"
        using candidates_cong [of "am_acct M w3" B info] w3(3,5) settled_account_frame(1) by (simp add: renamed_def)
      show "startable info desired dlb B" by (rule renamed_startable [OF w3(3) assms(5) cand])
    qed (use fixed ro settled(2) w3(4) in simp_all)
    moreover have "reconcile_round x ?c ds (read_actual ?c info) w = (Some (Ok ()), w3)"
      using reconcile_round_run [where ds = ds and as = "read_actual ?c info", OF w1(1) read plan(1) w3(1)] by simp
    ultimately show ?thesis using w3(2) unfolding round_advances_def by blast
  qed
qed

section \<open>The loop\<close>

lemma wf_progress: "wf (progress x M info desired)"
  by (simp add: progress_def)

text \<open>With enough fuel the loop ends in a reconciled account.\<close>

lemma reconcile_reaches:
  assumes "documented_api M" "attainable M info desired dlb" "steady M ds desired" "am_ok M w" "startable info desired dlb (am_acct M w)"
  shows "\<exists>n w'. am_ok M w' \<and> reconciled x info desired dlb (am_acct M w') \<and>
    (\<forall>fuel \<ge> n. reconcileLbState x (am_client M) ds (read_actual (am_client M) info) fuel w = Some (Ok (), w'))"
  using assms(4,5)
proof (induction w rule: wf_induct_rule [OF wf_progress [of x M info desired]])
  case (1 w)
  let ?round = "reconcile_round x (am_client M) ds (read_actual (am_client M) info) w"
  have "round_advances x M info desired dlb ds w"
  proof (cases "candidates info (am_acct M w) = []")
    case True
    then show ?thesis using round_without_lb [OF assms(1-3) 1(2,3)] unfolding round_advances_def by blast
  next
    case False
    then obtain l where "candidates info (am_acct M w) = [l]" using 1(3) unfolding startable_def by blast
    then show ?thesis by (rule round_with_lb [OF assms(1-3) 1(2,3)])
  qed
  then consider (last) w' where "?round = (Some (Ok ()), w')" "am_ok M w'" "reconciled x info desired dlb (am_acct M w')"
    | (more) w' where "?round = (None, w')" "am_ok M w'" "startable info desired dlb (am_acct M w')" "(w', w) \<in> progress x M info desired"
    unfolding round_advances_def by blast
  then show ?case
  proof cases
    case last
    have "reconcileLbState x (am_client M) ds (read_actual (am_client M) info) fuel w = Some (Ok (), w')" if "1 \<le> fuel" for fuel
      using that last(1) by (cases fuel) simp_all
    with last show ?thesis by blast
  next
    case more
    obtain n w'' where IH: "am_ok M w''" "reconciled x info desired dlb (am_acct M w'')"
      "\<And>fuel. n \<le> fuel \<Longrightarrow> reconcileLbState x (am_client M) ds (read_actual (am_client M) info) fuel w' = Some (Ok (), w'')"
      using 1(1) [OF more(4,2,3)] by blast
    have "reconcileLbState x (am_client M) ds (read_actual (am_client M) info) fuel w = Some (Ok (), w'')" if "Suc n \<le> fuel" for fuel
      using that more(1) IH(3) by (cases fuel) simp_all
    with IH show ?thesis by blast
  qed
qed

text \<open>What the controller reads of a reconciled account.\<close>

lemma floating_reached:
  assumes "valid_site_orders ro" "shows_account B lb s" "startable info desired dlb B"
    and "shows_account (settled_account x ro desired s (lb_UUID lb) B) lb' s'" "lb_UUID lb' = lb_UUID lb"
  shows "set (st_floatingIPs desired) \<subseteq> set (st_floatingIPs s')"
proof
  fix ip assume ip: "ip \<in> set (st_floatingIPs desired)"
  obtain un new where diff: "Diff (ro FloatingSite) (st_floatingIPs desired) (st_floatingIPs s) (\<lambda>ip. ip) = (un, new)" by fastforce
  let ?g = "\<lambda>f. if fip_address f \<in> ip_address ` set new then f\<lparr>fip_LoadBalancerUUID := Some (lb_UUID lb)\<rparr> else f"
  have now: "st_floatingIPs s' = map fip_Network [f \<leftarrow> map ?g (acc_fips B). fip_LoadBalancerUUID f = Some (lb_UUID lb)]"
    using assms(4,5) by (simp add: shows_account_def settled_account_def diff assigned_def)
  have "\<exists>f \<in> set (acc_fips B). fip_Network f = ip \<and> fip_LoadBalancerUUID (?g f) = Some (lb_UUID lb)"
  proof (cases "ip \<in> set (st_floatingIPs s)")
    case True
    then show ?thesis using assms(2) by (auto simp: shows_account_def)
  next
    case False
    have "set new = set (st_floatingIPs desired) - set (st_floatingIPs s)"
      using go_diff.create_keys [OF valid_site_ordersD [OF assms(1)] diff] by simp
    then have "ip \<in> set new" using ip False by simp
    moreover have "ip \<in> fip_Network ` set (acc_fips B)" using assms(3) ip by (simp add: startable_def)
    then obtain f where f: "f \<in> set (acc_fips B)" "ip = fip_Network f" by (rule imageE) blast
    ultimately have "fip_address f \<in> ip_address ` set new" by (simp add: fip_address_def)
    then have "fip_LoadBalancerUUID (?g f) = Some (lb_UUID lb)" by simp
    with f show ?thesis by blast
  qed
  then obtain f where f: "f \<in> set (acc_fips B)" "fip_Network f = ip" "fip_LoadBalancerUUID (?g f) = Some (lb_UUID lb)" by blast
  then have "?g f \<in> set [f \<leftarrow> map ?g (acc_fips B). fip_LoadBalancerUUID f = Some (lb_UUID lb)]" by (simp only: set_filter list.set_map) blast
  moreover have "fip_Network (?g f) = ip" using f(2) by simp
  ultimately show "ip \<in> set (st_floatingIPs s')" unfolding now list.set_map by blast
qed

lemma reads_reconciled:
  assumes "documented_api M" "attainable M info desired dlb" "definite x desired" "am_ok M w" "reconciled x info desired dlb (am_acct M w)"
  shows "\<exists>s lb w'. actualLbState (am_client M) info w = (Ok s, w') \<and> st_lb s = Some lb \<and> lb_Name lb = lb_Name dlb \<and> same_fixed dlb lb \<and>
    same_structure x desired s \<and> settings_reached x desired s \<and> set (st_floatingIPs desired) \<subseteq> set (st_floatingIPs s)"
proof -
  obtain lb0 ro s0 B where cand: "candidates info (am_acct M w) = [no_status (lb0\<lparr>lb_Name := lb_Name dlb\<rparr>)]" and fixed: "same_fixed dlb lb0"
    and B: "valid_site_orders ro" "wf_account B" "startable info desired dlb B" "shows_account B lb0 s0" "same_structure x desired s0"
    and A: "am_acct M w = settled_account x ro desired s0 (lb_UUID lb0) B"
    using assms(5) unfolding reconciled_def by blast
  obtain lb s w' where read: "actualLbState (am_client M) info w = (Ok s, w')"
    and lb: "no_status lb = no_status (lb0\<lparr>lb_Name := lb_Name dlb\<rparr>)" and view: "shows_account (am_acct M w) lb s"
    using actualLbState_reads(2) [OF assms(1,4) attainableD(3) [OF assms(2)] cand] by blast
  have sel: "lb_UUID lb = lb_UUID lb0" "lb_Name lb = lb_Name dlb" "same_fixed dlb lb"
  proof -
    show "lb_UUID lb = lb_UUID lb0" "lb_Name lb = lb_Name dlb"
      using arg_cong [OF lb, of lb_UUID] arg_cong [OF lb, of lb_Name] by (simp_all only: no_status_sel) simp_all
    have "lb_FlavorSlug lb = lb_FlavorSlug lb0" "lb_ZoneSlug lb = lb_ZoneSlug lb0" "lb_VIPAddresses lb = lb_VIPAddresses lb0"
      using arg_cong [OF lb, of lb_FlavorSlug] arg_cong [OF lb, of lb_ZoneSlug] arg_cong [OF lb, of lb_VIPAddresses]
      by (simp_all only: no_status_sel) simp_all
    with fixed show "same_fixed dlb lb" by (simp add: same_fixed_def)
  qed
  note pools = attainableD(7) [OF assms(2)]
  have "pools_gap desired (lb_UUID lb) (am_acct M w) = 0 \<and> content_gap x desired (lb_UUID lb) (am_acct M w) = 0"
    using structure_gap_iff [OF B(4,2) pools, of x] B(5) gaps_cong [of "am_acct M w" B x desired] sel(1)
    by (simp add: A settled_account_frame)
  then have "same_structure x desired s" using structure_gap_iff [OF view api_wf [OF assms(1,4)] pools] by simp
  moreover have "settings_reached x desired s"
    by (rule settled_settings [OF B(2,4,5) assms(3) attainableD(6) [OF assms(2)] view [unfolded A] sel(1)])
  moreover have "set (st_floatingIPs desired) \<subseteq> set (st_floatingIPs s)"
    by (rule floating_reached [OF B(1,4,3) view [unfolded A] sel(1)])
  ultimately show ?thesis using read shows_accountD(1) [OF view] sel by blast
qed

section \<open>Deletion\<close>

lemma candidates_deleted: "deleted url A A' \<Longrightarrow> candidates info A' = [l \<leftarrow> candidates info A. lb_HREF l \<noteq> url]"
  by (simp add: candidates_def deleted_def conj_commute)

lemma deletion_round:
  assumes "documented_api M" "annotation info LoadBalancerName \<noteq> []" "am_ok M w" "length (candidates info (am_acct M w)) \<le> 1"
  shows "(\<exists>w'. reconcile_round x (am_client M) (return_io (Some empty_lbState)) (read_actual (am_client M) info) w = (Some (Ok ()), w') \<and>
      am_ok M w' \<and> candidates info (am_acct M w') = []) \<or>
    (\<exists>w'. reconcile_round x (am_client M) (return_io (Some empty_lbState)) (read_actual (am_client M) info) w = (None, w') \<and>
      am_ok M w' \<and> am_acct M w' = am_acct M w \<and> am_pending M w' < am_pending M w)"
proof -
  let ?c = "am_client M" and ?A = "am_acct M w" and ?ds = "return_io (Some empty_lbState)"
  have ds: "?ds w = (Ok (Some empty_lbState), w)" by simp
  consider "candidates info ?A = []" | l where "candidates info ?A = [l]" using assms(4) by (cases "candidates info ?A") auto
  then show ?thesis
  proof cases
    case 1
    obtain w2 where w2: "actualLbState ?c info w = (Ok empty_lbState, w2)" "quiet M w w2"
      using actualLbState_reads(1) [OF assms(1,3,2) 1] by blast
    have "reconcile_round x ?c ?ds (read_actual ?c info) w = (Some (Ok ()), w2)"
      using w2(1) by (simp add: reconcile_round_def bind_io_apply nextLbActions_def empty_lbState_def)
    with 1 quietD [OF w2(2)] show ?thesis by auto
  next
    case (2 l)
    obtain lb s w2 where w2: "actualLbState ?c info w = (Ok s, w2)" "quiet M w w2" and lb: "no_status lb = l" "settled_status M w lb"
      and view: "shows_account ?A lb s" using actualLbState_reads(2) [OF assms(1,3,2) 2] by blast
    note q2 = quietD [OF w2(2)]
    have read: "read_actual ?c info w = (Ok (Some s), w2)" using w2(1) by (simp add: bind_io_apply)
    have plan: "nextLbActions x (range_orders ?c w2) (Some empty_lbState) (Some s) = Ok ([AwaitLbAction lb] @ [DeleteResourceAction (lb_HREF lb)])"
      using shows_accountD(1) [OF view] by (simp add: nextLbActions_def empty_lbState_def)
    show ?thesis
    proof (cases "lb_Status lb = ''changing''")
      case True
      have "runActions x ?c ([AwaitLbAction lb] @ [DeleteResourceAction (lb_HREF lb)]) w2 = (Ok True, w2)"
        using runActions_changing [OF assms(1) _ True] q2 by simp
      from round_goes_on [where ds = ?ds and w = w, OF assms(1) ds read plan this] q2 obtain w' where
        "reconcile_round x ?c ?ds (read_actual ?c info) w = (None, w')" "quiet M w2 w'" "am_pending M w' \<le> am_pending M w2 - 1" by blast
      moreover have "0 < am_pending M w" using lb(2) True by (simp add: settled_status_def)
      ultimately show ?thesis using q2 quietD [of M w2 w'] by (intro disjI2 exI [of _ w']) auto
    next
      case False
      have mem: "no_status lb \<in> set (acc_lbs ?A)" using 2 lb(1) by (metis candidates_def filter_is_subset list.set_intros(1) subsetD)
      then have "lb_HREF (no_status lb) \<in> set (hrefs ?A Balancers)" unfolding hrefs.simps list.set_map by (rule imageI)
      then have "has_href ?A (lb_HREF lb)" unfolding has_href_def by (metis live.simps(1) no_status_sel(2))
      then have "wp M [DeleteResourceAction (lb_HREF lb)] (\<lambda>B. candidates info B = []) ?A"
        by (rule wp_delete_one [OF assms(1)]) (simp add: candidates_deleted 2 flip: lb(1))
      then have "wp M ([AwaitLbAction lb] @ [DeleteResourceAction (lb_HREF lb)]) (\<lambda>B. candidates info B = []) ?A"
        by (rule wp_append [OF wp_await [OF assms(1) False]])
      then obtain w3 where w3: "runActions x ?c ([AwaitLbAction lb] @ [DeleteResourceAction (lb_HREF lb)]) w2 = (Ok False, w3)"
        "am_ok M w3" "candidates info (am_acct M w3) = []" using wp_run [of M _ _ ?A w2 x] q2 by blast
      have "reconcile_round x ?c ?ds (read_actual ?c info) w = (Some (Ok ()), w3)"
        using reconcile_round_run [where ds = ?ds and as = "read_actual ?c info", OF ds read plan w3(1)] by simp
      with w3 show ?thesis by blast
    qed
  qed
qed

lemma deletion_reaches:
  assumes "documented_api M" "annotation info LoadBalancerName \<noteq> []" "am_ok M w" "length (candidates info (am_acct M w)) \<le> 1"
  shows "\<exists>w'. candidates info (am_acct M w') = [] \<and> (\<forall>fuel > am_pending M w.
    reconcileLbState x (am_client M) (return_io (Some empty_lbState)) (read_actual (am_client M) info) fuel w = Some (Ok (), w'))"
  using assms(3,4)
proof (induction "am_pending M w" arbitrary: w rule: less_induct)
  case less
  let ?loop = "reconcileLbState x (am_client M) (return_io (Some empty_lbState)) (read_actual (am_client M) info)"
  let ?round = "reconcile_round x (am_client M) (return_io (Some empty_lbState)) (read_actual (am_client M) info) w"
  from deletion_round [OF assms(1,2) less.prems, of x] consider
      (last) w' where "?round = (Some (Ok ()), w')" "candidates info (am_acct M w') = []"
    | (more) w' where "?round = (None, w')" "am_ok M w'" "am_acct M w' = am_acct M w" "am_pending M w' < am_pending M w" by blast
  then show ?case
  proof cases
    case last
    have "?loop fuel w = Some (Ok (), w')" if "am_pending M w < fuel" for fuel using that last(1) by (cases fuel) simp_all
    with last(2) show ?thesis by blast
  next
    case more
    obtain w'' where IH: "candidates info (am_acct M w'') = []" "\<And>fuel. am_pending M w' < fuel \<Longrightarrow> ?loop fuel w' = Some (Ok (), w'')"
      using less.hyps [OF more(4,2)] less.prems(2) more(3) by auto
    have "?loop fuel w = Some (Ok (), w'')" if "am_pending M w < fuel" for fuel
      using that more(1,4) IH(2) by (cases fuel) simp_all
    with IH(1) show ?thesis by blast
  qed
qed

end
