(* ===== verification/Simulated_Cloud.thy ===== *)
theory Simulated_Cloud
  imports Account
begin

text \<open>
  A small cloud that behaves as \<open>documented_api\<close> says. It shows that the conditions on the API can be
  met together, and gives the theorems about whole reconciliations something to run on. The world is an
  account and the number of pauses until no load balancer is changing. New resources get an identifier
  that is longer than all others.
\<close>

record cloud_world =
  cw_acct :: account
  cw_pending :: nat

section \<open>Identifiers\<close>

definition names :: "account \<Rightarrow> string list" where
  "names A = map lb_UUID (acc_lbs A) @ map lb_HREF (acc_lbs A) @ map pool_UUID (acc_pools A) @ map pool_HREF (acc_pools A) @
     concat (map (\<lambda>p. map mem_HREF (acc_members A (pool_UUID p))) (acc_pools A)) @
     map lis_UUID (acc_listeners A) @ map lis_HREF (acc_listeners A) @ map mon_UUID (acc_monitors A) @ map mon_HREF (acc_monitors A)"

definition fresh :: "account \<Rightarrow> string" where
  "fresh A = replicate (Suc (sum_list (map length (names A)))) (CHR ''x'')"

lemma fresh_names: "fresh A \<notin> set (names A)"
proof
  assume "fresh A \<in> set (names A)"
  then have "length (fresh A) \<le> sum_list (map length (names A))" by (simp add: member_le_sum_list)
  then show False by (simp add: fresh_def)
qed

lemma fresh_ids:
  "fresh A \<notin> lb_UUID ` set (acc_lbs A)" "fresh A \<notin> pool_UUID ` set (acc_pools A)"
  "fresh A \<notin> lis_UUID ` set (acc_listeners A)" "fresh A \<notin> mon_UUID ` set (acc_monitors A)"
  using fresh_names [of A] by (auto simp: names_def)

lemma hrefs_names: "live A pl \<Longrightarrow> set (hrefs A pl) \<subseteq> set (names A)"
  by (cases pl) (auto simp: names_def listeners_of_def monitors_of_def)

lemma fresh_href: "live A pl \<Longrightarrow> fresh A \<notin> set (hrefs A pl)"
  using hrefs_names fresh_names by blast

section \<open>The calls\<close>

definition new_lb :: "LoadBalancerRequest \<Rightarrow> string \<Rightarrow> LoadBalancer" where
  "new_lb r u = \<lparr>lb_UUID = u, lb_HREF = u, lb_Name = lbreq_Name r, lb_Status = [], lb_FlavorSlug = lbreq_Flavor r,
     lb_ZoneSlug = lbreq_Zone r, lb_VIPAddresses = map (\<lambda>v. \<lparr>vip_Address = vipreq_Address v,
       vip_Subnet = \<lparr>subnet_UUID = vipreq_Subnet v, subnet_rest = []\<rparr>\<rparr>) (case lbreq_VIPAddresses r of Some vs \<Rightarrow> vs | None \<Rightarrow> [])\<rparr>"

definition new_pool :: "PoolRequest \<Rightarrow> string \<Rightarrow> LoadBalancerPool" where
  "new_pool r u = \<lparr>pool_UUID = u, pool_HREF = u, pool_Name = poolreq_Name r, pool_Algorithm = poolreq_Algorithm r,
     pool_Protocol = poolreq_Protocol r, pool_LoadBalancerUUID = poolreq_LoadBalancer r\<rparr>"

definition sim_net :: "string \<Rightarrow> SubnetStub" where
  "sim_net u = \<lparr>subnet_UUID = u, subnet_rest = []\<rparr>"

definition new_member :: "MemberRequest \<Rightarrow> string \<Rightarrow> LoadBalancerPoolMember" where
  "new_member r u = \<lparr>mem_HREF = u, mem_Name = memreq_Name r, mem_Enabled = True, mem_Address = memreq_Address r,
     mem_Subnet = sim_net (memreq_Subnet r), mem_ProtocolPort = memreq_ProtocolPort r, mem_MonitorPort = memreq_MonitorPort r\<rparr>"

definition new_listener :: "ListenerRequest \<Rightarrow> string \<Rightarrow> LoadBalancerListener" where
  "new_listener r u = set_listener r (zero_Listener\<lparr>lis_UUID := u, lis_HREF := u, lis_PoolUUID := Some (lisreq_Pool r)\<rparr>)"

definition new_monitor :: "MonitorRequest \<Rightarrow> string \<Rightarrow> LoadBalancerHealthMonitor" where
  "new_monitor r u = set_monitor r (zero_Monitor\<lparr>mon_UUID := u, mon_HREF := u, mon_PoolUUID := monreq_Pool r,
     mon_HTTP := map_option (\<lambda>_. zero_MonitorHTTP\<lparr>http_Version := ''1.1''\<rparr>) (monreq_HTTP r)\<rparr>)"

text \<open>
  A deletion takes the contents of a deleted pool with it, and that of a load balancer its pools and
  the assignment of its floating IPs.
\<close>

definition delete_resource :: "string \<Rightarrow> account \<Rightarrow> account" where
  "delete_resource url A =
     (let pools = [p \<leftarrow> acc_pools A. pool_LoadBalancerUUID p \<notin> gone url A \<and> pool_HREF p \<noteq> url] in
      A\<lparr>acc_lbs := [l \<leftarrow> acc_lbs A. lb_HREF l \<noteq> url], acc_pools := pools,
        acc_members := (\<lambda>u. if u \<in> set (map pool_UUID pools) then [m \<leftarrow> acc_members A u. mem_HREF m \<noteq> url] else []),
        acc_listeners := [l \<leftarrow> acc_listeners A. lis_HREF l \<noteq> url \<and> lis_PoolUUID l \<in> Some ` set (map pool_UUID pools)],
        acc_monitors := [m \<leftarrow> acc_monitors A. mon_HREF m \<noteq> url \<and> mon_PoolUUID m \<in> set (map pool_UUID pools)],
        acc_fips := map (\<lambda>f. if fip_LoadBalancerUUID f \<in> Some ` gone url A then f\<lparr>fip_LoadBalancerUUID := None\<rparr> else f) (acc_fips A)\<rparr>)"

abbreviation writes :: "(account \<Rightarrow> account) \<Rightarrow> cloud_world \<Rightarrow> error option \<times> cloud_world" where
  "writes f w \<equiv> (None, w\<lparr>cw_acct := f (cw_acct w)\<rparr>)"

text \<open>A request about a resource that does not exist, or one that is not acceptable, changes nothing.\<close>

abbreviation writes_if :: "bool \<Rightarrow> (account \<Rightarrow> account) \<Rightarrow> cloud_world \<Rightarrow> error option \<times> cloud_world" where
  "writes_if ok f w \<equiv> (if ok then writes f w else (Some (ErrorResponse 404), w))"

fun sim_accepts :: "api_request \<Rightarrow> bool" where
  "sim_accepts (ReqPool r) = (poolreq_Algorithm r \<in> set pool_algorithms \<and> poolreq_Protocol r \<in> set pool_protocols)"
| "sim_accepts _ = True"

definition with_status :: "nat \<Rightarrow> LoadBalancer \<Rightarrow> LoadBalancer" where
  "with_status n l = l\<lparr>lb_Status := (if n > 0 then ''changing'' else ''running'')\<rparr>"

definition sim_client :: "cloud_world client" where
  "sim_client = idle_client\<lparr>
     LoadBalancers_Create := (\<lambda>r w. (None, \<lparr>cw_acct = (cw_acct w)\<lparr>acc_lbs := acc_lbs (cw_acct w) @ [new_lb r (fresh (cw_acct w))]\<rparr>,
       cw_pending = 2\<rparr>)),
     LoadBalancers_Update := (\<lambda>u r. writes (\<lambda>A. A\<lparr>acc_lbs := map (\<lambda>l. if lb_UUID l = u then l\<lparr>lb_Name := lbreq_Name r\<rparr> else l) (acc_lbs A)\<rparr>)),
     LoadBalancers_Get := (\<lambda>u w. (case find (\<lambda>l. lb_UUID l = u) (acc_lbs (cw_acct w)) of
       Some l \<Rightarrow> Inr (with_status (cw_pending w) l) | None \<Rightarrow> Inl (ErrorResponse 404), w)),
     LoadBalancers_List := (\<lambda>w. (Inr (map (with_status (cw_pending w)) (acc_lbs (cw_acct w))), w)),
     Pools_Create := (\<lambda>r w. writes_if (sim_accepts (ReqPool r) \<and> poolreq_LoadBalancer r \<in> lb_UUIDs (cw_acct w)) (\<lambda>A. A\<lparr>acc_pools := acc_pools A @ [new_pool r (fresh A)]\<rparr>) w),
     Pools_List := (\<lambda>w. (Inr (acc_pools (cw_acct w)), w)),
     Members_Create := (\<lambda>u r w. writes_if (u \<in> pool_UUIDs (cw_acct w)) (\<lambda>A. A\<lparr>acc_members := (acc_members A)(u := acc_members A u @ [new_member r (fresh A)])\<rparr>) w),
     Members_List := (\<lambda>u w. (Inr (acc_members (cw_acct w) u), w)),
     Listeners_Create := (\<lambda>r w. writes_if (lisreq_Pool r \<in> pool_UUIDs (cw_acct w)) (\<lambda>A. A\<lparr>acc_listeners := acc_listeners A @ [new_listener r (fresh A)]\<rparr>) w),
     Listeners_Update := (\<lambda>u r. writes (\<lambda>A. A\<lparr>acc_listeners := map (\<lambda>l. if lis_UUID l = u then set_listener r l else l) (acc_listeners A)\<rparr>)),
     Listeners_List := (\<lambda>w. (Inr (acc_listeners (cw_acct w)), w)),
     Monitors_Create := (\<lambda>r w. writes_if (monreq_Pool r \<in> pool_UUIDs (cw_acct w)) (\<lambda>A. A\<lparr>acc_monitors := acc_monitors A @ [new_monitor r (fresh A)]\<rparr>) w),
     Monitors_Update := (\<lambda>u r. writes (\<lambda>A. A\<lparr>acc_monitors := map (\<lambda>m. if mon_UUID m = u then set_monitor r m else m) (acc_monitors A)\<rparr>)),
     Monitors_List := (\<lambda>w. (Inr (acc_monitors (cw_acct w)), w)),
     FloatingIPs_Update := (\<lambda>addr u. writes (\<lambda>A. A\<lparr>acc_fips := map (\<lambda>f. if fip_address f = addr then f\<lparr>fip_LoadBalancerUUID := Some u\<rparr> else f) (acc_fips A)\<rparr>)),
     FloatingIPs_List := (\<lambda>w. (Inr (acc_fips (cw_acct w)), w)),
     Servers_List := (\<lambda>w. (Inr [sample_server], w)),
     client_Do := (\<lambda>req. writes (delete_resource (req_URL req))),
     wait_or_done := (\<lambda>d w. (False, w\<lparr>cw_pending := cw_pending w - 1\<rparr>))\<rparr>"

text \<open>
  The worlds of the cloud: the account is well formed, nothing is left of pools that are gone, and
  resources are kept without status and addresses.
\<close>

definition sound :: "account \<Rightarrow> bool" where
  "sound A \<longleftrightarrow> wf_account A \<and> (\<forall>u. u \<notin> pool_UUIDs A \<longrightarrow> acc_members A u = []) \<and>
     (\<forall>l \<in> set (acc_listeners A). lis_PoolUUID l \<in> Some ` pool_UUIDs A) \<and> (\<forall>m \<in> set (acc_monitors A). mon_PoolUUID m \<in> pool_UUIDs A) \<and>
     map no_status (acc_lbs A) = acc_lbs A \<and> map no_address (acc_monitors A) = acc_monitors A"

definition sim_model :: "cloud_world api_model" where
  "sim_model = \<lparr>am_client = sim_client, am_ok = (\<lambda>w. sound (cw_acct w)), am_acct = cw_acct, am_pending = cw_pending,
     am_net = sim_net, am_accepts = sim_accepts\<rparr>"

lemma sim_model_sel [simp]:
  "am_client sim_model = sim_client" "am_ok sim_model w = sound (cw_acct w)" "am_acct sim_model = cw_acct"
  "am_pending sim_model = cw_pending" "am_net sim_model = sim_net" "am_accepts sim_model = sim_accepts"
  by (simp_all add: sim_model_def)

section \<open>Reading\<close>

lemma with_status_sel [simp]: "lb_UUID (with_status n l) = lb_UUID l" "no_status (with_status n l) = no_status l"
  by (simp_all add: with_status_def no_status_def)

lemma sim_rest [simp]:
  "ctx_Err sim_client w = None" "range_orders sim_client w = (\<lambda>s. (id, id))" "rand_Intn sim_client n w = (0, w)"
  "client_NewRequest sim_client m u = Inr \<lparr>req_Method = m, req_URL = u\<rparr>"
  by (simp_all add: sim_client_def idle_client_def)

lemma quiet_same [simp]: "quiet sim_model w w = sound (cw_acct w)"
  by (simp add: quiet_def)

lemma sim_get:
  assumes "sound (cw_acct w)"
  shows "u \<in> lb_UUIDs (cw_acct w) \<Longrightarrow> reports sim_model (LoadBalancers_Get sim_client u) w
       (\<lambda>l. lb_UUID l = u \<and> no_status l \<in> set (acc_lbs (cw_acct w)) \<and> settled_status sim_model w l)"
    and "u \<notin> lb_UUIDs (cw_acct w) \<Longrightarrow> LoadBalancers_Get sim_client u w = (Inl (ErrorResponse 404), w)"
proof -
  let ?ls = "acc_lbs (cw_acct w)"
  have call: "LoadBalancers_Get sim_client u w = (case find (\<lambda>l. lb_UUID l = u) ?ls of
      Some l \<Rightarrow> Inr (with_status (cw_pending w) l) | None \<Rightarrow> Inl (ErrorResponse 404), w)"
    by (simp add: sim_client_def)
  show "LoadBalancers_Get sim_client u w = (Inl (ErrorResponse 404), w)" if "u \<notin> lb_UUIDs (cw_acct w)"
  proof -
    have "find (\<lambda>l. lb_UUID l = u) ?ls = None" using that by (auto simp: find_None_iff)
    then show ?thesis by (simp add: call)
  qed
  show "reports sim_model (LoadBalancers_Get sim_client u) w
       (\<lambda>l. lb_UUID l = u \<and> no_status l \<in> set (acc_lbs (cw_acct w)) \<and> settled_status sim_model w l)" if "u \<in> lb_UUIDs (cw_acct w)"
  proof -
    have "find (\<lambda>l. lb_UUID l = u) ?ls \<noteq> None" unfolding find_None_iff using that by blast
    then obtain l where l: "find (\<lambda>l. lb_UUID l = u) ?ls = Some l" by blast
    then have mem: "l \<in> set ?ls" "lb_UUID l = u" by (auto simp: find_Some_iff)
    have "no_status l \<in> set (map no_status ?ls)" using mem(1) by simp
    then have "no_status l \<in> set ?ls" using assms unfolding sound_def by metis
    then show ?thesis using l mem assms
      by (simp add: reports_def call settled_status_def) (simp add: with_status_def)
  qed
qed

lemma sim_reads: "reads_documented sim_model"
  unfolding reads_documented_def
proof (intro allI impI conjI ballI)
  fix w assume "am_ok sim_model w"
  then have ok: "sound (cw_acct w)" by simp
  show "wf_account (am_acct sim_model w)" using ok by (simp add: sound_def)
  show "valid_site_orders (range_orders (am_client sim_model) w)"
    by (simp add: valid_site_orders_def valid_orders_def range_order_def)
  show "reports sim_model (LoadBalancers_List (am_client sim_model)) w
      (\<lambda>ls. map no_status ls = acc_lbs (am_acct sim_model w) \<and> list_all (settled_status sim_model w) ls)"
  proof -
    have "map no_status (map (with_status (cw_pending w)) (acc_lbs (cw_acct w))) = acc_lbs (cw_acct w)"
      using ok by (simp add: comp_def sound_def)
    moreover have "list_all (settled_status sim_model w) (map (with_status (cw_pending w)) (acc_lbs (cw_acct w)))"
      by (simp add: list_all_iff settled_status_def) (simp add: with_status_def)
    ultimately show ?thesis using ok by (simp add: reports_def sim_client_def del: map_map)
  qed
  fix u
  show "u \<in> lb_UUIDs (am_acct sim_model w) \<Longrightarrow> reports sim_model (LoadBalancers_Get (am_client sim_model) u) w
      (\<lambda>l. lb_UUID l = u \<and> no_status l \<in> set (acc_lbs (am_acct sim_model w)) \<and> settled_status sim_model w l)"
    using sim_get(1) [OF ok] by simp
  show "u \<notin> lb_UUIDs (am_acct sim_model w) \<Longrightarrow>
      \<exists>w'. LoadBalancers_Get (am_client sim_model) u w = (Inl (ErrorResponse 404), w') \<and> quiet sim_model w w'"
    using sim_get(2) [OF ok] ok by simp
  show "reports sim_model (Monitors_List (am_client sim_model)) w (\<lambda>ms. map no_address ms = acc_monitors (am_acct sim_model w))"
    using ok by (simp add: reports_def sim_client_def sound_def)
qed (simp_all add: reports_def sim_client_def idle_client_def)

lemma sim_waits: "waits_documented sim_model"
  by (auto simp: waits_documented_def quiet_def) (auto simp: sim_client_def)

section \<open>Writing\<close>

text \<open>The addresses after a call: some are gone, and at most one new one is added in one place.\<close>

lemma wf_hrefs_step:
  assumes "wf_account A" "h \<notin> set (names A)"
    and "\<And>pl. live A' pl \<Longrightarrow> live A pl \<and> hrefs A' pl = filter P (hrefs A pl) @ (if pl = here then [h] else []) \<or> hrefs A' pl = []"
  shows "(\<forall>pl. live A' pl \<longrightarrow> distinct (hrefs A' pl)) \<and>
    (\<forall>pl pl'. live A' pl \<and> live A' pl' \<and> pl \<noteq> pl' \<longrightarrow> set (hrefs A' pl) \<inter> set (hrefs A' pl') = {})"
proof (intro conjI allI impI)
  have no: "h \<notin> set (hrefs A pl)" if "live A pl" for pl using hrefs_names [OF that] assms(2) by blast
  fix pl assume pl: "live A' pl"
  from assms(3) [OF pl] show "distinct (hrefs A' pl)"
    using wf_hrefs(1) [OF assms(1), of pl] no [of pl] by auto
next
  have no: "h \<notin> set (hrefs A pl)" if "live A pl" for pl using hrefs_names [OF that] assms(2) by blast
  fix pl pl' assume pl: "live A' pl \<and> live A' pl' \<and> pl \<noteq> pl'"
  then show "set (hrefs A' pl) \<inter> set (hrefs A' pl') = {}"
    using assms(3) [of pl] assms(3) [of pl'] wf_hrefs(2) [OF assms(1), of pl pl'] no [of pl] no [of pl'] by auto
qed

lemma sound_step:
  assumes "sound A" "h \<notin> set (names A)"
    and "\<And>pl. live A' pl \<Longrightarrow> live A pl \<and> hrefs A' pl = filter P (hrefs A pl) @ (if pl = here then [h] else []) \<or> hrefs A' pl = []"
    and "distinct (map lb_UUID (acc_lbs A'))" "distinct (map pool_UUID (acc_pools A'))" "distinct (map lis_UUID (acc_listeners A'))"
    and "distinct (map mon_UUID (acc_monitors A'))" "list_all api_pool (acc_pools A')"
    and "\<And>u. u \<notin> pool_UUIDs A' \<Longrightarrow> acc_members A' u = []"
    and "\<And>l. l \<in> set (acc_listeners A') \<Longrightarrow> lis_PoolUUID l \<in> Some ` pool_UUIDs A'"
    and "\<And>m. m \<in> set (acc_monitors A') \<Longrightarrow> mon_PoolUUID m \<in> pool_UUIDs A'"
    and "map no_status (acc_lbs A') = acc_lbs A'" "map no_address (acc_monitors A') = acc_monitors A'"
  shows "sound A'"
proof -
  have "wf_account A" using assms(1) by (simp add: sound_def)
  from wf_hrefs_step [OF this assms(2,3)] show ?thesis
    using assms(4-13) unfolding sound_def wf_account_def by blast
qed

lemma soundD:
  assumes "sound A"
  shows "wf_account A" "\<And>u. u \<notin> pool_UUIDs A \<Longrightarrow> acc_members A u = []"
    "\<And>l. l \<in> set (acc_listeners A) \<Longrightarrow> lis_PoolUUID l \<in> Some ` pool_UUIDs A"
    "\<And>m. m \<in> set (acc_monitors A) \<Longrightarrow> mon_PoolUUID m \<in> pool_UUIDs A"
    "map no_status (acc_lbs A) = acc_lbs A" "map no_address (acc_monitors A) = acc_monitors A"
    "distinct (map lb_UUID (acc_lbs A))" "distinct (map pool_UUID (acc_pools A))" "distinct (map lis_UUID (acc_listeners A))"
    "distinct (map mon_UUID (acc_monitors A))" "list_all api_pool (acc_pools A)"
  using assms by (auto simp: sound_def wf_account_def)

lemma added_end [simp]: "added i xs (xs @ [i])"
  by (simp add: added_def)

lemma sound_lb_created:
  assumes "sound A"
  shows "sound (A\<lparr>acc_lbs := acc_lbs A @ [new_lb r (fresh A)]\<rparr>)" (is "sound ?A'")
proof (rule sound_step [where here = Balancers and P = "\<lambda>_. True", OF assms fresh_names])
  fix pl assume "live ?A' pl"
  then show "live A pl \<and> hrefs ?A' pl = filter (\<lambda>_. True) (hrefs A pl) @ (if pl = Balancers then [fresh A] else []) \<or> hrefs ?A' pl = []"
    by (cases pl) (simp_all add: new_lb_def listeners_of_def monitors_of_def)
qed (use soundD [OF assms] fresh_ids(1) [of A] in \<open>simp_all add: new_lb_def no_status_def\<close>)

lemma sound_pool_created:
  assumes "sound A" "sim_accepts (ReqPool r)"
  shows "sound (A\<lparr>acc_pools := acc_pools A @ [new_pool r (fresh A)]\<rparr>)" (is "sound ?A'")
proof (rule sound_step [where here = "Pools (poolreq_LoadBalancer r)" and P = "\<lambda>_. True", OF assms(1) fresh_names])
  fix pl assume live: "live ?A' pl"
  have new: "acc_members A (fresh A) = []" "listeners_of A (fresh A) = []" "monitors_of A (fresh A) = []"
    using soundD(2-4) [OF assms(1)] fresh_ids(2) [of A] by (force simp: listeners_of_def monitors_of_def filter_empty_conv)+
  show "live A pl \<and> hrefs ?A' pl = filter (\<lambda>_. True) (hrefs A pl) @ (if pl = Pools (poolreq_LoadBalancer r) then [fresh A] else []) \<or>
      hrefs ?A' pl = []"
    using live new by (cases pl) (auto simp: new_pool_def listeners_of_def monitors_of_def)
qed (use soundD [OF assms(1)] assms(2) fresh_ids(2) [of A] in \<open>auto simp: new_pool_def api_pool_def\<close>)

lemma sound_member_created:
  assumes "sound A" "u \<in> pool_UUIDs A"
  shows "sound (A\<lparr>acc_members := (acc_members A)(u := acc_members A u @ [new_member r (fresh A)])\<rparr>)" (is "sound ?A'")
proof (rule sound_step [where here = "Members u" and P = "\<lambda>_. True", OF assms(1) fresh_names])
  fix pl assume "live ?A' pl"
  then show "live A pl \<and> hrefs ?A' pl = filter (\<lambda>_. True) (hrefs A pl) @ (if pl = Members u then [fresh A] else []) \<or> hrefs ?A' pl = []"
    by (cases pl) (simp_all add: new_member_def listeners_of_def monitors_of_def)
qed (use soundD [OF assms(1)] assms(2) in auto)

lemma new_listener_sel [simp]:
  "lis_UUID (new_listener r u) = u" "lis_HREF (new_listener r u) = u" "lis_PoolUUID (new_listener r u) = Some (lisreq_Pool r)"
  by (simp_all add: new_listener_def set_listener_def)

lemma new_monitor_sel [simp]:
  "mon_UUID (new_monitor r u) = u" "mon_HREF (new_monitor r u) = u" "mon_PoolUUID (new_monitor r u) = monreq_Pool r"
  by (simp_all add: new_monitor_def set_monitor_def)

lemma sound_listener_created:
  assumes "sound A" "lisreq_Pool r \<in> pool_UUIDs A"
  shows "sound (A\<lparr>acc_listeners := acc_listeners A @ [new_listener r (fresh A)]\<rparr>)" (is "sound ?A'")
proof (rule sound_step [where here = "Listeners (lisreq_Pool r)" and P = "\<lambda>_. True", OF assms(1) fresh_names])
  fix pl assume "live ?A' pl"
  then show "live A pl \<and> hrefs ?A' pl = filter (\<lambda>_. True) (hrefs A pl) @ (if pl = Listeners (lisreq_Pool r) then [fresh A] else []) \<or>
      hrefs ?A' pl = []"
    by (cases pl) (auto simp: listeners_of_def monitors_of_def)
qed (use soundD [OF assms(1)] assms(2) fresh_ids(3) [of A] in auto)

lemma set_http_normal:
  "(set_http r h)\<lparr>http_Host := map_option (\<lambda>(_, s). (0, s)) (http_Host (set_http r h))\<rparr> =
     set_http r (h\<lparr>http_Host := map_option (\<lambda>(_, s). (0, s)) (http_Host h)\<rparr>)"
  by (auto simp: set_http_def split: option.split)

lemma set_monitor_normal: "no_address (set_monitor r m) = set_monitor r (no_address m)"
  by (cases "mon_HTTP m"; cases "monreq_HTTP r") (simp_all add: no_address_def set_monitor_def set_http_normal)

lemma sound_monitor_created:
  assumes "sound A" "monreq_Pool r \<in> pool_UUIDs A"
  shows "sound (A\<lparr>acc_monitors := acc_monitors A @ [new_monitor r (fresh A)]\<rparr>)" (is "sound ?A'")
proof (rule sound_step [where here = "Monitors (monreq_Pool r)" and P = "\<lambda>_. True", OF assms(1) fresh_names])
  fix pl assume "live ?A' pl"
  then show "live A pl \<and> hrefs ?A' pl = filter (\<lambda>_. True) (hrefs A pl) @ (if pl = Monitors (monreq_Pool r) then [fresh A] else []) \<or>
      hrefs ?A' pl = []"
    by (cases pl) (auto simp: listeners_of_def monitors_of_def)
next
  have "no_address (new_monitor r (fresh A)) = new_monitor r (fresh A)"
    unfolding new_monitor_def set_monitor_normal
    by (rule arg_cong [where f = "set_monitor r"]) (cases "monreq_HTTP r"; simp add: no_address_def zero_MonitorHTTP_def)
  then show "map no_address (acc_monitors ?A') = acc_monitors ?A'" using soundD(6) [OF assms(1)] by simp
qed (use soundD [OF assms(1)] assms(2) fresh_ids(4) [of A] in auto)

text \<open>Changes in place.\<close>

lemma sound_same:
  assumes "sound A" "\<And>pl. live A' pl = live A pl \<and> hrefs A' pl = hrefs A pl"
    and "map lb_UUID (acc_lbs A') = map lb_UUID (acc_lbs A)" "acc_pools A' = acc_pools A" "acc_members A' = acc_members A"
    and "map (\<lambda>l. (lis_UUID l, lis_PoolUUID l)) (acc_listeners A') = map (\<lambda>l. (lis_UUID l, lis_PoolUUID l)) (acc_listeners A)"
    and "map (\<lambda>m. (mon_UUID m, mon_PoolUUID m)) (acc_monitors A') = map (\<lambda>m. (mon_UUID m, mon_PoolUUID m)) (acc_monitors A)"
    and "map no_status (acc_lbs A') = acc_lbs A'" "map no_address (acc_monitors A') = acc_monitors A'"
  shows "sound A'"
proof -
  note lis = arg_cong [OF assms(6), of "map fst"] arg_cong [OF assms(6), of "set \<circ> map snd"]
  note mon = arg_cong [OF assms(7), of "map fst"] arg_cong [OF assms(7), of "set \<circ> map snd"]
  have "map lis_UUID (acc_listeners A') = map lis_UUID (acc_listeners A)" "map mon_UUID (acc_monitors A') = map mon_UUID (acc_monitors A)"
    using lis(1) mon(1) by (simp_all add: comp_def)
  then have "wf_account A'" using soundD(1) [OF assms(1)] assms(2-4) by (simp add: wf_account_def)
  moreover have "lis_PoolUUID ` set (acc_listeners A') = lis_PoolUUID ` set (acc_listeners A)"
    "mon_PoolUUID ` set (acc_monitors A') = mon_PoolUUID ` set (acc_monitors A)"
    using lis(2) mon(2) by (simp_all add: image_image)
  then have "lis_PoolUUID ` set (acc_listeners A') \<subseteq> Some ` pool_UUIDs A'" "mon_PoolUUID ` set (acc_monitors A') \<subseteq> pool_UUIDs A'"
    using soundD(3,4) [OF assms(1)] assms(4) by auto
  ultimately show ?thesis using soundD(2) [OF assms(1)] assms(4,5,8,9) by (auto simp: sound_def)
qed

section \<open>Deletion\<close>

lemma filter_eq_image: "[i \<leftarrow> map f xs. i \<noteq> u] = map f [i \<leftarrow> xs. f i \<noteq> u]"
  by (simp add: filter_map comp_def)

lemma map_filter_id: "map f xs = xs \<Longrightarrow> map f [x \<leftarrow> xs. P x] = [x \<leftarrow> xs. P x]"
  by (induction xs) auto

lemma deleted_delete_resource: "deleted url A (delete_resource url A)"
proof -
  have "listeners_of (delete_resource url A) u = [l \<leftarrow> listeners_of A u. lis_HREF l \<noteq> url]"
    "monitors_of (delete_resource url A) u = [m \<leftarrow> monitors_of A u. mon_HREF m \<noteq> url]"
    if "u \<in> pool_UUIDs (delete_resource url A)" for u
    using that by (auto simp: delete_resource_def Let_def listeners_of_def monitors_of_def intro!: filter_cong)
  moreover have "list_all2 (\<lambda>f f'. fip_Network f' = fip_Network f \<and> (fip_LoadBalancerUUID f \<notin> Some ` gone url A \<longrightarrow> f' = f))
      (acc_fips A) (acc_fips (delete_resource url A))"
    by (auto simp: delete_resource_def Let_def list_all2_map2 list.rel_refl)
  ultimately show ?thesis by (auto simp: deleted_def delete_resource_def Let_def intro!: filter_cong)
qed

lemma sound_deleted:
  assumes "sound A"
  shows "sound (delete_resource url A)" (is "sound ?A'")
proof -
  have wf: "wf_account A" by (rule soundD(1) [OF assms])
  have live: "live A pl" if "live ?A' pl" for pl
    using that by (cases pl) (auto simp: delete_resource_def Let_def)
  have step: "hrefs ?A' pl = [h \<leftarrow> hrefs A pl. h \<noteq> url] \<or> hrefs ?A' pl = []" if "live ?A' pl" for pl
  proof (cases pl)
    case (Pools U)
    then show ?thesis
      by (cases "U \<in> gone url A") (auto simp: delete_resource_def Let_def filter_eq_image filter_empty_conv intro!: arg_cong [where f = "map pool_HREF"] filter_cong)
  next
    case Balancers
    then show ?thesis by (simp add: delete_resource_def Let_def filter_eq_image)
  next
    case (Members u)
    then show ?thesis using that by (auto simp: delete_resource_def Let_def filter_eq_image)
  next
    case (Listeners u)
    then have "listeners_of ?A' u = [l \<leftarrow> listeners_of A u. lis_HREF l \<noteq> url]"
      using that by (auto simp: delete_resource_def Let_def listeners_of_def intro!: filter_cong)
    then show ?thesis by (simp add: Listeners filter_eq_image)
  next
    case (Monitors u)
    then have "monitors_of ?A' u = [m \<leftarrow> monitors_of A u. mon_HREF m \<noteq> url]"
      using that by (auto simp: delete_resource_def Let_def monitors_of_def intro!: filter_cong)
    then show ?thesis by (simp add: Monitors filter_eq_image)
  qed
  have "wf_account ?A'"
    unfolding wf_account_def
  proof (intro conjI allI impI)
    show "distinct (hrefs ?A' pl)" if "live ?A' pl" for pl
      using step [OF that] wf_hrefs(1) [OF wf live [OF that]] by auto
    show "set (hrefs ?A' pl) \<inter> set (hrefs ?A' pl') = {}" if "live ?A' pl \<and> live ?A' pl' \<and> pl \<noteq> pl'" for pl pl'
      using step that wf_hrefs(2) [OF wf, of pl pl'] live by fastforce
  qed (use soundD [OF assms] in \<open>auto simp: delete_resource_def Let_def distinct_map_filter list_all_iff\<close>)
  then show ?thesis using soundD [OF assms] by (auto simp: sound_def delete_resource_def Let_def map_filter_id)
qed

section \<open>The conditions are met\<close>

lemma sound_renamed:
  assumes "sound A"
  shows "sound (A\<lparr>acc_lbs := map (\<lambda>l. if lb_UUID l = u then l\<lparr>lb_Name := name\<rparr> else l) (acc_lbs A)\<rparr>)" (is "sound ?A'")
proof (rule sound_same [OF assms])
  show "live ?A' pl = live A pl \<and> hrefs ?A' pl = hrefs A pl" for pl
    by (cases pl) (auto simp: listeners_of_def monitors_of_def)
  have "no_status l = l" if "l \<in> set (acc_lbs A)" for l using soundD(5) [OF assms] that by (metis map_eq_conv map_ident)
  moreover have "no_status (l\<lparr>lb_Name := name\<rparr>) = (no_status l)\<lparr>lb_Name := name\<rparr>" for l by (simp add: no_status_def)
  ultimately show "map no_status (acc_lbs ?A') = acc_lbs ?A'" by auto
qed (use soundD [OF assms] in simp_all)

lemma sound_listener_updated:
  assumes "sound A"
  shows "sound (A\<lparr>acc_listeners := map (\<lambda>l. if lis_UUID l = u then set_listener r l else l) (acc_listeners A)\<rparr>)" (is "sound ?A'")
proof (rule sound_same [OF assms])
  have "map lis_HREF (listeners_of ?A' v) = map lis_HREF (listeners_of A v)" for v
    by (auto simp: listeners_of_def filter_map comp_def if_distrib [of lis_PoolUUID] cong: if_cong)
  then show "live ?A' pl = live A pl \<and> hrefs ?A' pl = hrefs A pl" for pl
    by (cases pl) (simp_all add: monitors_of_def)
qed (use soundD [OF assms] in simp_all)

lemma sound_monitor_updated:
  assumes "sound A"
  shows "sound (A\<lparr>acc_monitors := map (\<lambda>m. if mon_UUID m = u then set_monitor r m else m) (acc_monitors A)\<rparr>)" (is "sound ?A'")
proof (rule sound_same [OF assms])
  have "map mon_HREF (monitors_of ?A' v) = map mon_HREF (monitors_of A v)" for v
    by (auto simp: monitors_of_def filter_map comp_def if_distrib [of mon_PoolUUID] cong: if_cong)
  then show "live ?A' pl = live A pl \<and> hrefs ?A' pl = hrefs A pl" for pl
    by (cases pl) (simp_all add: listeners_of_def)
  have "no_address m = m" if "m \<in> set (acc_monitors A)" for m using soundD(6) [OF assms] that by (metis map_eq_conv map_ident)
  then show "map no_address (acc_monitors ?A') = acc_monitors ?A'" by (auto simp: set_monitor_normal)
qed (use soundD [OF assms] in simp_all)

lemma sound_assigned:
  assumes "sound A"
  shows "sound (A\<lparr>acc_fips := fs\<rparr>)" (is "sound ?A'")
proof (rule sound_same [OF assms])
  show "live ?A' pl = live A pl \<and> hrefs ?A' pl = hrefs A pl" for pl
    by (cases pl) (simp_all add: listeners_of_def monitors_of_def)
qed (use soundD [OF assms] in simp_all)

lemma new_lb_created: "lb_created r A (A\<lparr>acc_lbs := acc_lbs A @ [new_lb r (fresh A)]\<rparr>)"
  by (auto simp: lb_created_def new_lb_def vip_granted_def list_all2_map2 list.rel_refl intro!: exI [of _ "new_lb r (fresh A)"]
      split: option.split list.split)

lemma new_pool_created: "pool_created r A (A\<lparr>acc_pools := acc_pools A @ [new_pool r (fresh A)]\<rparr>)"
  unfolding pool_created_def by (intro exI [of _ "new_pool r (fresh A)"]) (simp add: new_pool_def)

lemma new_member_created:
  "member_created sim_net u r A (A\<lparr>acc_members := (acc_members A)(u := acc_members A u @ [new_member r (fresh A)])\<rparr>)"
  unfolding member_created_def by (intro exI [of _ "new_member r (fresh A)"]) (simp add: new_member_def)

lemma new_listener_created: "listener_created r A (A\<lparr>acc_listeners := acc_listeners A @ [new_listener r (fresh A)]\<rparr>)"
proof -
  have "set_listener r (new_listener r u) = new_listener r u" for u
    by (cases "lisreq_AllowedCIDRs r") (simp_all add: new_listener_def set_listener_def)
  moreover have "lis_Name (new_listener r u) = lisreq_Name r \<and> lis_Protocol (new_listener r u) = lisreq_Protocol r \<and>
      lis_ProtocolPort (new_listener r u) = lisreq_ProtocolPort r" for u
    by (simp add: new_listener_def set_listener_def zero_Listener_def)
  ultimately show ?thesis unfolding listener_created_def by (intro exI [of _ "new_listener r (fresh A)"]) simp
qed

lemma new_monitor_created: "monitor_created r A (A\<lparr>acc_monitors := acc_monitors A @ [new_monitor r (fresh A)]\<rparr>)"
proof -
  have "set_http h (set_http h g) = set_http h g" for h g by (simp add: set_http_def)
  then have "set_monitor r (new_monitor r u) = new_monitor r u" for u
    by (cases "monreq_HTTP r") (simp_all add: new_monitor_def set_monitor_def)
  moreover have "mon_Type (new_monitor r u) = monreq_Type r" for u
    by (simp add: new_monitor_def set_monitor_def zero_Monitor_def)
  moreover have "mon_version (new_monitor r u) = (case monreq_HTTP r of Some h \<Rightarrow> given [] (httpreq_Version h) ''1.1'' | None \<Rightarrow> ''1.1'')" for u
    by (cases "monreq_HTTP r") (simp_all add: new_monitor_def set_monitor_def mon_version_def set_http_def)
  ultimately show ?thesis unfolding monitor_created_def by (intro exI [of _ "new_monitor r (fresh A)"]) simp
qed

lemma sim_writes: "writes_documented sim_model"
  unfolding writes_documented_def
proof (intro allI impI conjI ballI)
  fix w assume "am_ok sim_model w"
  then have ok: "sound (cw_acct w)" by simp
  note calls = performs_def sim_client_def idle_client_def
  show "performs sim_model (LoadBalancers_Create (am_client sim_model) r) w (lb_created r)" for r
    using ok sound_lb_created new_lb_created by (simp add: calls)
  show "performs sim_model (LoadBalancers_Update (am_client sim_model) u (zero_LoadBalancerRequest\<lparr>lbreq_Name := name\<rparr>)) w (lb_renamed u name)" for u name
    using ok sound_renamed by (simp add: calls lb_renamed_def)
  show "performs sim_model (Pools_Create (am_client sim_model) r) w (pool_created r)"
    if "am_accepts sim_model (ReqPool r) \<and> poolreq_LoadBalancer r \<in> lb_UUIDs (am_acct sim_model w)" for r
    using ok sound_pool_created new_pool_created that by (simp add: calls)
  show "performs sim_model (Members_Create (am_client sim_model) u r) w (member_created (am_net sim_model) u r)"
    if "u \<in> pool_UUIDs (am_acct sim_model w)" for u r
    using ok sound_member_created new_member_created that by (simp add: calls)
  show "performs sim_model (Listeners_Create (am_client sim_model) r) w (listener_created r)"
    if "am_accepts sim_model (ReqListener r) \<and> lisreq_Pool r \<in> pool_UUIDs (am_acct sim_model w)" for r
    using ok sound_listener_created new_listener_created that by (simp add: calls)
  show "performs sim_model (Listeners_Update (am_client sim_model) u r) w (listener_updated u r)" for u r
    using ok sound_listener_updated by (simp add: calls listener_updated_def)
  show "performs sim_model (Monitors_Create (am_client sim_model) r) w (monitor_created r)"
    if "am_accepts sim_model (ReqMonitor r) \<and> monreq_Pool r \<in> pool_UUIDs (am_acct sim_model w)" for r
    using ok sound_monitor_created new_monitor_created that by (simp add: calls)
  show "performs sim_model (Monitors_Update (am_client sim_model) u r) w (monitor_updated u r)" for u r
    using ok sound_monitor_updated by (simp add: calls monitor_updated_def)
  show "performs sim_model (FloatingIPs_Update (am_client sim_model) addr u) w (fip_assigned addr u)" for addr u
    using ok sound_assigned by (simp add: calls fip_assigned_def)
  show "\<exists>req. client_NewRequest (am_client sim_model) ''DELETE'' url = Inr req \<and>
      performs sim_model (client_Do (am_client sim_model) req) w (deleted url)" for url
    using ok sound_deleted deleted_delete_resource by (simp add: calls)
qed

theorem simulated_documented: "documented_api sim_model"
  by (simp add: documented_api_def sim_reads sim_waits sim_writes)

end
