(* ===== verification/Provider_Id.thy ===== *)
theory Provider_Id
  imports Cloud_Types
begin

text \<open>
  The provider ID of a node (\<open>src/pkg/cloudscale_ccm/provider_id.go\<close>): \<open>cloudscale://\<close> followed by
  the UUID of the server. Parsing and printing of UUIDs are the parameters \<open>x_uuid_Parse\<close> and
  \<open>x_uuid_String\<close>.
\<close>

definition ProviderName :: string where
  "ProviderName = ''cloudscale''"

record cloudscaleProviderID =
  pid_id :: uuid

definition ProviderID_String :: "ext \<Rightarrow> cloudscaleProviderID \<Rightarrow> string" where
  "ProviderID_String x i = ProviderName @ ''://'' @ x_uuid_String x (pid_id i)"

definition ProviderID_UUID :: "cloudscaleProviderID \<Rightarrow> uuid" where
  "ProviderID_UUID i = pid_id i"

definition parseCloudscaleProviderID :: "ext \<Rightarrow> string \<Rightarrow> cloudscaleProviderID res" where
  "parseCloudscaleProviderID x text =
     (if \<not> strings_Contains text ''://'' then
        Err (ErrorMsg (''bad providerID: '' @ text @ '' has no '' @ [CHR 0x27] @ ''://'' @ [CHR 0x27]))
      else case strings_SplitN2 text ''://'' of
          p0 # p1 # _ \<Rightarrow>
            (let part0 = strings_Trim p0 '' ''; part1 = strings_Trim p1 '' '' in
             if part0 = [] then Err (ErrorMsg (''bad providerID: no provider in '' @ text))
             else if part0 \<noteq> ProviderName then Err (ErrorMsg (''not a cloudscale providerID: '' @ text))
             else if part1 = [] then Err (ErrorMsg (''bad providerID: no id in '' @ text))
             else case x_uuid_Parse x part1 of
                 Inl e \<Rightarrow> Err (ErrorMsg (''bad providerID (no uuid at end): '' @ text))
               | Inr i \<Rightarrow> Ok \<lparr>pid_id = i\<rparr>)
        | _ \<Rightarrow> Panic ''index out of range'')"

section \<open>Laws\<close>

lemma parse_unfold:
  "parseCloudscaleProviderID x text = (case strings_Cut text ''://'' of
       None \<Rightarrow> Err (ErrorMsg (''bad providerID: '' @ text @ '' has no '' @ [CHR 0x27] @ ''://'' @ [CHR 0x27]))
     | Some (b, a) \<Rightarrow>
         if strings_Trim b '' '' = [] then Err (ErrorMsg (''bad providerID: no provider in '' @ text))
         else if strings_Trim b '' '' \<noteq> ProviderName then Err (ErrorMsg (''not a cloudscale providerID: '' @ text))
         else if strings_Trim a '' '' = [] then Err (ErrorMsg (''bad providerID: no id in '' @ text))
         else case x_uuid_Parse x (strings_Trim a '' '') of
             Inl e \<Rightarrow> Err (ErrorMsg (''bad providerID (no uuid at end): '' @ text))
           | Inr i \<Rightarrow> Ok \<lparr>pid_id = i\<rparr>)"
  by (simp add: parseCloudscaleProviderID_def strings_Contains_def strings_SplitN2_def Let_def
      split: option.split prod.split)

lemma parse_no_panic [simp]: "parseCloudscaleProviderID x text \<noteq> Panic m"
  by (simp add: parse_unfold split: option.split prod.split sum.split)

lemma dropWhile_spaces: "c \<notin> set cs \<Longrightarrow> dropWhile (\<lambda>d. d \<in> set cs) (replicate n d @ c # s) = 
    (if d \<in> set cs then c # s else replicate n d @ c # s)"
  by (induction n) auto

text \<open>Trimming removes exactly the surrounding spaces of a text that has none inside.\<close>

lemma Trim_padded:
  assumes "s \<noteq> []" "CHR '' '' \<notin> set s"
  shows "strings_Trim (replicate m (CHR '' '') @ s @ replicate n (CHR '' '')) '' '' = s"
proof -
  obtain c t where s: "s = c # t" using assms(1) by (cases s) auto
  then have c: "c \<notin> set '' ''" using assms(2) by auto
  have left: "strings_TrimLeft (replicate m (CHR '' '') @ s @ replicate n (CHR '' '')) '' ''
      = s @ replicate n (CHR '' '')"
    using dropWhile_spaces [OF c, of m "CHR '' ''"] by (simp add: strings_TrimLeft_def s)
  obtain u d where r: "rev s = d # u" using assms(1) by (cases "rev s") auto
  then have d: "d \<notin> set '' ''" using assms(2) by (metis list.set_intros(1) list.simps(15) set_rev singletonD empty_set)
  have "strings_TrimRight (s @ replicate n (CHR '' '')) '' '' = rev (rev s)"
    using dropWhile_spaces [OF d, of n "CHR '' ''" u] by (simp add: strings_TrimRight_def r)
  with left show ?thesis by (simp add: strings_Trim_def)
qed

section \<open>Properties\<close>

text \<open>
  C32. Round trip: the printed form of a provider ID, also with spaces around the provider and around
  the UUID, is parsed back to it, if the UUID package parses what it prints and prints no spaces.
\<close>

theorem ProviderID_roundtrip:
  assumes "x_uuid_Parse x (x_uuid_String x (pid_id i)) = Inr (pid_id i)"
    and "x_uuid_String x (pid_id i) \<noteq> []" "CHR '' '' \<notin> set (x_uuid_String x (pid_id i))"
  shows "parseCloudscaleProviderID x (ProviderID_String x i) = Ok i \<and>
     parseCloudscaleProviderID x
       (replicate k (CHR '' '') @ ProviderName @ replicate l (CHR '' '') @ ''://'' @
        replicate m (CHR '' '') @ x_uuid_String x (pid_id i) @ replicate n (CHR '' '')) = Ok i"
proof -
  have padded: "parseCloudscaleProviderID x
       (replicate k (CHR '' '') @ ProviderName @ replicate l (CHR '' '') @ ''://'' @
        replicate m (CHR '' '') @ x_uuid_String x (pid_id i) @ replicate n (CHR '' '')) = Ok i" for k l m n
  proof -
    let ?b = "replicate k (CHR '' '') @ ProviderName @ replicate l (CHR '' '')"
    let ?a = "replicate m (CHR '' '') @ x_uuid_String x (pid_id i) @ replicate n (CHR '' '')"
    have "CHR '':'' \<notin> set ?b" by (auto simp: ProviderName_def)
    from Cut_first [OF this, of "''//''" ?a]
    have "strings_Cut (?b @ ''://'' @ ?a) ''://'' = Some (?b, ?a)" by simp
    moreover have "strings_Trim ?b '' '' = ProviderName"
      by (rule Trim_padded) (auto simp: ProviderName_def)
    moreover have "strings_Trim ?a '' '' = x_uuid_String x (pid_id i)"
      by (rule Trim_padded) (use assms in auto)
    ultimately show ?thesis using assms by (simp add: parse_unfold ProviderName_def)
  qed
  from padded [of 0 0 0 0] padded [of k l m n] show ?thesis
    by (simp add: ProviderID_String_def)
qed

theorem ProviderID_roundtrip_witness:
  "parseCloudscaleProviderID sample_ext (''cloudscale://'' @ sample_uuid_text) = Ok \<lparr>pid_id = [128, 185]\<rparr>"
proof -
  have "x_uuid_Parse sample_ext (x_uuid_String sample_ext (pid_id \<lparr>pid_id = [128, 185]\<rparr>))
      = Inr (pid_id \<lparr>pid_id = [128, 185]\<rparr>)"
    by (simp add: sample_ext_def)
  moreover have "x_uuid_String sample_ext (pid_id \<lparr>pid_id = [128, 185]\<rparr>) \<noteq> []"
    by (simp add: sample_ext_def sample_uuid_text_def)
  moreover have "CHR '' '' \<notin> set (x_uuid_String sample_ext (pid_id \<lparr>pid_id = [128, 185]\<rparr>))"
    by (simp add: sample_ext_def sample_uuid_text_def)
  ultimately have "parseCloudscaleProviderID sample_ext (ProviderID_String sample_ext \<lparr>pid_id = [128, 185]\<rparr>)
      = Ok \<lparr>pid_id = [128, 185]\<rparr>"
    by (rule conjunct1 [OF ProviderID_roundtrip])
  then show ?thesis by (simp add: ProviderID_String_def ProviderName_def sample_ext_def)
qed

text \<open>
  Only cloudscale provider IDs are accepted: of a text that is accepted, the part before the first
  \<open>://\<close> is \<open>cloudscale\<close> up to surrounding spaces, and the part after it is, up to surrounding spaces, a
  UUID, the one that is returned. Every other text gives an error and never a panic.
\<close>

lemma parse_accepts_only_cloudscale:
  "(\<exists>i. parseCloudscaleProviderID x text = Ok i \<and>
      (\<exists>before after. text = before @ ''://'' @ after \<and> \<not> strings_Contains before ''://'' \<and>
         strings_Trim before '' '' = ''cloudscale'' \<and>
         x_uuid_Parse x (strings_Trim after '' '') = Inr (pid_id i))) \<or>
   (\<exists>e. parseCloudscaleProviderID x text = Err e)"
proof (cases "strings_Cut text ''://''")
  case None
  then show ?thesis by (simp add: parse_unfold)
next
  case (Some p)
  obtain b a where ba: "p = (b, a)" by fastforce
  have cut: "strings_Cut text ''://'' = Some (b, a)" using Some ba by simp
  have "\<not> strings_Contains b ''://''"
    using Cut_before [OF cut] by (simp add: strings_Contains_def)
  note split = Cut_sound [OF cut] this
  show ?thesis
  proof (cases "parseCloudscaleProviderID x text")
    case (Ok i)
    then have "strings_Trim b '' '' = ''cloudscale''"
      "x_uuid_Parse x (strings_Trim a '' '') = Inr (pid_id i)"
      by (auto simp: parse_unfold cut ProviderName_def split: if_splits sum.splits)
    with Ok split show ?thesis by blast
  qed simp_all
qed

end
