(* ===== verification/Server_Mapper.thy ===== *)
theory Server_Mapper
  imports Provider_Id
begin

text \<open>
  Finding the server of a node (\<open>src/pkg/cloudscale_ccm/server_mapper.go\<close>): by provider ID when the
  node has one, by name otherwise, and the addresses Kubernetes is told about. A node is a pointer
  that may be nil.
\<close>

section \<open>Operations\<close>

definition getByProviderID :: "ext \<Rightarrow> 'w client \<Rightarrow> cloudscaleProviderID \<Rightarrow> 'w \<Rightarrow> Server limiter \<times> 'w" where
  "getByProviderID x c i w = (case Servers_Get c (x_uuid_String x (ProviderID_UUID i)) w of
       (Inl err, w') \<Rightarrow>
         if errors_As_response err = Some 404 then (limiter_New None [], w')
         else (limiter_New (Some err) [], w')
     | (Inr server, w') \<Rightarrow> (limiter_New None [server], w'))"

definition srv_findByName :: "'w client \<Rightarrow> string \<Rightarrow> 'w \<Rightarrow> Server limiter \<times> 'w" where
  "srv_findByName c name w = (case Servers_List c w of
       (Inl err, w') \<Rightarrow> (limiter_New (Some err) [], w')
     | (Inr servers, w') \<Rightarrow> (limiter_New None [s \<leftarrow> servers. srv_Name s = name], w'))"

definition findByNode :: "ext \<Rightarrow> 'w client \<Rightarrow> Node option \<Rightarrow> 'w \<Rightarrow> Server limiter \<times> 'w" where
  "findByNode x c node w = (case node of
       None \<Rightarrow> (limiter_New None [], w)
     | Some n \<Rightarrow>
         if node_ProviderID n \<noteq> [] then
           (case parseCloudscaleProviderID x (node_ProviderID n) of
              Ok i \<Rightarrow> getByProviderID x c i w
            | Err e \<Rightarrow> (limiter_New (Some (Wrapped (node_ProviderID n @ '' is not a valid cloudscale provider id: '') e)) [], w)
            | Panic m \<Rightarrow> (limiter_New (Some (ErrorMsg m)) [], w))
         else srv_findByName c (node_Name n) w)"

fun mapNodes_loop :: "ext \<Rightarrow> 'w client \<Rightarrow> Server list \<Rightarrow> Node option list \<Rightarrow> 'w \<Rightarrow> Server limiter \<times> 'w" where
  "mapNodes_loop x c servers [] w = (limiter_New None servers, w)"
| "mapNodes_loop x c servers (node # nodes) w =
     (case findByNode x c node w of (lim, w') \<Rightarrow>
       (case limiter_One lim of
          Err e \<Rightarrow> (limiter_New (Some e) [], w')
        | Ok server \<Rightarrow> mapNodes_loop x c (servers @ [server]) nodes w'
        | Panic m \<Rightarrow> (limiter_New (Some (ErrorMsg m)) [], w')))"

definition mapNodes :: "ext \<Rightarrow> 'w client \<Rightarrow> Node option list \<Rightarrow> 'w \<Rightarrow> Server limiter \<times> 'w" where
  "mapNodes x c nodes w = mapNodes_loop x c [] nodes w"

datatype NodeAddressType = NodeHostName | NodeExternalIP | NodeInternalIP

record NodeAddress =
  na_Type :: NodeAddressType
  na_Address :: string

definition nodeAddresses :: "Server option \<Rightarrow> NodeAddress list" where
  "nodeAddresses server = (case server of
       None \<Rightarrow> []
     | Some s \<Rightarrow>
         \<lparr>na_Type = NodeHostName, na_Address = srv_Name s\<rparr> #
         [\<lparr>na_Type = (if if_Type i = ''public'' then NodeExternalIP else NodeInternalIP),
           na_Address = addr_Address a\<rparr>. i \<leftarrow> srv_Interfaces s, a \<leftarrow> if_Addresses i])"

section \<open>Laws\<close>

lemma mapNodes_loop_length:
  "mapNodes_loop x c servers nodes w = (lim, w') \<Longrightarrow> lim_Error lim = None \<Longrightarrow>
     length (lim_elements lim) = length servers + length nodes"
  by (induction x c servers nodes w rule: mapNodes_loop.induct)
     (auto split: prod.splits res.splits)

lemma mapNodes_length:
  "limiter_All (fst (mapNodes x c nodes w)) = Ok servers \<Longrightarrow> length servers = length nodes"
  using mapNodes_loop_length [of x c "[]" nodes w]
  by (cases "mapNodes_loop x c [] nodes w") (auto simp: mapNodes_def All_iff)

text \<open>The servers a list of nodes maps to, when looking a node up does not change the world.\<close>

lemma mapNodes_loop_pointwise:
  assumes "\<And>n. n \<in> set nodes \<Longrightarrow> snd (findByNode x c n w) = w"
  shows "limiter_All (fst (mapNodes_loop x c servers nodes w)) = Ok result \<longleftrightarrow>
     (\<exists>found. result = servers @ found \<and>
        list_all2 (\<lambda>n s. limiter_One (fst (findByNode x c n w)) = Ok s) nodes found)"
  using assms
proof (induction nodes arbitrary: servers)
  case Nil
  then show ?case by (auto simp: All_iff)
next
  case (Cons n nodes)
  obtain lim where lim: "findByNode x c n w = (lim, w)"
    using Cons.prems [of n] by (metis list.set_intros(1) prod.collapse)
  show ?case
  proof (cases "limiter_One lim")
    case (Ok s)
    have "limiter_All (fst (mapNodes_loop x c (servers @ [s]) nodes w)) = Ok result \<longleftrightarrow>
       (\<exists>found. result = (servers @ [s]) @ found \<and>
          list_all2 (\<lambda>n s. limiter_One (fst (findByNode x c n w)) = Ok s) nodes found)"
      using Cons by auto
    with Ok lim show ?thesis by (auto simp: list_all2_Cons1)
  next
    case (Err e)
    with lim show ?thesis by (auto simp: list_all2_Cons1 limiter_All_def)
  qed simp
qed

section \<open>Properties\<close>

text \<open>
  C27. Mapping nodes to servers is one to one: it succeeds exactly when every node has exactly one
  server, and the result then lists that server for every node, in the order of the nodes. (Looking
  a server up is a read of the API, which the hypothesis says leaves the world alone.)
\<close>

theorem mapNodes_one_to_one:
  assumes "\<And>n. n \<in> set nodes \<Longrightarrow> snd (findByNode x c n w) = w"
  shows "limiter_All (fst (mapNodes x c nodes w)) = Ok servers \<longleftrightarrow>
     length servers = length nodes \<and>
     (\<forall>i < length nodes. lim_Error (fst (findByNode x c (nodes ! i) w)) = None \<and>
        lim_elements (fst (findByNode x c (nodes ! i) w)) = [servers ! i])"
  using mapNodes_loop_pointwise [OF assms, where servers = "[]" and result = servers]
  by (auto simp: mapNodes_def list_all2_conv_all_nth One_iff)

theorem mapNodes_one_to_one_witness:
  "limiter_All (fst (mapNodes sample_ext (idle_client\<lparr>Servers_List := (\<lambda>w. (Inr [sample_server], w))\<rparr>)
     [Some sample_node] ())) = Ok [sample_server]"
proof -
  let ?c = "idle_client\<lparr>Servers_List := (\<lambda>w. (Inr [sample_server], w))\<rparr>"
  have f: "findByNode sample_ext ?c (Some sample_node) () = (limiter_New None [sample_server], ())"
    by (simp add: findByNode_def srv_findByName_def sample_node_def sample_server_def)
  have "limiter_All (fst (mapNodes sample_ext ?c [Some sample_node] ())) = Ok [sample_server] \<longleftrightarrow>
     length [sample_server] = length [Some sample_node] \<and>
     (\<forall>i < length [Some sample_node]. lim_Error (fst (findByNode sample_ext ?c ([Some sample_node] ! i) ())) = None \<and>
        lim_elements (fst (findByNode sample_ext ?c ([Some sample_node] ! i) ())) = [[sample_server] ! i])"
    by (rule mapNodes_one_to_one) simp
  then show ?thesis by (simp add: f)
qed

text \<open>
  The addresses reported for a server are its name as the host name and then every address of
  every interface in order, external for interfaces of type \<open>public\<close> and internal for all others.
\<close>

lemma nodeAddresses_complete:
  "map na_Address (nodeAddresses (Some s)) =
     srv_Name s # concat (map (\<lambda>i. map addr_Address (if_Addresses i)) (srv_Interfaces s)) \<and>
   map na_Type (nodeAddresses (Some s)) =
     NodeHostName # concat (map (\<lambda>i. replicate (length (if_Addresses i))
        (if if_Type i = ''public'' then NodeExternalIP else NodeInternalIP)) (srv_Interfaces s))"
  by (simp add: nodeAddresses_def map_concat comp_def map_replicate_const)

end
