(* ===== verification/Service_Lock.thy ===== *)
theory Service_Lock
  imports Go_Base
begin

text \<open>
  The lock that keeps two handlers from working on one service at a time
  (\<open>src/pkg/cloudscale_ccm/loadbalancer.go\<close>: \<open>lockForService\<close>, \<open>lockKey\<close>, the field \<open>muMap\<close>).

  Any number of goroutines call \<open>lockForService\<close>. The call first takes the mutex of the service from
  a map, storing a new one when there is none, which is one atomic step of \<open>sync.Map\<close>; then it blocks
  until the mutex is free; the function it returns releases the mutex. The steps of the goroutines
  interleave in any order, so the system is a step relation on the state below. A goroutine is a
  number, a mutex the number of its allocation.
\<close>

section \<open>Transition systems with an invariant\<close>

locale invariant_system =
  fixes init :: "'s \<Rightarrow> bool"
    and step :: "'s \<Rightarrow> 's \<Rightarrow> bool"
    and inv :: "'s \<Rightarrow> bool"
  assumes inv_init: "init s \<Longrightarrow> inv s"
    and inv_step: "inv s \<Longrightarrow> step s s' \<Longrightarrow> inv s'"
begin

lemma inv_steps: "step\<^sup>*\<^sup>* s s' \<Longrightarrow> inv s \<Longrightarrow> inv s'"
  by (induction rule: rtranclp_induct) (auto intro: inv_step)

lemma inv_reachable: "init s \<Longrightarrow> step\<^sup>*\<^sup>* s s' \<Longrightarrow> inv s'"
  using inv_steps inv_init by blast

end

section \<open>State and steps\<close>

text \<open>What a goroutine is doing, with the service and the mutex.\<close>

datatype phase = Outside | Waiting string nat | Holding string nat

record lockState =
  muMap :: "(string \<times> nat) list"
  allocated :: nat
  owner :: "nat \<Rightarrow> nat option"
  phase_of :: "nat \<Rightarrow> phase"

definition lockKey :: "string \<Rightarrow> string" where
  "lockKey uid = uid"

text \<open>\<open>l.muMap.LoadOrStore(key, new(sync.Mutex))\<close>: the new mutex is allocated in any case.\<close>

definition LoadOrStore :: "string \<Rightarrow> lockState \<Rightarrow> nat \<times> lockState" where
  "LoadOrStore key s =
     (let fresh = allocated s; s' = s\<lparr>allocated := Suc fresh\<rparr> in
      case map_of (muMap s) key of
        Some mu \<Rightarrow> (mu, s')
      | None \<Rightarrow> (fresh, s'\<lparr>muMap := (key, fresh) # muMap s\<rparr>))"

definition lock_call :: "nat \<Rightarrow> string \<Rightarrow> lockState \<Rightarrow> lockState" where
  "lock_call t uid s = (case LoadOrStore (lockKey uid) s of
     (mu, s') \<Rightarrow> s'\<lparr>phase_of := (phase_of s')(t := Waiting uid mu)\<rparr>)"

definition lock_acquire :: "nat \<Rightarrow> string \<Rightarrow> nat \<Rightarrow> lockState \<Rightarrow> lockState" where
  "lock_acquire t uid mu s = s\<lparr>owner := (owner s)(mu := Some t), phase_of := (phase_of s)(t := Holding uid mu)\<rparr>"

definition lock_release :: "nat \<Rightarrow> nat \<Rightarrow> lockState \<Rightarrow> lockState" where
  "lock_release t mu s = s\<lparr>owner := (owner s)(mu := None), phase_of := (phase_of s)(t := Outside)\<rparr>"

inductive lock_step :: "lockState \<Rightarrow> lockState \<Rightarrow> bool" where
  call: "phase_of s t = Outside \<Longrightarrow> lock_step s (lock_call t uid s)"
| acquire: "phase_of s t = Waiting uid mu \<Longrightarrow> owner s mu = None \<Longrightarrow> lock_step s (lock_acquire t uid mu s)"
| release: "phase_of s t = Holding uid mu \<Longrightarrow> lock_step s (lock_release t mu s)"

inductive_cases lock_stepE: "lock_step s s'"

definition lock_init :: "lockState \<Rightarrow> bool" where
  "lock_init s \<longleftrightarrow> muMap s = [] \<and> owner s = (\<lambda>_. None) \<and> phase_of s = (\<lambda>_. Outside)"

section \<open>The invariant\<close>

text \<open>
  The map has one mutex for each key and different mutexes for different keys; goroutines use the
  mutex of their service; and a mutex is owned by exactly the goroutine that holds it.
\<close>

definition lock_inv :: "lockState \<Rightarrow> bool" where
  "lock_inv s \<longleftrightarrow>
     (\<forall>k mu. map_of (muMap s) k = Some mu \<longrightarrow> mu < allocated s) \<and>
     (\<forall>k j mu. map_of (muMap s) k = Some mu \<longrightarrow> map_of (muMap s) j = Some mu \<longrightarrow> k = j) \<and>
     (\<forall>t uid mu. phase_of s t = Waiting uid mu \<or> phase_of s t = Holding uid mu \<longrightarrow>
        map_of (muMap s) (lockKey uid) = Some mu) \<and>
     (\<forall>t uid mu. phase_of s t = Holding uid mu \<longrightarrow> owner s mu = Some t) \<and>
     (\<forall>t mu. owner s mu = Some t \<longrightarrow> (\<exists>uid. phase_of s t = Holding uid mu))"

lemma lock_invD:
  assumes "lock_inv s"
  shows "map_of (muMap s) k = Some mu \<Longrightarrow> mu < allocated s"
    and "map_of (muMap s) k = Some mu \<Longrightarrow> map_of (muMap s) j = Some mu \<Longrightarrow> k = j"
    and "phase_of s t = Waiting uid mu \<Longrightarrow> map_of (muMap s) (lockKey uid) = Some mu"
    and "phase_of s t = Holding uid mu \<Longrightarrow> map_of (muMap s) (lockKey uid) = Some mu"
    and "phase_of s t = Holding uid mu \<Longrightarrow> owner s mu = Some t"
    and "owner s mu = Some t \<Longrightarrow> \<exists>uid. phase_of s t = Holding uid mu"
  using assms unfolding lock_inv_def by blast+

lemma LoadOrStore_spec:
  assumes "lock_inv s" "LoadOrStore key s = (mu, s')"
  shows "map_of (muMap s') key = Some mu" "\<And>k v. map_of (muMap s) k = Some v \<Longrightarrow> map_of (muMap s') k = Some v"
    and "owner s' = owner s" "phase_of s' = phase_of s"
    and "\<And>k v. map_of (muMap s') k = Some v \<Longrightarrow> v < allocated s'"
    and "\<And>k j v. map_of (muMap s') k = Some v \<Longrightarrow> map_of (muMap s') j = Some v \<Longrightarrow> k = j"
  using assms(2) lock_invD(1,2) [OF assms(1)]
  by (auto simp: LoadOrStore_def Let_def split: option.splits if_splits) (blast intro: less_SucI | fastforce)+

lemma lock_call_inv:
  assumes "lock_inv s" "phase_of s t = Outside"
  shows "lock_inv (lock_call t uid s)"
proof -
  obtain mu s' where ls: "LoadOrStore (lockKey uid) s = (mu, s')" by fastforce
  note spec = LoadOrStore_spec [OF assms(1) ls]
  note inv = lock_invD [OF assms(1)]
  let ?s = "lock_call t uid s"
  have sel: "muMap ?s = muMap s'" "allocated ?s = allocated s'" "owner ?s = owner s"
    "phase_of ?s = (phase_of s)(t := Waiting uid mu)"
    by (simp_all add: lock_call_def ls spec(3,4))
  show ?thesis
    unfolding lock_inv_def sel
  proof (intro conjI allI impI)
    fix q u m assume "((phase_of s)(t := Waiting uid mu)) q = Waiting u m \<or> ((phase_of s)(t := Waiting uid mu)) q = Holding u m"
    then show "map_of (muMap s') (lockKey u) = Some m"
      using spec(1,2) inv(3,4) by (cases "q = t") auto
  next
    fix q u m assume "((phase_of s)(t := Waiting uid mu)) q = Holding u m"
    then show "owner s m = Some q" using inv(5) by (cases "q = t") auto
  next
    fix q m assume "owner s m = Some q"
    then obtain u where "phase_of s q = Holding u m" using inv(6) by blast
    then show "\<exists>u. ((phase_of s)(t := Waiting uid mu)) q = Holding u m" using assms(2) by auto
  qed (use spec(5,6) in blast)+
qed

lemma lock_acquire_inv:
  assumes "lock_inv s" "phase_of s t = Waiting uid mu" "owner s mu = None"
  shows "lock_inv (lock_acquire t uid mu s)"
proof -
  note inv = lock_invD [OF assms(1)]
  have sel: "muMap (lock_acquire t uid mu s) = muMap s" "allocated (lock_acquire t uid mu s) = allocated s"
    "owner (lock_acquire t uid mu s) = (owner s)(mu := Some t)"
    "phase_of (lock_acquire t uid mu s) = (phase_of s)(t := Holding uid mu)"
    by (simp_all add: lock_acquire_def)
  show ?thesis
    unfolding lock_inv_def sel
  proof (intro conjI allI impI)
    fix q u m assume "((phase_of s)(t := Holding uid mu)) q = Waiting u m \<or> ((phase_of s)(t := Holding uid mu)) q = Holding u m"
    then show "map_of (muMap s) (lockKey u) = Some m"
      using inv(3,4) assms(2) by (cases "q = t") auto
  next
    fix q u m assume h: "((phase_of s)(t := Holding uid mu)) q = Holding u m"
    show "((owner s)(mu := Some t)) m = Some q"
    proof (cases "q = t")
      case False
      with h have "owner s m = Some q" using inv(5) by simp
      with assms(3) show ?thesis by auto
    qed (use h in auto)
  next
    fix q m assume o: "((owner s)(mu := Some t)) m = Some q"
    show "\<exists>u. ((phase_of s)(t := Holding uid mu)) q = Holding u m"
    proof (cases "m = mu")
      case False
      with o obtain u where "phase_of s q = Holding u m" using inv(6) by auto
      with assms(2) show ?thesis by auto
    qed (use o in auto)
  qed (use inv(1,2) in blast)+
qed

lemma lock_release_inv:
  assumes "lock_inv s" "phase_of s t = Holding uid mu"
  shows "lock_inv (lock_release t mu s)"
proof -
  note inv = lock_invD [OF assms(1)]
  have sel: "muMap (lock_release t mu s) = muMap s" "allocated (lock_release t mu s) = allocated s"
    "owner (lock_release t mu s) = (owner s)(mu := None)" "phase_of (lock_release t mu s) = (phase_of s)(t := Outside)"
    by (simp_all add: lock_release_def)
  show ?thesis
    unfolding lock_inv_def sel
  proof (intro conjI allI impI)
    fix q u m assume "((phase_of s)(t := Outside)) q = Waiting u m \<or> ((phase_of s)(t := Outside)) q = Holding u m"
    then show "map_of (muMap s) (lockKey u) = Some m" using inv(3,4) by (cases "q = t") auto
  next
    fix q u m assume h: "((phase_of s)(t := Outside)) q = Holding u m"
    then have "q \<noteq> t" "owner s m = Some q" using inv(5) by (auto split: if_splits)
    then show "((owner s)(mu := None)) m = Some q" using inv(5) [OF assms(2)] by auto
  next
    fix q m assume "((owner s)(mu := None)) m = Some q"
    then have "m \<noteq> mu" "owner s m = Some q" by (auto split: if_splits)
    then obtain u where "phase_of s q = Holding u m" using inv(6) by blast
    with assms(2) \<open>m \<noteq> mu\<close> show "\<exists>u. ((phase_of s)(t := Outside)) q = Holding u m" by auto
  qed (use inv(1,2) in blast)+
qed

interpretation service_lock: invariant_system lock_init lock_step lock_inv
proof unfold_locales
  show "lock_init s \<Longrightarrow> lock_inv s" for s
    by (simp add: lock_init_def lock_inv_def)
  show "lock_inv s \<Longrightarrow> lock_step s s' \<Longrightarrow> lock_inv s'" for s s'
    by (auto elim!: lock_stepE intro: lock_call_inv lock_acquire_inv lock_release_inv)
qed

text \<open>A concrete run: one goroutine inside a handler of a service, another one waiting for it.\<close>

definition no_locks :: lockState where
  "no_locks = \<lparr>muMap = [], allocated = 0, owner = (\<lambda>_. None), phase_of = (\<lambda>_. Outside)\<rparr>"

definition one_inside :: lockState where
  "one_inside = lock_acquire 0 ''deadbeef'' 0 (lock_call 0 ''deadbeef'' no_locks)"

definition one_waiting :: lockState where
  "one_waiting = lock_call 1 ''deadbeef'' one_inside"

lemmas lock_sample_defs = no_locks_def one_inside_def one_waiting_def lock_call_def LoadOrStore_def Let_def
  lock_acquire_def lockKey_def

lemma no_locks_init: "lock_init no_locks"
  by (simp add: lock_init_def no_locks_def)

lemma one_inside_run: "lock_step\<^sup>*\<^sup>* no_locks one_inside"
proof -
  have "lock_step no_locks (lock_call 0 ''deadbeef'' no_locks)"
    by (rule lock_step.call) (simp add: no_locks_def)
  moreover have "lock_step (lock_call 0 ''deadbeef'' no_locks) one_inside"
    unfolding one_inside_def by (rule lock_step.acquire) (simp_all add: lock_sample_defs)
  ultimately show ?thesis by (meson rtranclp.rtrancl_refl rtranclp.rtrancl_into_rtrancl)
qed

lemma one_waiting_run: "lock_step\<^sup>*\<^sup>* no_locks one_waiting"
proof -
  have "lock_step one_inside one_waiting"
    unfolding one_waiting_def by (rule lock_step.call) (simp add: lock_sample_defs)
  with one_inside_run show ?thesis by (rule rtranclp.rtrancl_into_rtrancl)
qed

section \<open>Properties\<close>

text \<open>
  C17. Mutual exclusion: however the goroutines interleave, no two of them are inside handlers of the
  same service at the same time.
\<close>

theorem lock_mutual_exclusion:
  assumes "lock_init s0" "lock_step\<^sup>*\<^sup>* s0 s" "phase_of s t = Holding uid mu" "phase_of s t' = Holding uid mu'"
  shows "t = t'"
proof -
  note inv = lock_invD [OF service_lock.inv_reachable [OF assms(1,2)]]
  have "mu = mu'" using inv(4) [OF assms(3)] inv(4) [OF assms(4)] by simp
  then show ?thesis using inv(5) [OF assms(3)] inv(5) [OF assms(4)] by simp
qed

theorem lock_mutual_exclusion_witness: "{t. \<exists>mu. phase_of one_waiting t = Holding ''deadbeef'' mu} = {0}"
proof -
  have inside: "phase_of one_waiting 0 = Holding ''deadbeef'' 0" by (simp add: lock_sample_defs)
  show ?thesis
    using inside lock_mutual_exclusion [OF no_locks_init one_waiting_run inside] by blast
qed

text \<open>
  C18. Services do not block each other: a goroutine that waits for the lock of a service can take it
  at once unless another goroutine is inside a handler of that same service, and the mutex is free
  again after that one has left.
\<close>

theorem lock_independence:
  assumes "lock_init s0" "lock_step\<^sup>*\<^sup>* s0 s" "phase_of s t = Waiting uid mu"
  shows "lock_step s (lock_acquire t uid mu s) \<or>
    (\<exists>t'. phase_of s t' = Holding uid mu \<and> lock_step s (lock_release t' mu s) \<and>
       lock_step (lock_release t' mu s) (lock_acquire t uid mu (lock_release t' mu s)))"
proof -
  note inv = lock_invD [OF service_lock.inv_reachable [OF assms(1,2)]]
  show ?thesis
  proof (cases "owner s mu")
    case None
    with assms(3) show ?thesis using lock_step.acquire by blast
  next
    case (Some t')
    then obtain u where holds: "phase_of s t' = Holding u mu" using inv(6) by blast
    then have "u = uid" using inv(2) [OF inv(4) [OF holds] inv(3) [OF assms(3)]] by (simp add: lockKey_def)
    moreover have "t \<noteq> t'" using holds assms(3) by auto
    then have "lock_step (lock_release t' mu s) (lock_acquire t uid mu (lock_release t' mu s))"
      using assms(3) by (intro lock_step.acquire) (simp_all add: lock_release_def)
    ultimately show ?thesis using holds lock_step.release by blast
  qed
qed

theorem lock_independence_witness:
  "lock_step one_waiting (lock_acquire 1 ''deadbeef'' 0 one_waiting) \<or>
   (\<exists>t'. phase_of one_waiting t' = Holding ''deadbeef'' 0 \<and> lock_step one_waiting (lock_release t' 0 one_waiting) \<and>
      lock_step (lock_release t' 0 one_waiting) (lock_acquire 1 ''deadbeef'' 0 (lock_release t' 0 one_waiting)))"
  by (rule lock_independence [OF no_locks_init one_waiting_run]) (simp add: lock_sample_defs)

end
