(* ===== verification/Loadbalancer.thy ===== *)
theory Loadbalancer
  imports Reconcile_Loop Reconcile_Actual Server_Mapper Kubeutil Service_Lock
begin

text \<open>
  The load balancer interface of the cloud provider (\<open>src/pkg/cloudscale_ccm/loadbalancer.go\<close>), the
  handlers through which Kubernetes asks for a load balancer, and the checks in front of them.

  Two of the calls loop without a bound: the reconciliation, and the paged listing of services. A
  handler therefore takes fuel and is \<open>None\<close> when it runs out. The theorem \<open>reconcile_deadline\<close> of
  \<open>Reconcile_Loop\<close> and the theorem on \<open>findIPsAssignedElsewhere\<close> below say how much is enough.

  \<open>l_lock\<close> and \<open>l_unlock\<close> are the effects of \<open>lockForService\<close> and of the function it returns; the
  interleaving of goroutines at these two points is the subject of \<open>Service_Lock\<close>.
\<close>

section \<open>Effects with fuel\<close>

type_synonym ('w, 'a) fio = "'w \<Rightarrow> ('a res \<times> 'w) option"

definition run_io :: "('w, 'a) io \<Rightarrow> ('w, 'a) fio" where
  "run_io m w = Some (m w)"

definition bind_fio :: "('w, 'a) fio \<Rightarrow> ('a \<Rightarrow> ('w, 'b) fio) \<Rightarrow> ('w, 'b) fio" where
  "bind_fio m f w = (case m w of
       None \<Rightarrow> None
     | Some (Ok x, w') \<Rightarrow> f x w'
     | Some (Err e, w') \<Rightarrow> Some (Err e, w')
     | Some (Panic s, w') \<Rightarrow> Some (Panic s, w'))"

lemma run_io_apply [simp]: "run_io m w = Some (m w)"
  by (simp add: run_io_def)

lemma bind_fio_eq_Ok:
  "bind_fio m f w = Some (Ok y, w'') \<longleftrightarrow> (\<exists>x w'. m w = Some (Ok x, w') \<and> f x w' = Some (Ok y, w''))"
  by (auto simp: bind_fio_def split: option.splits prod.splits res.splits)

section \<open>State\<close>

record 'w loadbalancer =
  l_client :: "'w client"
  l_k8s :: "'w k8s option"
  l_Event :: "Service \<Rightarrow> string \<Rightarrow> string \<Rightarrow> string \<Rightarrow> 'w \<Rightarrow> 'w"
  l_lock :: "string \<Rightarrow> 'w \<Rightarrow> 'w"
  l_unlock :: "string \<Rightarrow> 'w \<Rightarrow> 'w"
  l_range :: "'w \<Rightarrow> order"

record LoadBalancerIngress =
  ing_IP :: string
  ing_Hostname :: string
  ing_IPMode :: "string option"

type_synonym LoadBalancerStatus = "LoadBalancerIngress list"

section \<open>Checks\<close>

definition filterNodesBySelector :: "ext \<Rightarrow> serviceInfo \<Rightarrow> Node list \<Rightarrow> Node list res" where
  "filterNodesBySelector x info nodes =
     (let v = annotation info LoadBalancerNodeSelector in
      bind_res
        (if v \<noteq> [] then wrap_res ''unable to parse selector: '' (res_of_sum (x_labels_Parse x v))
         else Ok (\<lambda>labels. True))
        (\<lambda>selector. Ok [node \<leftarrow> nodes. selector (node_Labels node)]))"

text \<open>The floating IPs of a service other than the given one; none for other kinds of services and unreadable lists.\<close>

definition other_ips :: "serviceInfo \<Rightarrow> Service \<Rightarrow> string list" where
  "other_ips info service =
     (if svc_Type service \<noteq> ''LoadBalancer'' then []
      else if svc_UID service = svc_UID (si_Service info) then []
      else case newServiceInfo (Some service) (si_clusterName info) of
          Ok otherInfo \<Rightarrow> (case annotationList otherInfo LoadBalancerFloatingIPs of Ok other \<Rightarrow> other | _ \<Rightarrow> [])
        | _ \<Rightarrow> [])"

definition service_conflicts :: "serviceInfo \<Rightarrow> string list \<Rightarrow> string go_map \<Rightarrow> Service \<Rightarrow> string go_map" where
  "service_conflicts info ips conflicts service =
     foldl (\<lambda>m ip. if ip \<in> set ips then AList.update ip (svc_Name service) m else m) conflicts (other_ips info service)"

text \<open>The loop over the pages of services, one unit of fuel for each page.\<close>

fun conflict_pages ::
  "'w k8s \<Rightarrow> serviceInfo \<Rightarrow> string list \<Rightarrow> nat \<Rightarrow> string \<Rightarrow> string go_map \<Rightarrow> ('w, string go_map) fio" where
  "conflict_pages k info ips 0 cont conflicts w = None"
| "conflict_pages k info ips (Suc fuel) cont conflicts w = (case Services_List k cont 250 w of
       (Inl e, w') \<Rightarrow> Some (Err (Wrapped ''failed to retrieve services: '' e), w')
     | (Inr services, w') \<Rightarrow>
         let conflicts' = foldl (service_conflicts info ips) conflicts (page_Items services) in
         if page_Continue services = [] then Some (Ok conflicts', w')
         else conflict_pages k info ips fuel (page_Continue services) conflicts' w')"

definition findIPsAssignedElsewhere :: "'w loadbalancer \<Rightarrow> serviceInfo \<Rightarrow> nat \<Rightarrow> ('w, string go_map) fio" where
  "findIPsAssignedElsewhere l info fuel =
     bind_fio (run_io (res_io (annotationList info LoadBalancerFloatingIPs))) (\<lambda>ips w.
       if length ips = 0 then Some (Ok [], w)
       else case l_k8s l of
           None \<Rightarrow> Some (Panic ''nil pointer dereference'', w)
         | Some k \<Rightarrow> conflict_pages k info ips fuel [] [] w)"

definition ensureValidConfig :: "'w loadbalancer \<Rightarrow> serviceInfo \<Rightarrow> nat \<Rightarrow> ('w, unit) fio" where
  "ensureValidConfig l info fuel w = (case isSupported info of
       (False, err) \<Rightarrow> Some (unit_res err, w)
     | (True, _) \<Rightarrow> (case findIPsAssignedElsewhere l info fuel w of
           None \<Rightarrow> None
         | Some (Err e, w') \<Rightarrow> Some (Err (ErrorMsg (''could not parse '' @ LoadBalancerFloatingIPs)), w')
         | Some (Panic m, w') \<Rightarrow> Some (Panic m, w')
         | Some (Ok ips, w') \<Rightarrow>
             if length ips > 0 then
               Some (Err (ErrorMsg (''at least one Floating IP assigned to service '' @ svc_Name (si_Service info) @
                 '' is also assigned to another service. Refusing to continue to avoid flapping: '' @
                 strings_Join (map (\<lambda>(ip, service). ip @ ''->'' @ service) (go_range (l_range l w') ips)) '', '')), w')
             else Some (Ok (), w')))"

definition loadBalancerStatus :: "'w loadbalancer \<Rightarrow> serviceInfo \<Rightarrow> LoadBalancer \<Rightarrow> ('w, LoadBalancerStatus) io" where
  "loadBalancerStatus l info lb =
     (let hostname = annotation info LoadBalancerForceHostname;
          ipMode = annotation info LoadBalancerIPMode in
      if length hostname > 0 then return_io [\<lparr>ing_IP = [], ing_Hostname = hostname, ing_IPMode = None\<rparr>]
      else if ipMode \<noteq> ''Proxy'' \<and> ipMode \<noteq> ''VIP'' then
        res_io (Err (ErrorMsg (''unsupported IP mode: '' @ [CHR 0x27] @ ipMode @ [CHR 0x27] @
          '', must be '' @ [CHR 0x27] @ ''Proxy'' @ [CHR 0x27] @ '' or '' @ [CHR 0x27] @ ''VIP'' @ [CHR 0x27])))
      else bind_io
        (wrap_io ''failed to get load balancer status: '' (IsKubernetesReleaseOrNewer (l_k8s l) 1 30))
        (\<lambda>supportsIPMode. return_io (map (\<lambda>address. \<lparr>ing_IP = vip_Address address, ing_Hostname = [],
           ing_IPMode = (if supportsIPMode then Some ipMode else None)\<rparr>) (lb_VIPAddresses lb))))"

section \<open>Handlers\<close>

text \<open>
  What \<open>GetLoadBalancer\<close> returns: status, whether the load balancer exists, and an error. The last two
  are returned together when only the status could not be found out.
\<close>

definition GetLoadBalancer ::
  "'w loadbalancer \<Rightarrow> string \<Rightarrow> Service \<Rightarrow> ('w, LoadBalancerStatus option \<times> bool \<times> error option) io" where
  "GetLoadBalancer l clusterName service =
     bind_io (res_io (newServiceInfo (Some service) clusterName)) (\<lambda>info.
       if \<not> fst (isSupported info) then return_io (None, False, None)
       else (\<lambda>w. case findByServiceInfo (l_client l) info w of (found, w') \<Rightarrow>
         (case limiter_AtMostOne found of
            Err e \<Rightarrow> (Ok (None, False, Some (Wrapped (''unable to get load balancer for '' @ svc_Name service @ '': '') e)), w')
          | Panic m \<Rightarrow> (Panic m, w')
          | Ok None \<Rightarrow> (Ok (None, False, None), w')
          | Ok (Some instance) \<Rightarrow> (case loadBalancerStatus l info instance w' of
                (Ok result, w'') \<Rightarrow> (Ok (Some result, True, None), w'')
              | (Err e, w'') \<Rightarrow>
                  (Ok (None, True, Some (Wrapped (''unable to get load balancer state for '' @ svc_Name service @ '': '') e)), w'')
              | (Panic m, w'') \<Rightarrow> (Panic m, w'')))))"

definition GetLoadBalancerName :: "string \<Rightarrow> Service \<Rightarrow> string res" where
  "GetLoadBalancerName clusterName service =
     bind_res (newServiceInfo (Some service) clusterName) (\<lambda>info. Ok (annotation info LoadBalancerName))"

text \<open>\<open>unlock := l.lockForService(service.UID); defer unlock()\<close>\<close>

definition with_lock :: "'w loadbalancer \<Rightarrow> Service \<Rightarrow> ('w, 'a) fio \<Rightarrow> ('w, 'a) fio" where
  "with_lock l service body w =
     (case body (l_lock l (lockKey (svc_UID service)) w) of
        None \<Rightarrow> None
      | Some (r, w') \<Rightarrow> Some (r, l_unlock l (lockKey (svc_UID service)) w'))"

text \<open>The event for a service without nodes.\<close>

definition warn_no_nodes :: "'w loadbalancer \<Rightarrow> Service \<Rightarrow> serviceInfo \<Rightarrow> Node list \<Rightarrow> ('w, unit) io" where
  "warn_no_nodes l service info filteredNodes w =
     (Ok (), if length filteredNodes = 0 then
        l_Event l service ''Warning'' ''NoValidNodes''
          (''No valid nodes for service found, double-check node-selector annotation: '' @
           LoadBalancerNodeSelector @ '': '' @ annotation info LoadBalancerNodeSelector) w
      else w)"

text \<open>The two functions the handlers pass to the reconciliation.\<close>

definition desired_func :: "ext \<Rightarrow> 'w loadbalancer \<Rightarrow> Service \<Rightarrow> serviceInfo \<Rightarrow> Node list \<Rightarrow> ('w, lbState option) io" where
  "desired_func x l service info filteredNodes =
     bind_io (\<lambda>w. case mapNodes x (l_client l) (map Some filteredNodes) w of (found, w') \<Rightarrow>
         (wrap_res (''unable to get load balancer for '' @ svc_Name service @ '': '') (limiter_All found), w'))
       (\<lambda>servers. res_io (bind_res (desiredLbState x info filteredNodes servers) (\<lambda>s. Ok (Some s))))"

definition actual_func :: "'w loadbalancer \<Rightarrow> serviceInfo \<Rightarrow> ('w, lbState option) io" where
  "actual_func l info = bind_io (actualLbState (l_client l) info) (\<lambda>s. return_io (Some s))"

text \<open>The part that \<open>EnsureLoadBalancer\<close> and \<open>UpdateLoadBalancer\<close> share, up to the end of the reconciliation.\<close>

definition reconcile_service :: "ext \<Rightarrow> 'w loadbalancer \<Rightarrow> nat \<Rightarrow> Service \<Rightarrow> serviceInfo \<Rightarrow> Node list \<Rightarrow> ('w, unit) fio" where
  "reconcile_service x l fuel service info nodes =
     bind_fio (ensureValidConfig l info fuel) (\<lambda>_.
     bind_fio (run_io (res_io (filterNodesBySelector x info nodes))) (\<lambda>filteredNodes.
     bind_fio (run_io (warn_no_nodes l service info filteredNodes)) (\<lambda>_.
       reconcileLbState x (l_client l) (desired_func x l service info filteredNodes) (actual_func l info) fuel)))"

text \<open>The end of \<open>EnsureLoadBalancer\<close>: annotate the service and report the status.\<close>

definition annotate_and_report ::
  "'w loadbalancer \<Rightarrow> Service \<Rightarrow> serviceInfo \<Rightarrow> lbState \<Rightarrow> ('w, LoadBalancerStatus) io" where
  "annotate_and_report l service info actual =
     (let version = annotation info LoadBalancerConfigVersion in
      case st_lb actual of
        None \<Rightarrow> res_io (Panic ''nil pointer dereference'')
      | Some lb \<Rightarrow>
          bind_io (wrap_io (''unable to annotate service '' @ svc_Name service @ '': '')
            (AnnotateService (l_k8s l) (si_Service info)
               [LoadBalancerUUID, lb_UUID lb, LoadBalancerConfigVersion, version, LoadBalancerZone, lb_ZoneSlug lb]))
          (\<lambda>_. wrap_io (''unable to get load balancer state for '' @ svc_Name service @ '': '')
            (loadBalancerStatus l info lb)))"

definition EnsureLoadBalancer ::
  "ext \<Rightarrow> 'w loadbalancer \<Rightarrow> nat \<Rightarrow> string \<Rightarrow> Service \<Rightarrow> Node list \<Rightarrow> ('w, LoadBalancerStatus) fio" where
  "EnsureLoadBalancer x l fuel clusterName service nodes =
     with_lock l service (
       bind_fio (run_io (res_io (newServiceInfo (Some service) clusterName))) (\<lambda>info.
       bind_fio (reconcile_service x l fuel service info nodes) (\<lambda>_.
       bind_fio (run_io (actualLbState (l_client l) info)) (\<lambda>actual.
         run_io (annotate_and_report l service info actual)))))"

definition UpdateLoadBalancer ::
  "ext \<Rightarrow> 'w loadbalancer \<Rightarrow> nat \<Rightarrow> string \<Rightarrow> Service \<Rightarrow> Node list \<Rightarrow> ('w, unit) fio" where
  "UpdateLoadBalancer x l fuel clusterName service nodes =
     with_lock l service (
       bind_fio (run_io (res_io (newServiceInfo (Some service) clusterName))) (\<lambda>info.
         reconcile_service x l fuel service info nodes))"

definition EnsureLoadBalancerDeleted ::
  "ext \<Rightarrow> 'w loadbalancer \<Rightarrow> nat \<Rightarrow> string \<Rightarrow> Service \<Rightarrow> ('w, unit) fio" where
  "EnsureLoadBalancerDeleted x l fuel clusterName service =
     with_lock l service (
       bind_fio (run_io (res_io (newServiceInfo (Some service) clusterName))) (\<lambda>info.
       bind_fio (ensureValidConfig l info fuel) (\<lambda>_.
         reconcileLbState x (l_client l) (return_io (Some empty_lbState)) (actual_func l info) fuel)))"

section \<open>Laws\<close>

lemma conflicts_fold:
  "fst ` set (foldl (\<lambda>m ip. if ip \<in> set ips then AList.update ip n m else m) m0 other) = fst ` set m0 \<union> (set ips \<inter> set other)"
  by (induction other arbitrary: m0) (auto simp: update_dom)

lemma service_conflicts_dom:
  "fst ` set (service_conflicts info ips m service) = fst ` set m \<union> (set ips \<inter> set (other_ips info service))"
  by (simp add: service_conflicts_def conflicts_fold)

lemma page_conflicts_dom:
  "fst ` set (foldl (service_conflicts info ips) m services) =
     fst ` set m \<union> (set ips \<inter> (\<Union>s \<in> set services. set (other_ips info s)))"
  by (induction services arbitrary: m) (auto simp: service_conflicts_dom)

text \<open>The service listing delivers the given pages, one for each call, and then ends.\<close>

fun serves_pages :: "'w k8s \<Rightarrow> string \<Rightarrow> Service list list \<Rightarrow> 'w \<Rightarrow> 'w \<Rightarrow> bool" where
  "serves_pages k cont [] w w' = False"
| "serves_pages k cont (page # pages) w w' \<longleftrightarrow>
     (\<exists>cont' w1. Services_List k cont 250 w = (Inr \<lparr>page_Items = page, page_Continue = cont'\<rparr>, w1) \<and>
        (if pages = [] then cont' = [] \<and> w1 = w' else cont' \<noteq> [] \<and> serves_pages k cont' pages w1 w'))"

lemma conflict_pages_dom:
  assumes "serves_pages k cont pages w w'" "length pages \<le> fuel"
  shows "\<exists>m'. conflict_pages k info ips fuel cont m w = Some (Ok m', w') \<and>
    fst ` set m' = fst ` set m \<union> (set ips \<inter> (\<Union>s \<in> set (concat pages). set (other_ips info s)))"
  using assms
proof (induction pages arbitrary: fuel cont m w)
  case (Cons page pages)
  from Cons.prems(1) obtain cont' w1 where
    call: "Services_List k cont 250 w = (Inr \<lparr>page_Items = page, page_Continue = cont'\<rparr>, w1)" and
    rest: "if pages = [] then cont' = [] \<and> w1 = w' else cont' \<noteq> [] \<and> serves_pages k cont' pages w1 w'" by auto
  from Cons.prems(2) obtain f where f: "fuel = Suc f" "length pages \<le> f" by (cases fuel) auto
  let ?m = "foldl (service_conflicts info ips) m page"
  show ?case
  proof (cases "pages = []")
    case True
    with call rest f(1) show ?thesis by (simp add: page_conflicts_dom)
  next
    case False
    with rest obtain m' where "conflict_pages k info ips f cont' ?m w1 = Some (Ok m', w')"
      "fst ` set m' = fst ` set ?m \<union> (set ips \<inter> (\<Union>s \<in> set (concat pages). set (other_ips info s)))"
      using Cons.IH [OF _ f(2), of cont' w1 ?m] by auto
    with False rest call f(1) show ?thesis by (auto simp: page_conflicts_dom)
  qed
qed simp

lemma other_ips_mem:
  "ip \<in> set (other_ips info s) \<longleftrightarrow>
     svc_Type s = ''LoadBalancer'' \<and> svc_UID s \<noteq> svc_UID (si_Service info) \<and>
     (\<exists>other. annotationList \<lparr>si_Service = s, si_clusterName = si_clusterName info\<rparr> LoadBalancerFloatingIPs = Ok other \<and>
        ip \<in> set other)"
  by (cases "annotationList \<lparr>si_Service = s, si_clusterName = si_clusterName info\<rparr> LoadBalancerFloatingIPs")
     (simp_all add: other_ips_def)

text \<open>The checks do not use the cloudscale client.\<close>

lemma ensureValidConfig_client: "ensureValidConfig (l\<lparr>l_client := c\<rparr>) info fuel w = ensureValidConfig l info fuel w"
proof -
  have "findIPsAssignedElsewhere (l\<lparr>l_client := c\<rparr>) info fuel w = findIPsAssignedElsewhere l info fuel w"
    by (simp add: findIPsAssignedElsewhere_def cong: if_cong)
  moreover have "l_range (l\<lparr>l_client := c\<rparr>) = l_range l" by simp
  ultimately show ?thesis unfolding ensureValidConfig_def by (simp only:)
qed

lemma with_lock_Some:
  "with_lock l service body w = Some (r, w') \<longleftrightarrow>
     (\<exists>v. body (l_lock l (lockKey (svc_UID service)) w) = Some (r, v) \<and> w' = l_unlock l (lockKey (svc_UID service)) v)"
  by (auto simp: with_lock_def split: option.split)

text \<open>A valid configuration: the service is supported and shares no floating IP with another service.\<close>

lemma ensureValidConfig_Ok:
  "ensureValidConfig l info fuel w = Some (Ok (), w') \<longleftrightarrow>
     svc_LoadBalancerClass (si_Service info) = None \<and> findIPsAssignedElsewhere l info fuel w = Some (Ok [], w')"
  by (auto simp: ensureValidConfig_def isSupported_def unit_res_def split: option.splits prod.splits res.splits)

text \<open>The way through a successful \<open>EnsureLoadBalancer\<close>.\<close>

lemma EnsureLoadBalancer_Ok:
  assumes "EnsureLoadBalancer x l fuel cluster service nodes w = Some (Ok status, w')"
  obtains filtered v0 v3 s lb v4 v5 v6 where
    "filterNodesBySelector x \<lparr>si_Service = service, si_clusterName = cluster\<rparr> nodes = Ok filtered"
    "reconcileLbState x (l_client l) (desired_func x l service \<lparr>si_Service = service, si_clusterName = cluster\<rparr> filtered)
       (actual_func l \<lparr>si_Service = service, si_clusterName = cluster\<rparr>) fuel v0 = Some (Ok (), v3)"
    "actualLbState (l_client l) \<lparr>si_Service = service, si_clusterName = cluster\<rparr> v3 = (Ok s, v4)" "st_lb s = Some lb"
    "AnnotateService (l_k8s l) service
       [LoadBalancerUUID, lb_UUID lb, LoadBalancerConfigVersion, ''1'', LoadBalancerZone, lb_ZoneSlug lb] v4 = (Ok (), v5)"
    "loadBalancerStatus l \<lparr>si_Service = service, si_clusterName = cluster\<rparr> lb v5 = (Ok status, v6)"
    "w' = l_unlock l (lockKey (svc_UID service)) v6"
proof -
  let ?info = "\<lparr>si_Service = service, si_clusterName = cluster\<rparr>"
  from assms obtain v filtered v0 v3 s v4 where
    steps: "filterNodesBySelector x ?info nodes = Ok filtered"
    "reconcileLbState x (l_client l) (desired_func x l service ?info filtered) (actual_func l ?info) fuel v0 = Some (Ok (), v3)"
    "actualLbState (l_client l) ?info v3 = (Ok s, v4)" and
    rest: "annotate_and_report l service ?info s v4 = (Ok status, v)" and
    w': "w' = l_unlock l (lockKey (svc_UID service)) v"
    by (auto simp: EnsureLoadBalancer_def with_lock_Some bind_fio_eq_Ok reconcile_service_def)
  from rest obtain lb where lb: "st_lb s = Some lb" by (cases "st_lb s") (simp_all add: annotate_and_report_def)
  with rest obtain v5 where "AnnotateService (l_k8s l) service
       [LoadBalancerUUID, lb_UUID lb, LoadBalancerConfigVersion, ''1'', LoadBalancerZone, lb_ZoneSlug lb] v4 = (Ok (), v5)"
    "loadBalancerStatus l ?info lb v5 = (Ok status, v)"
    by (auto simp: annotate_and_report_def bind_io_eq_Ok wrap_io_eq_Ok)
  with steps lb w' that show thesis by blast
qed

text \<open>
  A load balancer that is gone after the reconciliation: the handler reads its UUID through a nil
  pointer.
\<close>

lemma EnsureLoadBalancer_missing_panics:
  assumes "info = \<lparr>si_Service = service, si_clusterName = cluster\<rparr>"
    and "reconcile_service x l fuel service info nodes (l_lock l (lockKey (svc_UID service)) w) = Some (Ok (), v)"
    and "actualLbState (l_client l) info v = (Ok s, v')" "st_lb s = None"
  shows "EnsureLoadBalancer x l fuel cluster service nodes w =
    Some (Panic ''nil pointer dereference'', l_unlock l (lockKey (svc_UID service)) v')"
  using assms by (simp add: EnsureLoadBalancer_def with_lock_def bind_fio_def annotate_and_report_def)

lemma desired_func_Ok:
  assumes "desired_func x l service info nodes v = (Ok (Some d), v1)"
  obtains found servers where "mapNodes x (l_client l) (map Some nodes) v = (found, v1)" "limiter_All found = Ok servers"
    "desiredLbState x info nodes servers = Ok d"
proof -
  obtain found v' where m: "mapNodes x (l_client l) (map Some nodes) v = (found, v')" by fastforce
  with assms that show thesis by (auto simp: desired_func_def bind_io_eq_Ok)
qed

lemma desiredLbState_lb: "desiredLbState x info nodes servers = Ok s \<Longrightarrow> \<exists>lb. st_lb s = Some lb"
  by (elim desiredLbState_Ok) (auto dest!: desired_ports_frame(1))

section \<open>A concrete service\<close>

text \<open>A service without annotations and ports, whose load balancer exists.\<close>

definition plain_service :: Service where
  "plain_service = sample_service\<lparr>svc_Annotations := None, svc_Ports := []\<rparr>"

definition plain_info :: serviceInfo where
  "plain_info = \<lparr>si_Service = plain_service, si_clusterName = ''kubernetes''\<rparr>"

definition plain_client :: "unit client" where
  "plain_client = idle_client\<lparr>LoadBalancers_List := (\<lambda>w. (Inr [sample_lb], w)), Servers_List := (\<lambda>w. (Inr [sample_server], w))\<rparr>"

definition sample_loadbalancer :: "unit loadbalancer" where
  "sample_loadbalancer = \<lparr>l_client = plain_client, l_k8s = Some sample_k8s, l_Event = (\<lambda>s t r m w. w),
     l_lock = (\<lambda>k w. w), l_unlock = (\<lambda>k w. w), l_range = (\<lambda>w. id)\<rparr>"

text \<open>A cluster with another service that has the same floating IPs.\<close>

definition shared_k8s :: "unit k8s" where
  "shared_k8s = sample_k8s\<lparr>Services_List := (\<lambda>cont limit w.
     (Inr \<lparr>page_Items = [sample_service\<lparr>svc_UID := ''cafe''\<rparr>], page_Continue = []\<rparr>, w))\<rparr>"

lemma sample_loadbalancer_sel [simp]:
  "l_client sample_loadbalancer = plain_client" "l_k8s sample_loadbalancer = Some sample_k8s"
  "l_lock sample_loadbalancer u w = w" "l_unlock sample_loadbalancer u w = w"
  by (simp_all add: sample_loadbalancer_def)

lemma plain_service_sel [simp]:
  "svc_Annotations (si_Service plain_info) = None" "svc_Ports (si_Service plain_info) = []"
  "svc_LoadBalancerClass (si_Service plain_info) = None"
  by (simp_all add: plain_info_def plain_service_def sample_service_def)

lemma plain_defaults:
  "annotation plain_info LoadBalancerZone = []" "annotation plain_info LoadBalancerUUID = []"
  "annotation plain_info LoadBalancerName = ''k8s-service-deadbeef''" "annotation plain_info LoadBalancerFlavor = ''lb-standard''"
  "annotation plain_info LoadBalancerFloatingIPs = ''[]''" "annotation plain_info LoadBalancerVIPAddresses = ''[]''"
  "annotation plain_info LoadBalancerNodeSelector = []" "annotation plain_info LoadBalancerForceHostname = []"
  "annotation plain_info LoadBalancerIPMode = ''Proxy''"
  by (simp_all add: annotation_defaults annotationOrDefault_absent annotation_Name annotationOrElse_def)
     (simp add: plain_info_def plain_service_def sample_service_def)

lemma plain_floating: "annotationList plain_info LoadBalancerFloatingIPs = Ok []"
proof -
  have "strings_Trim ''[]'' '' '' = ''[]''" "json_Unmarshal_list ''[]'' = Inr []" by code_simp+
  then show ?thesis by (simp add: annotationList_def plain_defaults)
qed

lemma plain_config: "ensureValidConfig sample_loadbalancer plain_info fuel () = Some (Ok (), ())"
  by (simp add: ensureValidConfig_Ok findIPsAssignedElsewhere_def bind_fio_def plain_floating)

lemma plain_nodes: "filterNodesBySelector sample_ext plain_info [sample_node] = Ok [sample_node]"
  by (simp add: filterNodesBySelector_def plain_defaults)

lemma plain_actual: "actualLbState plain_client plain_info () = (Ok (newLbState sample_lb), ())"
proof -
  have lists: "Monitors_List plain_client () = (Inr [], ())" "Listeners_List plain_client () = (Inr [], ())"
    "Pools_List plain_client () = (Inr [], ())" "FloatingIPs_List plain_client () = (Inr [], ())"
    "LoadBalancers_List plain_client () = (Inr [sample_lb], ())"
    by (simp_all add: plain_client_def idle_client_def)
  have "append_at None [] f = f" for f :: "pool_ptr \<Rightarrow> LoadBalancerListener list" by (simp add: append_at_def)
  then have "loaded_lbState plain_client sample_lb () = (Ok (newLbState sample_lb), ())"
    by (simp add: loaded_lbState_def bind_io_apply wrap_io_apply sdk_call_def lists)
  moreover have "findByServiceInfo plain_client plain_info () = (limiter_New None [sample_lb], ())"
    by (simp add: findByServiceInfo_def lb_findByName_def plain_defaults lists) (simp add: sample_lb_def)
  ultimately show ?thesis
    by (simp add: actualLbState_def bind_io_apply wrap_io_apply limiter_AtMostOne_def limiter_New_def)
qed

definition plain_lb :: LoadBalancer where
  "plain_lb = \<lparr>lb_UUID = [], lb_HREF = [], lb_Name = ''k8s-service-deadbeef'', lb_Status = [],
     lb_FlavorSlug = ''lb-standard'', lb_ZoneSlug = ''lpg1'', lb_VIPAddresses = []\<rparr>"

lemma plain_desired: "desired_func sample_ext sample_loadbalancer plain_service plain_info [sample_node] () = (Ok (Some (newLbState plain_lb)), ())"
proof -
  have "findByNode sample_ext plain_client (Some sample_node) () = (limiter_New None [sample_server], ())"
    by (simp add: findByNode_def srv_findByName_def sample_node_def plain_client_def) (simp add: sample_server_def)
  then have "mapNodes sample_ext plain_client [Some sample_node] () = (limiter_New None [sample_server], ())"
    by (simp add: mapNodes_def limiter_One_def limiter_New_def)
  moreover have "desired_zone plain_info [sample_server] = Ok ''lpg1''"
    by (simp add: desired_zone_def plain_defaults) (simp add: sample_server_def)
  moreover have "annotationMarshal (x_json_vip sample_ext) plain_info LoadBalancerVIPAddresses = Ok []"
    by (simp add: annotationMarshal_def plain_defaults) (simp add: sample_ext_def)
  moreover have "newLbState plain_lb\<lparr>st_floatingIPs := []\<rparr> = newLbState plain_lb"
    by (simp add: newLbState_def empty_lbState_def)
  ultimately show ?thesis
    by (simp add: desired_func_def bind_io_apply limiter_All_def limiter_New_def desiredLbState_def plain_floating
        plain_defaults desired_vips_def Let_def plain_lb_def [symmetric])
qed

lemma plain_round:
  "reconcile_round sample_ext plain_client (desired_func sample_ext sample_loadbalancer plain_service plain_info [sample_node])
     (actual_func sample_loadbalancer plain_info) () = (Some (Ok ()), ())"
proof -
  have "change_actions sample_ext (range_orders plain_client ()) plain_lb sample_lb (newLbState plain_lb) (newLbState sample_lb) = Ok [AwaitLbAction sample_lb]"
    by (simp add: change_actions_def assign_floating_def Diff_def missing_from_def go_range_def List.map_filter_def
        plain_client_def idle_client_def) (simp add: plain_lb_def sample_lb_def)
  moreover have "same_fixed plain_lb sample_lb" by (simp add: same_fixed_def plain_lb_def sample_lb_def)
  ultimately have "nextLbActions sample_ext (range_orders plain_client ()) (Some (newLbState plain_lb)) (Some (newLbState sample_lb)) = Ok [AwaitLbAction sample_lb]"
    using nextLbActions_fixed(1) [of "newLbState plain_lb" plain_lb "newLbState sample_lb" sample_lb] by simp
  moreover have "runActions sample_ext plain_client [AwaitLbAction sample_lb] () = (Ok False, ())"
    by (simp add: plain_client_def idle_client_def sample_lb_def control_defs)
  ultimately show ?thesis
    by (simp add: reconcile_round_def bind_io_apply plain_desired actual_func_def plain_actual)
qed

section \<open>Properties\<close>

text \<open>
  C23. Conflicting floating IPs are found, all of them and nothing else, across all pages of the
  service listing: the result names exactly the floating IPs of the service that some other service
  of type \<open>LoadBalancer\<close> with a readable list also has. As much fuel as there are pages is enough.
\<close>

theorem findIPsAssignedElsewhere_exact:
  assumes "annotationList info LoadBalancerFloatingIPs = Ok ips" "ips \<noteq> []" "l_k8s l = Some k"
    and "serves_pages k [] pages w w'" "length pages \<le> fuel"
  shows "\<exists>conflicts. findIPsAssignedElsewhere l info fuel w = Some (Ok conflicts, w') \<and>
    fst ` set conflicts = {ip \<in> set ips. \<exists>s \<in> set (concat pages).
      svc_Type s = ''LoadBalancer'' \<and> svc_UID s \<noteq> svc_UID (si_Service info) \<and>
      (\<exists>other. annotationList \<lparr>si_Service = s, si_clusterName = si_clusterName info\<rparr> LoadBalancerFloatingIPs = Ok other \<and>
         ip \<in> set other)}"
proof -
  obtain m where "conflict_pages k info ips fuel [] [] w = Some (Ok m, w')"
    "fst ` set m = set ips \<inter> (\<Union>s \<in> set (concat pages). set (other_ips info s))"
    using conflict_pages_dom [OF assms(4,5), of info ips "[]"] by auto
  moreover from this have "findIPsAssignedElsewhere l info fuel w = Some (Ok m, w')"
    using assms(1-3) by (simp add: findIPsAssignedElsewhere_def bind_fio_def)
  ultimately show ?thesis
    unfolding other_ips_mem [symmetric] by (intro exI [of _ m]) auto
qed

theorem findIPsAssignedElsewhere_exact_witness:
  "\<exists>conflicts. findIPsAssignedElsewhere (sample_loadbalancer\<lparr>l_k8s := Some shared_k8s\<rparr>) sample_info 1 () = Some (Ok conflicts, ()) \<and>
     ''5.102.150.123/32'' \<in> fst ` set conflicts"
proof -
  let ?other = "sample_service\<lparr>svc_UID := ''cafe''\<rparr>"
  let ?l = "sample_loadbalancer\<lparr>l_k8s := Some shared_k8s\<rparr>"
  have pages: "serves_pages shared_k8s [] [[?other]] () ()" by (simp add: shared_k8s_def)
  have "annotationList \<lparr>si_Service = ?other, si_clusterName = si_clusterName sample_info\<rparr> LoadBalancerFloatingIPs =
      annotationList sample_info LoadBalancerFloatingIPs"
    by (simp add: annotationList_def annotation_defaults annotationOrDefault_def annotationOrElse_def sample_info_def)
  then have other: "annotationList \<lparr>si_Service = ?other, si_clusterName = si_clusterName sample_info\<rparr> LoadBalancerFloatingIPs =
      Ok [''5.102.150.123/32'', ''2a06:c01::123/128'']" by (simp add: sample_floating)
  have k: "l_k8s ?l = Some shared_k8s" by simp
  have "svc_Type ?other = ''LoadBalancer''" "svc_UID ?other \<noteq> svc_UID (si_Service sample_info)"
    by (simp_all add: sample_service_def sample_info_def)
  with findIPsAssignedElsewhere_exact [OF sample_floating _ k pages, of 1] other show ?thesis by fastforce
qed

text \<open>
  C22. A bad configuration changes nothing: when the check refuses the service, all three handlers
  return its error and release the lock, and whatever client for the cloudscale API they have, the
  outcome is the same, since they have not called it.
\<close>

theorem invalid_config_changes_nothing:
  assumes "ensureValidConfig l \<lparr>si_Service = service, si_clusterName = cluster\<rparr> fuel (l_lock l (lockKey (svc_UID service)) w) =
      Some (Err e, w')"
  shows "EnsureLoadBalancer x (l\<lparr>l_client := c\<rparr>) fuel cluster service nodes w =
       Some (Err e, l_unlock l (lockKey (svc_UID service)) w') \<and>
     UpdateLoadBalancer x (l\<lparr>l_client := c\<rparr>) fuel cluster service nodes w =
       Some (Err e, l_unlock l (lockKey (svc_UID service)) w') \<and>
     EnsureLoadBalancerDeleted x (l\<lparr>l_client := c\<rparr>) fuel cluster service w =
       Some (Err e, l_unlock l (lockKey (svc_UID service)) w')"
  using assms
  by (simp add: EnsureLoadBalancer_def UpdateLoadBalancer_def EnsureLoadBalancerDeleted_def with_lock_def
      bind_fio_def reconcile_service_def ensureValidConfig_client)

theorem invalid_config_changes_nothing_witness:
  "EnsureLoadBalancer sample_ext (sample_loadbalancer\<lparr>l_client := idle_client\<rparr>) 1 ''kubernetes''
     (plain_service\<lparr>svc_LoadBalancerClass := Some ''other''\<rparr>) [] () =
   Some (Err (ErrorMsg ''not supported LoadBalancerClass: other''), ())"
proof -
  let ?s = "plain_service\<lparr>svc_LoadBalancerClass := Some ''other''\<rparr>"
  have "ensureValidConfig sample_loadbalancer \<lparr>si_Service = ?s, si_clusterName = ''kubernetes''\<rparr> 1
      (l_lock sample_loadbalancer (lockKey (svc_UID ?s)) ()) = Some (Err (ErrorMsg ''not supported LoadBalancerClass: other''), ())"
    by (simp add: ensureValidConfig_def isSupported_def unit_res_def)
  from invalid_config_changes_nothing [OF this, of sample_ext idle_client "[]"] show ?thesis by simp
qed

text \<open>
  C21. A deletion that reports success left nothing behind: in the last round either there was no load
  balancer, or it was not changing and the request to delete exactly its address succeeded.
\<close>

theorem EnsureLoadBalancerDeleted_deletes:
  assumes "EnsureLoadBalancerDeleted x l fuel cluster service w = Some (Ok (), w')"
  shows "\<exists>v a v1 v2. actualLbState (l_client l) \<lparr>si_Service = service, si_clusterName = cluster\<rparr> v = (Ok a, v1) \<and>
    w' = l_unlock l (lockKey (svc_UID service)) v2 \<and>
    (case st_lb a of
       None \<Rightarrow> v2 = v1
     | Some lb \<Rightarrow> lb_Status lb \<noteq> ''changing'' \<and>
         (\<exists>v3. Run (l_client l) (DeleteResourceAction (lb_HREF lb)) v3 = ((Proceed, None), v2)))"
proof -
  let ?info = "\<lparr>si_Service = service, si_clusterName = cluster\<rparr>"
  from assms obtain v2 v0 where w': "w' = l_unlock l (lockKey (svc_UID service)) v2" and
    r: "reconcileLbState x (l_client l) (return_io (Some empty_lbState)) (actual_func l ?info) fuel v0 = Some (Ok (), v2)"
    by (auto simp: EnsureLoadBalancerDeleted_def with_lock_Some bind_fio_eq_Ok)
  from r obtain v where round: "reconcile_round x (l_client l) (return_io (Some empty_lbState)) (actual_func l ?info) v = (Some (Ok ()), v2)"
    by (rule reconcile_Some)
  then obtain a v1 acts where a: "actualLbState (l_client l) ?info v = (Ok a, v1)" and
    plan: "nextLbActions x (range_orders (l_client l) v1) (Some empty_lbState) (Some a) = Ok acts" and
    run: "runActions x (l_client l) acts v1 = (Ok False, v2)"
    by (elim reconcile_round_done) (auto simp: actual_func_def bind_io_eq_Ok)
  have "case st_lb a of
       None \<Rightarrow> v2 = v1
     | Some lb \<Rightarrow> lb_Status lb \<noteq> ''changing'' \<and>
         (\<exists>v3. Run (l_client l) (DeleteResourceAction (lb_HREF lb)) v3 = ((Proceed, None), v2))"
  proof (cases "st_lb a")
    case None
    with plan run show ?thesis by (simp add: nextLbActions_def empty_lbState_def)
  next
    case (Some lb)
    with plan have acts: "acts = [AwaitLbAction lb, DeleteResourceAction (lb_HREF lb)]"
      by (simp add: nextLbActions_def empty_lbState_def)
    with run have "lb_Status lb \<noteq> ''changing''"
      using runActions_Ok [OF run] by auto
    with run acts Some show ?thesis
      by (auto simp: control_defs simp del: Run.simps(5) split: option.splits prod.splits if_splits)
  qed
  with a w' show ?thesis by blast
qed

theorem EnsureLoadBalancerDeleted_deletes_witness:
  "\<exists>v v2. Run plain_client (DeleteResourceAction ''https://api/lb/4a04'') v = ((Proceed, None), v2)"
proof -
  have "runActions sample_ext plain_client [AwaitLbAction sample_lb, DeleteResourceAction (lb_HREF sample_lb)] () = (Ok False, ())"
    by (simp add: plain_client_def idle_client_def sample_lb_def control_defs proceed_call_def ProceedOnSuccess_def)
  then have "reconcile_round sample_ext plain_client (return_io (Some empty_lbState)) (actual_func sample_loadbalancer plain_info) () = (Some (Ok ()), ())"
    by (simp add: reconcile_round_def bind_io_apply actual_func_def plain_actual nextLbActions_def)
       (simp add: empty_lbState_def)
  then have r: "EnsureLoadBalancerDeleted sample_ext sample_loadbalancer 1 ''kubernetes'' plain_service () = Some (Ok (), ())"
    by (simp add: EnsureLoadBalancerDeleted_def with_lock_def bind_fio_def plain_info_def [symmetric] plain_config)
  from EnsureLoadBalancerDeleted_deletes [OF r, unfolded sample_loadbalancer_sel plain_info_def [symmetric]] obtain v a v1 v2 where
    "actualLbState plain_client plain_info v = (Ok a, v1)"
    "case st_lb a of None \<Rightarrow> v2 = v1 | Some lb \<Rightarrow> lb_Status lb \<noteq> ''changing'' \<and>
       (\<exists>v3. Run plain_client (DeleteResourceAction (lb_HREF lb)) v3 = ((Proceed, None), v2))" by blast
  then have "\<exists>v3. Run plain_client (DeleteResourceAction (lb_HREF sample_lb)) v3 = ((Proceed, None), v2)"
    by (auto simp: plain_actual simp del: Run.simps)
  then show ?thesis by (simp add: sample_lb_def)
qed

text \<open>
  C6. What a successful \<open>EnsureLoadBalancer\<close> means: in the last round, the nodes that pass the
  selector were mapped to servers one by one, and the load balancer the API had for the service was
  not changing, agreed with the state desired for those servers in what cannot be changed, and had
  exactly its pools, members, listeners and monitors by their keys. After that the service was
  annotated with the load balancer found, and the returned status is that of this load balancer.
\<close>

theorem EnsureLoadBalancer_success:
  assumes "\<And>v. valid_site_orders (range_orders (l_client l) v)"
    and "info = \<lparr>si_Service = service, si_clusterName = cluster\<rparr>"
    and "EnsureLoadBalancer x l fuel cluster service nodes w = Some (Ok status, w')"
  shows "(\<exists>filtered v found servers v1 d v2 a dlb alb. filterNodesBySelector x info nodes = Ok filtered \<and>
      mapNodes x (l_client l) (map Some filtered) v = (found, v1) \<and> limiter_All found = Ok servers \<and>
      desiredLbState x info filtered servers = Ok d \<and> actualLbState (l_client l) info v1 = (Ok a, v2) \<and>
      st_lb d = Some dlb \<and> st_lb a = Some alb \<and>
      lb_Status alb \<noteq> ''changing'' \<and> same_fixed dlb alb \<and> same_structure x d a) \<and>
    (\<exists>s lb v3 v4 v5 v6. actualLbState (l_client l) info v3 = (Ok s, v4) \<and> st_lb s = Some lb \<and>
      AnnotateService (l_k8s l) service
        [LoadBalancerUUID, lb_UUID lb, LoadBalancerConfigVersion, ''1'', LoadBalancerZone, lb_ZoneSlug lb] v4 = (Ok (), v5) \<and>
      loadBalancerStatus l info lb v5 = (Ok status, v6) \<and> w' = l_unlock l (lockKey (svc_UID service)) v6)"
proof -
  from assms(3) [folded assms(2)] obtain filtered v0 v3 s lb v4 v5 v6 where
    nodes: "filterNodesBySelector x info nodes = Ok filtered" and
    loop: "reconcileLbState x (l_client l) (desired_func x l service info filtered) (actual_func l info) fuel v0 = Some (Ok (), v3)" and
    final: "actualLbState (l_client l) info v3 = (Ok s, v4)" "st_lb s = Some lb"
      "AnnotateService (l_k8s l) service
        [LoadBalancerUUID, lb_UUID lb, LoadBalancerConfigVersion, ''1'', LoadBalancerZone, lb_ZoneSlug lb] v4 = (Ok (), v5)"
      "loadBalancerStatus l info lb v5 = (Ok status, v6)" "w' = l_unlock l (lockKey (svc_UID service)) v6"
    unfolding assms(2) by (rule EnsureLoadBalancer_Ok)
  from loop obtain v where "reconcile_round x (l_client l) (desired_func x l service info filtered) (actual_func l info) v = (Some (Ok ()), v3)"
    by (rule reconcile_Some)
  from reconcile_round_settled [OF assms(1) this] obtain d v1 a v2 acts where
    d: "desired_func x l service info filtered v = (Ok (Some d), v1)" and a: "actual_func l info v1 = (Ok (Some a), v2)" and
    last: "case (st_lb d, st_lb a) of
       (None, None) \<Rightarrow> acts = []
     | (None, Some alb) \<Rightarrow> acts = [AwaitLbAction alb, DeleteResourceAction (lb_HREF alb)] \<and> lb_Status alb \<noteq> ''changing''
     | (Some dlb, None) \<Rightarrow> False
     | (Some dlb, Some alb) \<Rightarrow> lb_Status alb \<noteq> ''changing'' \<and> same_fixed dlb alb \<and> same_structure x d a" by blast
  from d obtain found servers where servers: "mapNodes x (l_client l) (map Some filtered) v = (found, v1)"
    "limiter_All found = Ok servers" "desiredLbState x info filtered servers = Ok d" by (rule desired_func_Ok)
  from desiredLbState_lb [OF servers(3)] obtain dlb where dlb: "st_lb d = Some dlb" by blast
  with last obtain alb where alb: "st_lb a = Some alb" "lb_Status alb \<noteq> ''changing''" "same_fixed dlb alb" "same_structure x d a"
    by (cases "st_lb a") auto
  have "actualLbState (l_client l) info v1 = (Ok a, v2)" using a by (simp add: actual_func_def bind_io_eq_Ok)
  with nodes servers dlb alb final show ?thesis by blast
qed

theorem EnsureLoadBalancer_success_witness:
  "\<exists>status. EnsureLoadBalancer sample_ext sample_loadbalancer 1 ''kubernetes'' plain_service [sample_node] () = Some (Ok status, ()) \<and>
     (\<exists>s lb v v'. actualLbState plain_client plain_info v = (Ok s, v') \<and> st_lb s = Some lb)"
proof -
  have valid: "valid_site_orders (range_orders (l_client sample_loadbalancer) v)" for v
    by (simp add: plain_client_def idle_client_def valid_site_orders_def valid_orders_def range_order_def)
  have reconciled: "reconcile_service sample_ext sample_loadbalancer 1 plain_service plain_info [sample_node] () = Some (Ok (), ())"
    using plain_round by (simp add: reconcile_service_def bind_fio_def plain_config plain_nodes warn_no_nodes_def)
  have "\<exists>status. loadBalancerStatus sample_loadbalancer plain_info sample_lb () = (Ok status, ())"
    by (simp add: loadBalancerStatus_def plain_defaults bind_io_apply wrap_io_apply IsKubernetesReleaseOrNewer_def
        version_part_def sample_k8s_def Atoi_show_int)
  moreover have "AnnotateService (Some sample_k8s) plain_service kv () = (Ok (), ())" if "even (length kv)" for kv
    using that by (simp add: AnnotateService_def PatchService_def sample_k8s_def unit_res_def Let_def)
  moreover have "si_Service plain_info = plain_service" by (simp add: plain_info_def)
  ultimately have "\<exists>status. annotate_and_report sample_loadbalancer plain_service plain_info (newLbState sample_lb) () = (Ok status, ())"
    by (simp add: annotate_and_report_def bind_io_eq_Ok wrap_io_eq_Ok)
  then have "\<exists>status. EnsureLoadBalancer sample_ext sample_loadbalancer 1 ''kubernetes'' plain_service [sample_node] () = Some (Ok status, ())"
    using reconciled by (auto simp: EnsureLoadBalancer_def with_lock_def bind_fio_def plain_info_def [symmetric] plain_actual)
  then obtain status where run: "EnsureLoadBalancer sample_ext sample_loadbalancer 1 ''kubernetes'' plain_service [sample_node] () = Some (Ok status, ())" ..
  from EnsureLoadBalancer_success [OF valid plain_info_def run] run show ?thesis by auto
qed

text \<open>
  The reported status has one entry for each address of the load balancer, in order, and on a
  cluster that reports release \<open>a.b\<close> the entries carry the IP mode of the annotation exactly from
  release 1.30 on.
\<close>

lemma loadBalancerStatus_addresses:
  assumes "annotation info LoadBalancerForceHostname = []" "annotation info LoadBalancerIPMode \<in> {''Proxy'', ''VIP''}"
    and "l_k8s l = Some k" "ServerVersion k w = (Inr \<lparr>kube_Major = show_int a, kube_Minor = show_int b\<rparr>, w')"
    and "0 \<le> a" "a < 2 ^ 63" "0 \<le> b" "b < 2 ^ 63"
  shows "loadBalancerStatus l info lb w =
    (Ok (map (\<lambda>v. \<lparr>ing_IP = vip_Address v, ing_Hostname = [],
       ing_IPMode = (if (1, 30) \<le> (a, b) then Some (annotation info LoadBalancerIPMode) else None)\<rparr>) (lb_VIPAddresses lb)), w')"
proof -
  have "IsKubernetesReleaseOrNewer (Some k) 1 30 w = (Ok ((1, 30) \<le> (a, b)), w')"
    using assms(4-8) by (rule IsKubernetesReleaseOrNewer_order)
  then show ?thesis
    using assms(1-3) by (auto simp: loadBalancerStatus_def bind_io_apply wrap_io_apply)
qed

end
