(* ===== verification/Handler_Convergence.thy ===== *)
theory Handler_Convergence
  imports Convergence Simulated_Cloud Loadbalancer
begin

text \<open>
  The theorems about whole reconciliations, for the handlers of the load balancer interface: under the
  documented behaviour of the API, \<open>UpdateLoadBalancer\<close> and \<open>EnsureLoadBalancer\<close> reach the desired state,
  \<open>EnsureLoadBalancerDeleted\<close> removes the load balancer, and what \<open>actualLbState\<close> reads is the account. The concrete runs are in
  the simulated cloud.
\<close>

section \<open>A service in the simulated cloud\<close>

definition sim_loadbalancer :: "cloud_world loadbalancer" where
  "sim_loadbalancer = \<lparr>l_client = sim_client, l_k8s = Some sample_k8s, l_Event = (\<lambda>s t r m w. w),
     l_lock = (\<lambda>k w. w), l_unlock = (\<lambda>k w. w), l_range = (\<lambda>w. id)\<rparr>"

text \<open>An account with two floating IPs and nothing else, and one with a new load balancer.\<close>

definition empty_cloud :: cloud_world where
  "empty_cloud = \<lparr>cw_acct = \<lparr>acc_lbs = [], acc_pools = [], acc_members = (\<lambda>_. []), acc_listeners = [], acc_monitors = [],
     acc_fips = [\<lparr>fip_Network = ''5.102.150.123/32'', fip_LoadBalancerUUID = None\<rparr>,
       \<lparr>fip_Network = ''2a06:c01::123/128'', fip_LoadBalancerUUID = None\<rparr>]\<rparr>, cw_pending = 0\<rparr>"

definition busy_cloud :: cloud_world where
  "busy_cloud = snd (LoadBalancers_Create sim_client (CreateLb_request sample_lb) empty_cloud)"

lemma empty_sound: "sound (cw_acct empty_cloud)"
proof -
  have "hrefs (cw_acct empty_cloud) pl = []" for pl
    by (cases pl) (simp_all add: empty_cloud_def listeners_of_def monitors_of_def)
  then show ?thesis by (simp add: sound_def wf_account_def) (simp add: empty_cloud_def)
qed

lemma busy_sound: "sound (cw_acct busy_cloud)"
  using sound_lb_created [OF empty_sound] by (simp add: busy_cloud_def sim_client_def)

lemma sample_name: "annotation sample_info LoadBalancerName = ''k8s-service-deadbeef''"
  "annotation sample_info LoadBalancerUUID = []" "annotation sample_info LoadBalancerNodeSelector = []"
  "annotation sample_info LoadBalancerPoolAlgorithm = ''round_robin''" "annotation sample_info LoadBalancerPoolProtocol = ''tcp''"
  by (simp_all add: annotation_defaults annotation_Name annotationOrDefault_def annotationOrElse_def)
     (simp_all add: sample_info_def sample_service_def annotation_names)

lemma empty_candidates: "candidates info (cw_acct empty_cloud) = []"
  by (simp add: candidates_def empty_cloud_def)

lemma busy_candidates: "candidates sample_info (cw_acct busy_cloud) = [new_lb (CreateLb_request sample_lb) (fresh (cw_acct empty_cloud))]"
  by (simp add: candidates_def busy_cloud_def sim_client_def sample_name)
     (simp add: empty_cloud_def new_lb_def CreateLb_request_def sample_lb_def)

lemma sim_config:
  assumes "1 \<le> fuel"
  shows "ensureValidConfig sim_loadbalancer sample_info fuel w = Some (Ok (), w)"
proof -
  obtain f where "fuel = Suc f" using assms by (cases fuel) auto
  then have "findIPsAssignedElsewhere sim_loadbalancer sample_info fuel w = Some (Ok [], w)"
    by (simp add: findIPsAssignedElsewhere_def bind_fio_def sample_floating sim_loadbalancer_def sample_k8s_def)
  then show ?thesis by (simp add: ensureValidConfig_Ok) (simp add: sample_info_def sample_service_def)
qed

lemma sim_desired:
  "desired_func sample_ext sim_loadbalancer sample_service sample_info [sample_node] w = (Ok (Some sample_desired), w)"
proof -
  have "findByNode sample_ext sim_client (Some sample_node) w = (limiter_New None [sample_server], w)"
    by (simp add: findByNode_def srv_findByName_def sample_node_def sim_client_def) (simp add: sample_server_def)
  then have "mapNodes sample_ext sim_client [Some sample_node] w = (limiter_New None [sample_server], w)"
    by (simp add: mapNodes_def limiter_One_def limiter_New_def)
  then show ?thesis
    by (simp add: desired_func_def sim_loadbalancer_def bind_io_apply limiter_All_def limiter_New_def sample_desired_Ok)
qed

lemma sample_desired_sel:
  "st_pools sample_desired = [(0, pool_for_port sample_ext ''round_robin'' ''tcp'' (svc_Ports (si_Service sample_info) ! 0))]"
  "st_floatingIPs sample_desired = [''5.102.150.123/32'', ''2a06:c01::123/128'']"
  "\<exists>dlb. st_lb sample_desired = Some dlb \<and> lb_Name dlb = ''k8s-service-deadbeef'' \<and> lb_VIPAddresses dlb = []"
  "st_members sample_desired (Some 0) = pool_members [] 30080 30080 [sample_server]"
  "\<exists>l. st_listeners sample_desired (Some 0) = [l] \<and> definite_listener l"
  "\<exists>m. st_monitors sample_desired (Some 0) = [m] \<and> definite_monitor m"
proof -
  show "st_pools sample_desired = [(0, pool_for_port sample_ext ''round_robin'' ''tcp'' (svc_Ports (si_Service sample_info) ! 0))]"
    using desiredLbState_pools [OF sample_desired_Ok] by (simp add: sample_name)
  have vips: "annotationMarshal (x_json_vip sample_ext) sample_info LoadBalancerVIPAddresses = Ok []"
    by (simp add: annotationMarshal_def sample_values) (simp add: sample_ext_def)
  show "st_floatingIPs sample_desired = [''5.102.150.123/32'', ''2a06:c01::123/128'']"
    "\<exists>dlb. st_lb sample_desired = Some dlb \<and> lb_Name dlb = ''k8s-service-deadbeef'' \<and> lb_VIPAddresses dlb = []"
  proof -
    obtain zone vips' ips where "annotationMarshal (x_json_vip sample_ext) sample_info LoadBalancerVIPAddresses = Ok vips'"
      "annotationList sample_info LoadBalancerFloatingIPs = Ok ips" and
      ports: "desired_ports sample_ext sample_info [sample_server] (annotation sample_info LoadBalancerPoolAlgorithm)
       (annotation sample_info LoadBalancerPoolProtocol) 0 (svc_Ports (si_Service sample_info))
       (newLbState \<lparr>lb_UUID = [], lb_HREF = [], lb_Name = annotation sample_info LoadBalancerName,
          lb_Status = [], lb_FlavorSlug = annotation sample_info LoadBalancerFlavor, lb_ZoneSlug = zone,
          lb_VIPAddresses = desired_vips vips'\<rparr>\<lparr>st_floatingIPs := ips\<rparr>) = Ok sample_desired"
      using sample_desired_Ok by (rule desiredLbState_Ok)
    then have "vips' = []" "ips = [''5.102.150.123/32'', ''2a06:c01::123/128'']" by (simp_all add: vips sample_floating)
    with desired_ports_frame(1) [OF ports] show "st_floatingIPs sample_desired = [''5.102.150.123/32'', ''2a06:c01::123/128'']"
      "\<exists>dlb. st_lb sample_desired = Some dlb \<and> lb_Name dlb = ''k8s-service-deadbeef'' \<and> lb_VIPAddresses dlb = []"
      by (simp_all add: sample_name desired_vips_def)
  qed
  obtain mon lis where c: "port_contribution sample_ext sample_info [sample_server] (svc_Ports (si_Service sample_info) ! 0)
      (st_members sample_desired (Some 0)) mon lis" "st_monitors sample_desired (Some 0) = [mon]" "st_listeners sample_desired (Some 0) = [lis]"
    using desiredLbState_port [OF sample_desired_Ok, of 0] by auto
  have "healthMonitorForPort sample_ext sample_info = Ok mon" "listenerForPort sample_ext sample_info (svc_Ports (si_Service sample_info) ! 0) = Ok lis"
    using c(1) by (simp_all add: port_contribution_def)
  then have "definite_monitor mon" "definite_listener lis"
    by (auto simp: healthMonitorForPort_def monitor_http_def listenerForPort_def Let_def sample_values definite_monitor_def definite_listener_def)
  with c show "\<exists>l. st_listeners sample_desired (Some 0) = [l] \<and> definite_listener l"
    "\<exists>m. st_monitors sample_desired (Some 0) = [m] \<and> definite_monitor m" by simp_all
  show "st_members sample_desired (Some 0) = pool_members [] 30080 30080 [sample_server]"
    using c(1) by (auto simp: port_contribution_def sample_values monitor_port_def)
qed

lemma sample_attainable:
  assumes "st_lb sample_desired = Some dlb" "lb_Name dlb = ''k8s-service-deadbeef''" "lb_VIPAddresses dlb = []"
  shows "attainable sim_model sample_info sample_desired dlb" "definite sample_ext sample_desired"
proof -
  let ?p = "pool_for_port sample_ext ''round_robin'' ''tcp'' (svc_Ports (si_Service sample_info) ! 0)"
  have pool: "api_pool ?p" by (simp add: api_pool_def pool_for_port_def pool_algorithms_def pool_protocols_def)
  then have "sim_accepts (ReqPool (CreatePool_request U ?p))" for U by (simp add: CreatePool_request_def api_pool_def)
  moreover have "feasible_contents sim_model sample_desired (0, ?p)"
    by (auto simp: feasible_contents_def sample_desired_sel pool_members_def sample_server_def sim_net_def)
  ultimately show "attainable sim_model sample_info sample_desired dlb"
    using assms pool by (simp add: attainable_def sample_desired_sel(1) sample_name)
  show "definite sample_ext sample_desired"
    using sample_desired_sel(5,6) by (auto simp: definite_def sample_desired_sel(1))
qed

lemma sim_sel:
  "l_client sim_loadbalancer = am_client sim_model" "l_lock sim_loadbalancer key u = u" "l_unlock sim_loadbalancer key u = u"
  "l_k8s sim_loadbalancer = Some sample_k8s"
  by (simp_all add: sim_loadbalancer_def)

lemma sim_lock_config:
  assumes "1 \<le> fuel"
  shows "ensureValidConfig sim_loadbalancer sample_info fuel (l_lock sim_loadbalancer key w) = Some (Ok (), w)"
  using sim_config [OF assms] by (simp add: sim_sel)

lemma sim_nodes: "filterNodesBySelector sample_ext sample_info [sample_node] = Ok [sample_node]"
  by (simp add: filterNodesBySelector_def sample_name)

lemma sim_steady: "steady sim_model (desired_func sample_ext sim_loadbalancer sample_service sample_info [sample_node]) sample_desired"
  by (simp add: steady_def sim_desired)

lemma sim_start: "startable sample_info sample_desired dlb (am_acct sim_model empty_cloud)"
  by (simp add: startable_def empty_candidates sample_desired_sel(2)) (simp add: empty_cloud_def)

section \<open>The part that both handlers share\<close>

text \<open>Reading the actual state delivers what was desired.\<close>

definition reconcile_ends :: "ext \<Rightarrow> serviceInfo \<Rightarrow> lbState \<Rightarrow> LoadBalancer \<Rightarrow> 'w loadbalancer \<Rightarrow> 'w \<Rightarrow> bool" where
  "reconcile_ends x info desired dlb l v \<longleftrightarrow> (\<exists>s lb v'.
     actualLbState (l_client l) info v = (Ok s, v') \<and> st_lb s = Some lb \<and> lb_Name lb = lb_Name dlb \<and> same_fixed dlb lb \<and>
     same_structure x desired s \<and> settings_reached x desired s \<and> set (st_floatingIPs desired) \<subseteq> set (st_floatingIPs s))"

lemma reconcile_service_converges:
  assumes "documented_api M" "l_client l = am_client M"
    and "\<And>fuel. m \<le> fuel \<Longrightarrow> ensureValidConfig l info fuel u = Some (Ok (), v)"
    and "filterNodesBySelector x info nodes = Ok filtered" "filtered \<noteq> []"
    and "steady M (desired_func x l service info filtered) desired" "attainable M info desired dlb" "definite x desired"
    and "am_ok M v" "startable info desired dlb (am_acct M v)"
  shows "\<exists>n v'. reconcile_ends x info desired dlb l v' \<and>
    (\<forall>fuel \<ge> n. reconcile_service x l fuel service info nodes u = Some (Ok (), v'))"
proof -
  obtain n v' where v': "am_ok M v'" "reconciled x info desired dlb (am_acct M v')"
    "\<And>fuel. n \<le> fuel \<Longrightarrow> reconcileLbState x (am_client M) (desired_func x l service info filtered) (read_actual (am_client M) info) fuel v = Some (Ok (), v')"
    using reconcile_reaches [OF assms(1,7,6,9,10)] by blast
  have "reconcile_service x l fuel service info nodes u = Some (Ok (), v')" if "max m n \<le> fuel" for fuel
    using assms(3) [of fuel] v'(3) [of fuel] that assms(4,5)
    by (simp add: reconcile_service_def bind_fio_def warn_no_nodes_def actual_func_def assms(2))
  moreover have "reconcile_ends x info desired dlb l v'"
    using reads_reconciled [OF assms(1,7,8) v'(1,2)] by (simp add: reconcile_ends_def assms(2))
  ultimately show ?thesis by blast
qed

text \<open>
  A cluster that takes every patch of a service and reports a version of two numbers, and the entries
  of the status there.
\<close>

definition ready_cluster :: "'w k8s \<Rightarrow> int \<Rightarrow> int \<Rightarrow> bool" where
  "ready_cluster k a b \<longleftrightarrow> (\<forall>ns name ops w. fst (Services_Patch k ns name ops w) = None) \<and>
     (\<forall>w. fst (ServerVersion k w) = Inr \<lparr>kube_Major = show_int a, kube_Minor = show_int b\<rparr>) \<and>
     0 \<le> a \<and> a < 2 ^ 63 \<and> 0 \<le> b \<and> b < 2 ^ 63"

definition status_entry :: "serviceInfo \<Rightarrow> int \<Rightarrow> int \<Rightarrow> VIPAddress \<Rightarrow> LoadBalancerIngress" where
  "status_entry info a b v = \<lparr>ing_IP = vip_Address v, ing_Hostname = [],
     ing_IPMode = (if (1, 30) \<le> (a, b) then Some (annotation info LoadBalancerIPMode) else None)\<rparr>"

lemma ready_AnnotateService:
  assumes "ready_cluster k a b" "even (length kv)"
  shows "\<exists>w'. AnnotateService (Some k) service kv w = (Ok (), w')"
proof -
  have "\<exists>w'. PatchService (Some k) service ops w = (Ok (), w')" for ops
  proof -
    obtain w' where "Services_Patch k (svc_Namespace service) (svc_Name service) ops w = (None, w')"
      using assms(1) by (metis ready_cluster_def prod.collapse)
    then show ?thesis by (simp add: PatchService_def unit_res_def)
  qed
  then show ?thesis using assms(2) by (simp add: AnnotateService_def Let_def even_iff_mod_2_eq_zero)
qed

lemma ready_annotate_and_report:
  assumes "ready_cluster k a b" "l_k8s l = Some k" "st_lb s = Some lb"
    and "annotation info LoadBalancerForceHostname = []" "annotation info LoadBalancerIPMode \<in> {''Proxy'', ''VIP''}"
  shows "\<exists>w'. annotate_and_report l service info s w = (Ok (map (status_entry info a b) (lb_VIPAddresses lb)), w')"
proof -
  obtain u where u: "AnnotateService (Some k) (si_Service info) [LoadBalancerUUID, lb_UUID lb, LoadBalancerConfigVersion,
      annotation info LoadBalancerConfigVersion, LoadBalancerZone, lb_ZoneSlug lb] w = (Ok (), u)"
    using ready_AnnotateService [OF assms(1)] by fastforce
  obtain u' where "ServerVersion k u = (Inr \<lparr>kube_Major = show_int a, kube_Minor = show_int b\<rparr>, u')"
    using assms(1) by (metis ready_cluster_def prod.collapse)
  then have "loadBalancerStatus l info lb u = (Ok (map (status_entry info a b) (lb_VIPAddresses lb)), u')"
    using loadBalancerStatus_addresses [OF assms(4,5,2)] assms(1) by (simp add: ready_cluster_def status_entry_def)
  with u show ?thesis using assms(2,3) by (simp add: annotate_and_report_def bind_io_apply wrap_io_apply)
qed

section \<open>Properties\<close>

text \<open>
  C1. Updating a load balancer reaches the desired state. Let the API behave as documented, the service
  pass the checks, the nodes be mapped to the same servers in every round, the API accept what the
  service asks for, and the account have no load balancer for the service yet or one that agrees in
  what cannot be changed, whatever pools, members, listeners and monitors it has and even if it is
  still changing. Then, for all sufficiently many rounds, \<open>UpdateLoadBalancer\<close> succeeds, always in the
  same way; and what \<open>actualLbState\<close> reads from then on is a load balancer with the desired name,
  exactly the desired pools, members, listeners and monitors by their keys, the desired settings of
  listeners and monitors except the host of a monitor, and all desired floating IPs.
\<close>

theorem UpdateLoadBalancer_converges:
  assumes "documented_api M" "l_client l = am_client M" "info = \<lparr>si_Service = service, si_clusterName = cluster\<rparr>"
    and "\<And>fuel. m \<le> fuel \<Longrightarrow> ensureValidConfig l info fuel (l_lock l (lockKey (svc_UID service)) w) = Some (Ok (), v)"
    and "filterNodesBySelector x info nodes = Ok filtered" "filtered \<noteq> []"
    and "steady M (desired_func x l service info filtered) desired" "attainable M info desired dlb" "definite x desired"
    and "am_ok M v" "startable info desired dlb (am_acct M v)"
  shows "\<exists>n v' s lb v''.
    (\<forall>fuel \<ge> n. UpdateLoadBalancer x l fuel cluster service nodes w = Some (Ok (), l_unlock l (lockKey (svc_UID service)) v')) \<and>
    actualLbState (l_client l) info v' = (Ok s, v'') \<and> st_lb s = Some lb \<and> lb_Name lb = lb_Name dlb \<and> same_fixed dlb lb \<and>
    same_structure x desired s \<and> settings_reached x desired s \<and> set (st_floatingIPs desired) \<subseteq> set (st_floatingIPs s)"
proof -
  obtain n v' where v': "reconcile_ends x info desired dlb l v'"
    "\<And>fuel. n \<le> fuel \<Longrightarrow> reconcile_service x l fuel service info nodes (l_lock l (lockKey (svc_UID service)) w) = Some (Ok (), v')"
    using reconcile_service_converges [OF assms(1,2,4-11)] by blast
  then have "UpdateLoadBalancer x l fuel cluster service nodes w = Some (Ok (), l_unlock l (lockKey (svc_UID service)) v')" if "n \<le> fuel" for fuel
    using that by (simp add: UpdateLoadBalancer_def with_lock_def bind_fio_def flip: assms(3))
  with v'(1) show ?thesis unfolding reconcile_ends_def by blast
qed

theorem UpdateLoadBalancer_converges_witness:
  "\<exists>n v' s lb v''. UpdateLoadBalancer sample_ext sim_loadbalancer n ''kubernetes'' sample_service [sample_node] empty_cloud = Some (Ok (), v') \<and>
     actualLbState sim_client sample_info v' = (Ok s, v'') \<and> st_lb s = Some lb \<and> lb_Name lb = ''k8s-service-deadbeef'' \<and>
     same_structure sample_ext sample_desired s \<and> {''5.102.150.123/32'', ''2a06:c01::123/128''} \<subseteq> set (st_floatingIPs s)"
proof -
  obtain dlb where dlb: "st_lb sample_desired = Some dlb" "lb_Name dlb = ''k8s-service-deadbeef''" "lb_VIPAddresses dlb = []"
    using sample_desired_sel(3) by blast
  note attain = sample_attainable [OF dlb]
  from UpdateLoadBalancer_converges [where m = 1, OF simulated_documented sim_sel(1) sample_info_def sim_lock_config sim_nodes _ sim_steady attain _ sim_start] empty_sound
  obtain n v' s lb v'' where
    "\<forall>fuel \<ge> n. UpdateLoadBalancer sample_ext sim_loadbalancer fuel ''kubernetes'' sample_service [sample_node] empty_cloud = Some (Ok (), v')"
    "actualLbState sim_client sample_info v' = (Ok s, v'')" "st_lb s = Some lb" "lb_Name lb = lb_Name dlb"
    "same_structure sample_ext sample_desired s" "set (st_floatingIPs sample_desired) \<subseteq> set (st_floatingIPs s)"
    by (auto simp: sim_sel)
  then show ?thesis using dlb(2) by (auto simp: sample_desired_sel(2))
qed

text \<open>
  C2. Ensuring a load balancer creates it and reports its addresses. With the API and the service as for
  updates, on a cluster that takes the patches of services and reports its version, \<open>EnsureLoadBalancer\<close>
  succeeds for all sufficiently many rounds. The status it returns has one entry for each address of a
  load balancer that has the desired name, structure, settings (but for the hosts of monitors) and
  floating IPs, with the annotated IP mode exactly from release 1.30 on.
\<close>

theorem EnsureLoadBalancer_converges:
  assumes "documented_api M" "l_client l = am_client M" "info = \<lparr>si_Service = service, si_clusterName = cluster\<rparr>"
    and "\<And>fuel. m \<le> fuel \<Longrightarrow> ensureValidConfig l info fuel (l_lock l (lockKey (svc_UID service)) w) = Some (Ok (), v)"
    and "filterNodesBySelector x info nodes = Ok filtered" "filtered \<noteq> []"
    and "steady M (desired_func x l service info filtered) desired" "attainable M info desired dlb" "definite x desired"
    and "am_ok M v" "startable info desired dlb (am_acct M v)"
    and "l_k8s l = Some k" "ready_cluster k a b"
    and "annotation info LoadBalancerForceHostname = []" "annotation info LoadBalancerIPMode \<in> {''Proxy'', ''VIP''}"
  shows "\<exists>n v' s lb v'' w'.
    (\<forall>fuel \<ge> n. EnsureLoadBalancer x l fuel cluster service nodes w = Some (Ok (map (status_entry info a b) (lb_VIPAddresses lb)), w')) \<and>
    actualLbState (l_client l) info v' = (Ok s, v'') \<and> st_lb s = Some lb \<and> lb_Name lb = lb_Name dlb \<and> same_fixed dlb lb \<and>
    same_structure x desired s \<and> settings_reached x desired s \<and> set (st_floatingIPs desired) \<subseteq> set (st_floatingIPs s)"
proof -
  obtain n v' where v': "reconcile_ends x info desired dlb l v'"
    "\<And>fuel. n \<le> fuel \<Longrightarrow> reconcile_service x l fuel service info nodes (l_lock l (lockKey (svc_UID service)) w) = Some (Ok (), v')"
    using reconcile_service_converges [OF assms(1,2,4-11)] by blast
  then obtain s lb v'' where s: "actualLbState (l_client l) info v' = (Ok s, v'')" "st_lb s = Some lb" "lb_Name lb = lb_Name dlb"
    "same_fixed dlb lb" "same_structure x desired s" "settings_reached x desired s" "set (st_floatingIPs desired) \<subseteq> set (st_floatingIPs s)"
    unfolding reconcile_ends_def by blast
  obtain u where "annotate_and_report l service info s v'' = (Ok (map (status_entry info a b) (lb_VIPAddresses lb)), u)"
    using ready_annotate_and_report [OF assms(13,12) s(2) assms(14,15)] by blast
  then have "EnsureLoadBalancer x l fuel cluster service nodes w =
      Some (Ok (map (status_entry info a b) (lb_VIPAddresses lb)), l_unlock l (lockKey (svc_UID service)) u)" if "n \<le> fuel" for fuel
    using v'(2) [OF that] s(1) by (simp add: EnsureLoadBalancer_def with_lock_def bind_fio_def flip: assms(3))
  with s show ?thesis by blast
qed

theorem EnsureLoadBalancer_converges_witness:
  "\<exists>n w' (lb :: LoadBalancer). EnsureLoadBalancer sample_ext sim_loadbalancer n ''kubernetes'' sample_service [sample_node] empty_cloud =
     Some (Ok (map (status_entry sample_info 1 31) (lb_VIPAddresses lb)), w') \<and> lb_Name lb = ''k8s-service-deadbeef''"
proof -
  obtain dlb where dlb: "st_lb sample_desired = Some dlb" "lb_Name dlb = ''k8s-service-deadbeef''" "lb_VIPAddresses dlb = []"
    using sample_desired_sel(3) by blast
  have ready: "ready_cluster (sample_k8s :: cloud_world k8s) 1 31" by (simp add: ready_cluster_def sample_k8s_def)
  have plain: "annotation sample_info LoadBalancerForceHostname = []" "annotation sample_info LoadBalancerIPMode \<in> {''Proxy'', ''VIP''}"
    by (simp_all add: annotation_defaults annotationOrDefault_def annotationOrElse_def)
      (simp_all add: sample_info_def sample_service_def annotation_names)
  have "\<exists>n v' s lb v'' w'. (\<forall>fuel \<ge> n. EnsureLoadBalancer sample_ext sim_loadbalancer fuel ''kubernetes'' sample_service [sample_node] empty_cloud =
      Some (Ok (map (status_entry sample_info 1 31) (lb_VIPAddresses lb)), w')) \<and> actualLbState (l_client sim_loadbalancer) sample_info v' = (Ok s, v'') \<and>
      st_lb s = Some lb \<and> lb_Name lb = lb_Name dlb \<and> same_fixed dlb lb \<and> same_structure sample_ext sample_desired s \<and>
      settings_reached sample_ext sample_desired s \<and> set (st_floatingIPs sample_desired) \<subseteq> set (st_floatingIPs s)"
    by (rule EnsureLoadBalancer_converges [OF simulated_documented sim_sel(1) sample_info_def sim_lock_config sim_nodes _ sim_steady
        sample_attainable [OF dlb] _ sim_start sim_sel(4) ready plain]) (simp_all add: empty_sound)
  then obtain n w' and lb :: LoadBalancer where
    "\<forall>fuel \<ge> n. EnsureLoadBalancer sample_ext sim_loadbalancer fuel ''kubernetes'' sample_service [sample_node] empty_cloud =
       Some (Ok (map (status_entry sample_info 1 31) (lb_VIPAddresses lb)), w')" "lb_Name lb = lb_Name dlb" by blast
  with dlb(2) show ?thesis by (metis order_refl)
qed

text \<open>
  C3. Deleting a load balancer deletes it. If the API behaves as documented, the service passes the
  checks and the account has at most one load balancer for the service, \<open>EnsureLoadBalancerDeleted\<close>
  succeeds, and afterwards the account has none. It takes at most one round more than there are pauses
  until the load balancer is no longer changing.
\<close>

theorem EnsureLoadBalancerDeleted_converges:
  assumes "documented_api M" "l_client l = am_client M" "info = \<lparr>si_Service = service, si_clusterName = cluster\<rparr>"
    and "annotation info LoadBalancerName \<noteq> []"
    and "\<And>fuel. m \<le> fuel \<Longrightarrow> ensureValidConfig l info fuel (l_lock l (lockKey (svc_UID service)) w) = Some (Ok (), v)"
    and "am_ok M v" "length (candidates info (am_acct M v)) \<le> 1"
  shows "\<exists>v'. candidates info (am_acct M v') = [] \<and> (\<forall>fuel. m \<le> fuel \<and> am_pending M v < fuel \<longrightarrow>
    EnsureLoadBalancerDeleted x l fuel cluster service w = Some (Ok (), l_unlock l (lockKey (svc_UID service)) v'))"
proof -
  obtain v' where v': "candidates info (am_acct M v') = []" "\<And>fuel. am_pending M v < fuel \<Longrightarrow>
      reconcileLbState x (am_client M) (return_io (Some empty_lbState)) (read_actual (am_client M) info) fuel v = Some (Ok (), v')"
    using deletion_reaches [OF assms(1,4,6,7)] by blast
  have "EnsureLoadBalancerDeleted x l fuel cluster service w = Some (Ok (), l_unlock l (lockKey (svc_UID service)) v')"
    if "m \<le> fuel" "am_pending M v < fuel" for fuel
    using assms(5) [OF that(1)] v'(2) [OF that(2)]
    by (simp add: EnsureLoadBalancerDeleted_def with_lock_def bind_fio_def actual_func_def assms(2) flip: assms(3))
  with v'(1) show ?thesis by blast
qed

theorem EnsureLoadBalancerDeleted_converges_witness:
  "\<exists>v'. EnsureLoadBalancerDeleted sample_ext sim_loadbalancer 3 ''kubernetes'' sample_service busy_cloud = Some (Ok (), v') \<and>
     candidates sample_info (cw_acct busy_cloud) \<noteq> [] \<and> candidates sample_info (cw_acct v') = []"
proof -
  have "cw_pending busy_cloud = 2" by (simp add: busy_cloud_def sim_client_def)
  with EnsureLoadBalancerDeleted_converges [where m = 1 and x = sample_ext and w = busy_cloud and v = busy_cloud, OF simulated_documented sim_sel(1) sample_info_def _ sim_lock_config]
  show ?thesis by (force simp: sample_name busy_sound busy_candidates sim_sel)
qed

text \<open>
  C5. Reading the actual state refines looking at the account: for a service with a name, under the
  documented behaviour of the API and without changing anything, \<open>actualLbState\<close> delivers the empty
  state when no load balancer of the account belongs to the service, and when exactly one does, that
  load balancer with exactly its pools in the order of the account, their members, listeners and
  monitors, and the networks of the floating IPs assigned to it, and nothing of any other load balancer.
\<close>

theorem actualLbState_refines_account:
  assumes "documented_api M" "am_ok M w" "annotation info LoadBalancerName \<noteq> []" "length (candidates info (am_acct M w)) \<le> 1"
  shows "\<exists>s w'. actualLbState (am_client M) info w = (Ok s, w') \<and> am_ok M w' \<and> am_acct M w' = am_acct M w \<and>
    (case candidates info (am_acct M w) of
       [] \<Rightarrow> s = empty_lbState
     | l # _ \<Rightarrow> (\<exists>lb. no_status lb = l \<and> shows_account (am_acct M w) lb s))"
proof (cases "candidates info (am_acct M w)")
  case Nil
  then show ?thesis using actualLbState_reads(1) [OF assms(1-3) Nil] by (auto simp: quiet_def)
next
  case (Cons l ls)
  then have one: "candidates info (am_acct M w) = [l]" using assms(4) by simp
  then show ?thesis using actualLbState_reads(2) [OF assms(1-3) one] by (auto simp: quiet_def)
qed

theorem actualLbState_refines_account_witness:
  "\<exists>s w' lb. actualLbState sim_client sample_info busy_cloud = (Ok s, w') \<and> st_lb s = Some lb \<and> lb_Name lb = ''k8s-service-deadbeef'' \<and>
     st_pools s = []"
proof -
  obtain s w' lb where s: "actualLbState sim_client sample_info busy_cloud = (Ok s, w')"
    "no_status lb = new_lb (CreateLb_request sample_lb) (fresh (cw_acct empty_cloud))" "shows_account (cw_acct busy_cloud) lb s"
    using actualLbState_refines_account [OF simulated_documented, of busy_cloud sample_info]
    by (auto simp: busy_sound sample_name busy_candidates)
  have "acc_pools (cw_acct busy_cloud) = []" by (simp add: busy_cloud_def sim_client_def empty_cloud_def)
  then have "st_lb s = Some lb" "st_pools s = []" using s(3) by (simp_all add: shows_account_def own_pools_def)
  moreover have "lb_Name lb = ''k8s-service-deadbeef''"
    using arg_cong [OF s(2), of lb_Name] by (simp add: new_lb_def CreateLb_request_def sample_lb_def)
  ultimately show ?thesis using s(1) by blast
qed

end
