(* ===== verification/Handler_Confinement.thy ===== *)
theory Handler_Confinement
  imports Confined_Rounds Handler_Convergence
begin

text \<open>
  The handlers of the load balancer interface leave the load balancers of other services alone, whatever
  the API answers and however they end. The theorem assumes no more of the API than \<open>truthful_api\<close>, and
  of the rest (lock, events, Kubernetes) that it does not touch the cloudscale.ch account.
\<close>

section \<open>Effects with fuel\<close>

definition keeps_fuel :: "'w api_model \<Rightarrow> (account \<Rightarrow> bool) \<Rightarrow> ('w, 'a) fio \<Rightarrow> bool" where
  "keeps_fuel M J f \<longleftrightarrow> (\<forall>w r w'. am_ok M w \<and> J (am_acct M w) \<and> f w = Some (r, w') \<longrightarrow> am_ok M w' \<and> J (am_acct M w'))"

lemma keeps_bind_fio:
  assumes "keeps_fuel M J f" "\<And>y. keeps_fuel M J (g y)"
  shows "keeps_fuel M J (bind_fio f g)"
  unfolding keeps_fuel_def
proof (intro allI impI, elim conjE)
  fix w r w' assume w: "am_ok M w" "J (am_acct M w)" and run: "bind_fio f g w = Some (r, w')"
  then obtain q v where q: "f w = Some (q, v)" by (cases "f w") (auto simp: bind_fio_def)
  with w assms(1) have v: "am_ok M v" "J (am_acct M v)" unfolding keeps_fuel_def by blast+
  show "am_ok M w' \<and> J (am_acct M w')"
  proof (cases q)
    case (Ok y)
    then have "g y v = Some (r, w')" using q run by (simp add: bind_fio_def)
    then show ?thesis using v assms(2) [of y] unfolding keeps_fuel_def by blast
  qed (use q run v in \<open>simp_all add: bind_fio_def\<close>)
qed

lemma keeps_run_io: "calm M f \<Longrightarrow> keeps_fuel M J (run_io f)"
  unfolding keeps_fuel_def by (auto dest: calmD)

section \<open>What does not touch the account\<close>

text \<open>The surroundings of the handlers: the lock, the events and the calls to Kubernetes.\<close>

definition apart :: "'w api_model \<Rightarrow> 'w loadbalancer \<Rightarrow> bool" where
  "apart M l \<longleftrightarrow> (\<forall>key. calm M (\<lambda>w. ((), l_lock l key w)) \<and> calm M (\<lambda>w. ((), l_unlock l key w))) \<and>
     (\<forall>s t r m. calm M (\<lambda>w. ((), l_Event l s t r m w))) \<and>
     (\<forall>k. l_k8s l = Some k \<longrightarrow> (\<forall>cont n. calm M (Services_List k cont n)) \<and>
        (\<forall>ns name ops. calm M (Services_Patch k ns name ops)) \<and> calm M (ServerVersion k))"

lemma findByNode_calm:
  assumes "truthful_api M"
  shows "calm M (findByNode x (am_client M) node)"
  using truthfulD(10,11) [OF assms]
  by (auto simp: calm_def findByNode_def getByProviderID_def srv_findByName_def case_prod_beta split: option.split res.split sum.split)

lemma mapNodes_calm:
  assumes "truthful_api M"
  shows "calm M (mapNodes x (am_client M) nodes)"
proof -
  have "calm M (mapNodes_loop x (am_client M) servers nodes)" for servers
  proof (induction nodes arbitrary: servers)
    case (Cons node nodes)
    have "calm M (\<lambda>w. case findByNode x (am_client M) node w of (lim, w') \<Rightarrow>
        (case limiter_One lim of
           Err e \<Rightarrow> (limiter_New (Some e) [], w')
         | Ok server \<Rightarrow> mapNodes_loop x (am_client M) (servers @ [server]) nodes w'
         | Panic m \<Rightarrow> (limiter_New (Some (ErrorMsg m)) [], w')))"
    proof (rule calm_case [OF findByNode_calm [OF assms]])
      fix lim
      show "calm M (\<lambda>w'. case limiter_One lim of
           Err e \<Rightarrow> (limiter_New (Some e) [], w')
         | Ok server \<Rightarrow> mapNodes_loop x (am_client M) (servers @ [server]) nodes w'
         | Panic m \<Rightarrow> (limiter_New (Some (ErrorMsg m)) [], w'))"
        using Cons.IH by (cases "limiter_One lim") simp_all
    qed
    then show ?case by (simp add: calm_def)
  qed (simp add: calm_def)
  then show ?thesis by (simp add: mapNodes_def [abs_def])
qed

lemma desired_func_calm:
  assumes "truthful_api M" "l_client l = am_client M"
  shows "calm M (desired_func x l service info nodes)"
  unfolding desired_func_def assms(2)
  by (intro calm_rules mapNodes_calm [OF assms(1)] calm_return)

lemma desired_func_addresses:
  assumes "desired_func x l service info nodes v = (Ok (Some d), v')" "annotationList info LoadBalancerFloatingIPs = Ok ips"
  shows "st_floatingIPs d = ips"
proof -
  obtain servers where "desiredLbState x info nodes servers = Ok d" using assms(1) by (rule desired_func_Ok)
  then obtain s where "desired_ports x info servers (annotation info LoadBalancerPoolAlgorithm)
      (annotation info LoadBalancerPoolProtocol) 0 (svc_Ports (si_Service info)) (s\<lparr>st_floatingIPs := ips\<rparr>) = Ok d"
    using assms(2) by (elim desiredLbState_Ok) auto
  from desired_ports_frame(1) [OF this] show ?thesis by simp
qed

lemma ensureValidConfig_keeps:
  assumes "apart M l"
  shows "keeps_fuel M J (ensureValidConfig l info fuel)"
proof -
  have pages: "am_ok M w' \<and> J (am_acct M w')"
    if "l_k8s l = Some k" "am_ok M w" "J (am_acct M w)" "conflict_pages k info ips fuel cont conflicts w = Some (r, w')" for k ips fuel cont conflicts w r w'
    using that(2-4)
  proof (induction fuel arbitrary: cont conflicts w)
    case (Suc fuel)
    obtain q v where q: "Services_List k cont 250 w = (q, v)" by fastforce
    have "calm M (Services_List k cont 250)" using assms that(1) by (simp add: apart_def)
    then have "am_ok M v \<and> am_acct M v = am_acct M w" using calmD [of M "Services_List k cont 250" w q v] Suc.prems(1) q by blast
    then show ?case using Suc.IH [of v] Suc.prems q by (cases q) (auto simp: Let_def split: if_splits)
  qed simp
  have find: "am_ok M w' \<and> J (am_acct M w')"
    if "am_ok M w" "J (am_acct M w)" "findIPsAssignedElsewhere l info fuel w = Some (r, w')" for w r w'
  proof (cases "\<exists>ips k. annotationList info LoadBalancerFloatingIPs = Ok ips \<and> length ips \<noteq> 0 \<and> l_k8s l = Some k")
    case True
    then obtain ips k where k: "annotationList info LoadBalancerFloatingIPs = Ok ips" "length ips \<noteq> 0" "l_k8s l = Some k" by blast
    then have "conflict_pages k info ips fuel [] [] w = Some (r, w')"
      using that(3) by (simp add: findIPsAssignedElsewhere_def bind_fio_def)
    then show ?thesis by (rule pages [OF k(3) that(1,2)])
  next
    case False
    then have "w' = w"
      using that(3) by (cases "annotationList info LoadBalancerFloatingIPs"; cases "l_k8s l")
        (simp_all add: findIPsAssignedElsewhere_def bind_fio_def split: if_splits)
    then show ?thesis using that(1,2) by simp
  qed
  show ?thesis
    unfolding keeps_fuel_def
  proof (intro allI impI, elim conjE)
    fix w r w' assume w: "am_ok M w" "J (am_acct M w)" and run: "ensureValidConfig l info fuel w = Some (r, w')"
    show "am_ok M w' \<and> J (am_acct M w')"
    proof (cases "fst (isSupported info)")
      case False
      then show ?thesis using run w by (cases "isSupported info") (simp add: ensureValidConfig_def)
    next
      case True
      then obtain q where "findIPsAssignedElsewhere l info fuel w = Some (q, w')"
        using run by (cases "isSupported info") (auto simp: ensureValidConfig_def split: option.splits prod.splits res.splits if_splits)
      then show ?thesis by (rule find [OF w])
    qed
  qed
qed

lemma annotate_and_report_calm:
  assumes "apart M l"
  shows "calm M (annotate_and_report l service info s)"
proof -
  have patch: "calm M (PatchService (l_k8s l) sv ops)" for sv ops
  proof (cases "l_k8s l")
    case (Some k)
    then have "calm M (Services_Patch k (svc_Namespace sv) (svc_Name sv) ops)" using assms by (simp add: apart_def)
    then show ?thesis using Some by (simp add: calm_def PatchService_def case_prod_beta)
  qed (simp add: calm_def PatchService_def)
  have "calm M (AnnotateService (l_k8s l) sv kv)" for sv kv
    using patch by (auto simp: calm_def AnnotateService_def Let_def)
  moreover have "calm M (IsKubernetesReleaseOrNewer (l_k8s l) major minor)" for major minor
  proof (cases "l_k8s l")
    case (Some k)
    then have "calm M (ServerVersion k)" using assms by (simp add: apart_def)
    then show ?thesis using Some by (auto simp: calm_def IsKubernetesReleaseOrNewer_def case_prod_beta split: sum.split)
  qed (simp add: calm_def IsKubernetesReleaseOrNewer_def)
  then have "calm M (loadBalancerStatus l info lb)" for lb
    unfolding loadBalancerStatus_def Let_def by (auto intro!: calm_rules)
  ultimately show ?thesis unfolding annotate_and_report_def Let_def by (cases "st_lb s") (auto intro!: calm_rules)
qed

lemma warn_no_nodes_calm:
  assumes "apart M l"
  shows "calm M (warn_no_nodes l service info nodes)"
  using assms by (auto simp: apart_def calm_def warn_no_nodes_def)

section \<open>The handlers\<close>

text \<open>The addresses of the floating IPs a service asks for.\<close>

definition service_addresses :: "serviceInfo \<Rightarrow> string set" where
  "service_addresses info = (case annotationList info LoadBalancerFloatingIPs of Ok ips \<Rightarrow> addresses ips | _ \<Rightarrow> {})"

lemma reconcile_keeps:
  assumes "truthful_api M" "l_client l = am_client M" "calm M ds"
    and "\<And>v d v'. ds v = (Ok (Some d), v') \<Longrightarrow> addresses (st_floatingIPs d) \<subseteq> I"
  shows "keeps_fuel M (untouched (foreign info start) I start) (reconcileLbState x (l_client l) ds (actual_func l info) fuel)"
  unfolding keeps_fuel_def assms(2) actual_func_def
  by (intro allI impI, elim conjE, rule reconcile_untouched [OF assms(1,3) assms(4) refl])

lemma reconcile_service_keeps:
  assumes "truthful_api M" "l_client l = am_client M" "apart M l"
  shows "keeps_fuel M (untouched (foreign info start) (service_addresses info) start) (reconcile_service x l fuel service info nodes)"
proof -
  have "addresses (st_floatingIPs d) \<subseteq> service_addresses info"
    if d: "desired_func x l service info filtered v = (Ok (Some d), v')" for filtered v d v'
  proof -
    obtain servers where "desiredLbState x info filtered servers = Ok d" using d by (rule desired_func_Ok)
    then obtain ips where "annotationList info LoadBalancerFloatingIPs = Ok ips" by (elim desiredLbState_Ok) blast
    then show ?thesis using desired_func_addresses [OF d] by (simp add: service_addresses_def)
  qed
  then have "keeps_fuel M (untouched (foreign info start) (service_addresses info) start)
      (reconcileLbState x (l_client l) (desired_func x l service info filtered) (actual_func l info) fuel)" for filtered
    by (intro reconcile_keeps [OF assms(1,2)] desired_func_calm [OF assms(1,2)])
  then show ?thesis
    unfolding reconcile_service_def
    by (intro keeps_bind_fio keeps_run_io ensureValidConfig_keeps [OF assms(3)] warn_no_nodes_calm [OF assms(3)] calm_return)
qed

lemma with_lock_keeps:
  assumes "apart M l" "keeps_fuel M J body"
  shows "keeps_fuel M J (with_lock l service body)"
  unfolding keeps_fuel_def
proof (intro allI impI, elim conjE)
  let ?key = "lockKey (svc_UID service)"
  fix w r w' assume w: "am_ok M w" "J (am_acct M w)" and run: "with_lock l service body w = Some (r, w')"
  have locked: "am_ok M (l_lock l ?key w)" "am_acct M (l_lock l ?key w) = am_acct M w"
    using assms(1) w(1) by (simp_all add: apart_def calm_def)
  obtain v where v: "body (l_lock l ?key w) = Some (r, v)" "w' = l_unlock l ?key v"
    using run by (auto simp: with_lock_def split: option.splits prod.splits)
  then have "am_ok M v" "J (am_acct M v)" using assms(2) locked w(2) unfolding keeps_fuel_def by metis+
  then show "am_ok M w' \<and> J (am_acct M w')" using assms(1) v(2) by (simp add: apart_def calm_def)
qed

lemma keeps_untouched:
  assumes "keeps_fuel M (untouched F I (am_acct M w)) f" "am_ok M w" "f w = Some (r, w')"
  shows "untouched F I (am_acct M w) (am_acct M w')"
  using assms untouched_refl unfolding keeps_fuel_def by blast

lemma bind_info:
  "bind_fio (run_io (res_io (newServiceInfo (Some service) cluster))) g = g \<lparr>si_Service = service, si_clusterName = cluster\<rparr>"
  by (simp add: fun_eq_iff bind_fio_def newServiceInfo_def)

section \<open>The simulated cloud\<close>

lemma sim_reads_truthfully: "reads_truthfully sim_model"
proof -
  have get: "tells sim_model (LoadBalancers_Get sim_client u) (\<lambda>A l. lb_UUID l = u \<and> no_status l \<in> set (acc_lbs A))" for u
    unfolding tells_def calm_def
  proof (intro conjI allI impI; (elim conjE)?)
    fix w assume w: "am_ok sim_model w"
    show "am_ok sim_model (snd (LoadBalancers_Get sim_client u w))"
      "am_acct sim_model (snd (LoadBalancers_Get sim_client u w)) = am_acct sim_model w"
      using w by (simp_all add: sim_client_def)
  next
    fix w r w' assume w: "am_ok sim_model w" "LoadBalancers_Get sim_client u w = (Inr r, w')"
    have "u \<in> lb_UUIDs (cw_acct w)" by (rule ccontr) (use sim_get(2) [of w u] w in simp)
    then show "lb_UUID r = u" "no_status r \<in> set (acc_lbs (am_acct sim_model w))"
      using sim_get(1) [of w u] w by (auto simp: reports_def)
  qed
  note calls = tells_def calm_def sim_client_def idle_client_def
  have orders: "valid_site_orders (range_orders sim_client w)" for w
    by (simp add: valid_site_orders_def valid_orders_def range_order_def)
  have lists: "tells sim_model (LoadBalancers_List sim_client) (\<lambda>A ls. map no_status ls = acc_lbs A)"
    "tells sim_model (Monitors_List sim_client) (\<lambda>A ms. map no_address ms = acc_monitors A)"
    by (auto simp: calls comp_def dest: soundD(5,6))
  have exact: "tells sim_model (Pools_List sim_client) (\<lambda>A ps. ps = acc_pools A)"
    "tells sim_model (Members_List sim_client u) (\<lambda>A ms. u \<in> pool_UUIDs A \<longrightarrow> ms = acc_members A u)"
    "tells sim_model (Listeners_List sim_client) (\<lambda>A ls. ls = acc_listeners A)"
    "tells sim_model (FloatingIPs_List sim_client) (\<lambda>A ips. ips = acc_fips A)" for u
    by (simp_all add: calls)
  have "calm sim_model (Servers_List sim_client)" "calm sim_model (Servers_Get sim_client u)"
    "calm sim_model (wait_or_done sim_client d)" "calm sim_model (rand_Intn sim_client n)" for u d n
    by (simp_all add: calls)
  then show ?thesis
    unfolding reads_truthfully_def sim_model_sel Let_def using get lists exact orders soundD(1) by blast
qed

lemma attemptsI:
  assumes "\<And>w. sound (cw_acct w) \<Longrightarrow> cw_acct (snd (call w)) = cw_acct w \<or>
      sound (cw_acct (snd (call w))) \<and> R (cw_acct w) (cw_acct (snd (call w)))"
  shows "attempts sim_model call R"
  using assms unfolding attempts_def sim_model_sel by metis

lemma sim_writes_truthfully: "writes_truthfully sim_model"
proof -
  note calls = sim_client_def idle_client_def
  have "attempts sim_model (LoadBalancers_Create sim_client r) (lb_created r)" for r
    using sound_lb_created new_lb_created by (intro attemptsI) (simp add: calls)
  moreover have "attempts sim_model (LoadBalancers_Update sim_client u (zero_LoadBalancerRequest\<lparr>lbreq_Name := name\<rparr>)) (lb_renamed u name)" for u name
    using sound_renamed by (intro attemptsI) (simp add: calls lb_renamed_def)
  moreover have "attempts sim_model (Pools_Create sim_client r) (pool_created r)" for r
    using sound_pool_created new_pool_created by (intro attemptsI) (simp add: calls)
  moreover have "attempts sim_model (Members_Create sim_client u r) (member_created sim_net u r)" for u r
    using sound_member_created new_member_created by (intro attemptsI) (simp add: calls)
  moreover have "attempts sim_model (Listeners_Create sim_client r) (listener_created r)" for r
    using sound_listener_created new_listener_created by (intro attemptsI) (simp add: calls)
  moreover have "attempts sim_model (Listeners_Update sim_client u r) (listener_updated u r)" for u r
    using sound_listener_updated by (intro attemptsI) (simp add: calls listener_updated_def)
  moreover have "attempts sim_model (Monitors_Create sim_client r) (monitor_created r)" for r
    using sound_monitor_created new_monitor_created by (intro attemptsI) (simp add: calls)
  moreover have "attempts sim_model (Monitors_Update sim_client u r) (monitor_updated u r)" for u r
    using sound_monitor_updated by (intro attemptsI) (simp add: calls monitor_updated_def)
  moreover have "attempts sim_model (FloatingIPs_Update sim_client addr u) (fip_assigned addr u)" for addr u
    using sound_assigned by (intro attemptsI) (simp add: calls fip_assigned_def)
  moreover have "attempts sim_model (client_Do sim_client req) (deleted url)" if "client_NewRequest sim_client ''DELETE'' url = Inr req" for url req
    using that sound_deleted deleted_delete_resource by (intro attemptsI) (auto simp: calls)
  ultimately show ?thesis unfolding writes_truthfully_def sim_model_sel Let_def by blast
qed

lemma simulated_truthful: "truthful_api sim_model"
  by (simp add: truthful_api_def sim_reads_truthfully sim_writes_truthfully)

lemma sim_apart: "apart sim_model sim_loadbalancer"
  by (auto simp: apart_def calm_def sim_loadbalancer_def sample_k8s_def)

text \<open>The load balancer of a service beside one that is not its own.\<close>

definition other_lb :: LoadBalancer where
  "other_lb = new_lb (CreateLb_request (sample_lb\<lparr>lb_Name := ''other''\<rparr>)) (fresh (cw_acct busy_cloud))"

definition shared_cloud :: cloud_world where
  "shared_cloud = busy_cloud\<lparr>cw_acct := (cw_acct busy_cloud)\<lparr>acc_lbs := acc_lbs (cw_acct busy_cloud) @ [other_lb]\<rparr>\<rparr>"

lemma shared_sound: "sound (cw_acct shared_cloud)"
  using sound_lb_created [OF busy_sound] by (simp add: shared_cloud_def other_lb_def)

lemma other_name: "lb_Name other_lb = ''other''"
  by (simp add: other_lb_def new_lb_def CreateLb_request_def)

lemma shared_candidates: "candidates sample_info (cw_acct shared_cloud) = candidates sample_info (cw_acct busy_cloud)"
  by (simp add: candidates_def shared_cloud_def other_name sample_name)

lemma other_foreign: "lb_UUID other_lb \<in> foreign sample_info (cw_acct shared_cloud)"
proof -
  have "lb_UUID other_lb = fresh (cw_acct busy_cloud)" by (simp add: other_lb_def new_lb_def)
  then have "lb_UUID other_lb \<notin> lb_UUID ` set (candidates sample_info (cw_acct busy_cloud))"
    using fresh_ids(1) [of "cw_acct busy_cloud"] by (auto simp: candidates_def)
  moreover have "lb_UUID other_lb \<in> lb_UUIDs (cw_acct shared_cloud)" by (simp add: shared_cloud_def)
  ultimately show ?thesis by (simp add: foreign_def shared_candidates)
qed

section \<open>Properties\<close>

text \<open>
  C4. The handlers of a service leave all other load balancers alone, whatever the API answers. Let calls
  to the API fail at any point, also after they have done their work, as long as reading reports what is
  there and writing does what is documented or nothing. Then, however a handler ends, every load
  balancer that has neither the name nor the UUID the service has for its own is as before, with all its
  pools and their members, listeners and monitors; and every floating IP that the service does not ask
  for is as before, if it was assigned to no load balancer or to one of those.
\<close>

theorem handlers_confined:
  assumes "truthful_api M" "l_client l = am_client M" "apart M l" "am_ok M w"
    and "info = \<lparr>si_Service = service, si_clusterName = cluster\<rparr>" "A = am_acct M w"
  shows "(\<forall>r w'. EnsureLoadBalancer x l fuel cluster service nodes w = Some (r, w') \<longrightarrow>
      untouched (foreign info A) (service_addresses info) A (am_acct M w')) \<and>
    (\<forall>r w'. UpdateLoadBalancer x l fuel cluster service nodes w = Some (r, w') \<longrightarrow>
      untouched (foreign info A) (service_addresses info) A (am_acct M w')) \<and>
    (\<forall>r w'. EnsureLoadBalancerDeleted x l fuel cluster service w = Some (r, w') \<longrightarrow>
      untouched (foreign info A) {} A (am_acct M w'))"
proof -
  let ?J = "\<lambda>I. untouched (foreign info A) I A"
  note service = reconcile_service_keeps [OF assms(1-3)] and lock = with_lock_keeps [OF assms(3)]
  have read: "calm M (actualLbState (l_client l) info)" using actualLbState_tells(1) [OF assms(1)] by (simp add: assms(2))
  have upd: "keeps_fuel M (?J (service_addresses info)) (UpdateLoadBalancer x l fuel cluster service nodes)"
    unfolding UpdateLoadBalancer_def bind_info assms(5) [symmetric] by (intro lock service)
  have ens: "keeps_fuel M (?J (service_addresses info)) (EnsureLoadBalancer x l fuel cluster service nodes)"
    unfolding EnsureLoadBalancer_def bind_info assms(5) [symmetric]
    by (intro lock keeps_bind_fio service keeps_run_io read annotate_and_report_calm [OF assms(3)])
  have del: "keeps_fuel M (?J {}) (EnsureLoadBalancerDeleted x l fuel cluster service)"
    unfolding EnsureLoadBalancerDeleted_def bind_info assms(5) [symmetric]
    by (intro lock keeps_bind_fio ensureValidConfig_keeps [OF assms(3)] reconcile_keeps [OF assms(1,2)] calm_return)
       (simp add: addresses_def empty_lbState_def)
  note kept = ens [unfolded assms(6)] upd [unfolded assms(6)] del [unfolded assms(6)]
  show ?thesis
    unfolding assms(6)
    by (intro conjI allI impI; erule keeps_untouched [OF kept(1) assms(4)] keeps_untouched [OF kept(2) assms(4)] keeps_untouched [OF kept(3) assms(4)])
qed

theorem handlers_confined_witness:
  "\<exists>v. EnsureLoadBalancerDeleted sample_ext sim_loadbalancer 3 ''kubernetes'' sample_service shared_cloud = Some (Ok (), v) \<and>
     candidates sample_info (cw_acct shared_cloud) \<noteq> [] \<and> candidates sample_info (cw_acct v) = [] \<and>
     other_lb \<in> set (acc_lbs (cw_acct v))"
proof -
  have "cw_pending shared_cloud = 2" by (simp add: shared_cloud_def busy_cloud_def sim_client_def)
  then obtain v where v: "candidates sample_info (cw_acct v) = []"
    "reconcileLbState sample_ext sim_client (return_io (Some empty_lbState)) (read_actual sim_client sample_info) 3 shared_cloud = Some (Ok (), v)"
    using deletion_reaches [OF simulated_documented, of sample_info shared_cloud sample_ext]
    by (auto simp: sample_name shared_candidates busy_candidates shared_sound)
  then have run: "EnsureLoadBalancerDeleted sample_ext sim_loadbalancer 3 ''kubernetes'' sample_service shared_cloud = Some (Ok (), v)"
    using sim_config [of 3 shared_cloud]
    by (simp add: EnsureLoadBalancerDeleted_def with_lock_def bind_fio_def actual_func_def sim_sel flip: sample_info_def)
  let ?A = "cw_acct shared_cloud" and ?F = "foreign sample_info (cw_acct shared_cloud)"
  have "untouched ?F {} ?A (cw_acct v)"
    using handlers_confined [OF simulated_truthful sim_sel(1) sim_apart _ sample_info_def refl, of shared_cloud sample_ext 3 "[]"] run
    by (simp add: shared_sound)
  moreover have "lb_UUID other_lb \<in> ?F" by (rule other_foreign)
  moreover have "other_lb \<in> set (acc_lbs ?A)" by (simp add: shared_cloud_def)
  ultimately have "other_lb \<in> set (acc_lbs (cw_acct v))" using same_for_sets(1) [of ?F ?A "cw_acct v"] by (auto simp: untouched_def)
  then show ?thesis using run v(1) by (auto simp: shared_candidates busy_candidates)
qed

end
