(* ===== verification/Instances.thy ===== *)
theory Instances
  imports Server_Mapper
begin

text \<open>
  The instances interface (\<open>src/pkg/cloudscale_ccm/instances.go\<close>), through which Kubernetes asks
  whether the server of a node exists, whether it is shut down, and for its metadata.
\<close>

section \<open>Operations\<close>

definition no_ProviderID :: "Node \<Rightarrow> error" where
  "no_ProviderID node = ErrorMsg (''node '' @ node_Name node @ '' has no ProviderID'')"

definition unable_to_find :: "Node \<Rightarrow> string" where
  "unable_to_find node = ''unable to find node '' @ node_Name node @ '': ''"

definition InstanceExists :: "ext \<Rightarrow> 'w client \<Rightarrow> Node \<Rightarrow> ('w, bool) io" where
  "InstanceExists x c node w =
     (if node_ProviderID node = [] then (Err (no_ProviderID node), w)
      else case findByNode x c (Some node) w of (lim, w') \<Rightarrow>
        (case limiter_AtMostOne lim of
           Err e \<Rightarrow> (Err (Wrapped (unable_to_find node) e), w')
         | Ok None \<Rightarrow> (Ok False, w')
         | Ok (Some server) \<Rightarrow> (Ok True, w')
         | Panic m \<Rightarrow> (Panic m, w')))"

definition InstanceShutdown :: "ext \<Rightarrow> 'w client \<Rightarrow> Node \<Rightarrow> ('w, bool) io" where
  "InstanceShutdown x c node w =
     (if node_ProviderID node = [] then (Err (no_ProviderID node), w)
      else case findByNode x c (Some node) w of (lim, w') \<Rightarrow>
        (case limiter_One lim of
           Err e \<Rightarrow> (Err (Wrapped (unable_to_find node) e), w')
         | Ok server \<Rightarrow> (Ok (srv_Status server = ''stopped''), w')
         | Panic m \<Rightarrow> (Panic m, w')))"

record InstanceMetadata =
  im_ProviderID :: string
  im_InstanceType :: string
  im_NodeAddresses :: "NodeAddress list"
  im_Zone :: string
  im_Region :: string

definition get_InstanceMetadata :: "ext \<Rightarrow> 'w client \<Rightarrow> Node \<Rightarrow> ('w, InstanceMetadata) io" where
  "get_InstanceMetadata x c node w =
     (case findByNode x c (Some node) w of (lim, w') \<Rightarrow>
        (case limiter_One lim of
           Err e \<Rightarrow> (Err (Wrapped (unable_to_find node) e), w')
         | Ok server \<Rightarrow>
             (case x_uuid_Parse x (srv_UUID server) of
                Inl e \<Rightarrow> (Err (ErrorMsg (''invalid server UUID: '' @ srv_UUID server)), w')
              | Inr i \<Rightarrow>
                  (Ok \<lparr>im_ProviderID = ProviderID_String x \<lparr>pid_id = i\<rparr>,
                       im_InstanceType = srv_FlavorSlug server,
                       im_NodeAddresses = nodeAddresses (Some server),
                       im_Zone = srv_ZoneSlug server,
                       im_Region = strings_TrimRight (srv_ZoneSlug server) ''0123456789''\<rparr>, w'))
         | Panic m \<Rightarrow> (Panic m, w')))"

definition missing_node :: Node where
  "missing_node = \<lparr>node_Name = ''worker-9'', node_ProviderID = ''cloudscale://'' @ sample_uuid_text,
     node_Labels = []\<rparr>"

section \<open>Laws\<close>

lemma findByNode_provider:
  "node_ProviderID n \<noteq> [] \<Longrightarrow> findByNode x c (Some n) w =
     (case parseCloudscaleProviderID x (node_ProviderID n) of
        Ok i \<Rightarrow> getByProviderID x c i w
      | Err e \<Rightarrow> (limiter_New (Some (Wrapped (node_ProviderID n @ '' is not a valid cloudscale provider id: '') e)) [], w)
      | Panic m \<Rightarrow> (limiter_New (Some (ErrorMsg m)) [], w))"
  by (simp add: findByNode_def)

lemma getByProviderID_empty:
  assumes "getByProviderID x c i w = (lim, w')" "lim_Error lim = None" "lim_elements lim = []"
  shows "\<exists>err. Servers_Get c (x_uuid_String x (pid_id i)) w = (Inl err, w') \<and> errors_As_response err = Some 404"
  using assms by (auto simp: getByProviderID_def ProviderID_UUID_def split: prod.splits sum.splits if_splits)

lemma TrimRight_decomp:
  obtains digits where "s = strings_TrimRight s cs @ digits" "set digits \<subseteq> set cs"
    "strings_TrimRight s cs = [] \<or> last (strings_TrimRight s cs) \<notin> set cs"
proof -
  let ?P = "\<lambda>c. c \<in> set cs"
  have "rev s = takeWhile ?P (rev s) @ dropWhile ?P (rev s)" by simp
  then have "s = rev (dropWhile ?P (rev s)) @ rev (takeWhile ?P (rev s))"
    by (metis rev_append rev_rev_ident)
  moreover have "set (rev (takeWhile ?P (rev s))) \<subseteq> set cs" by (auto dest: set_takeWhileD)
  moreover have "strings_TrimRight s cs = [] \<or> last (strings_TrimRight s cs) \<notin> set cs"
    unfolding strings_TrimRight_def using hd_dropWhile [of ?P "rev s"] by (auto simp: last_rev)
  ultimately show thesis using that unfolding strings_TrimRight_def by blast
qed

section \<open>Properties\<close>

text \<open>
  C28. A node is only reported as gone on the word of the API: \<open>InstanceExists\<close> answers false only if
  the node has a provider ID, this is a cloudscale provider ID, and the API answered the request for
  the server with that UUID with the status 404. A missing provider ID, a provider ID of another
  cloud and any other failure of the API are errors, never a false.
\<close>

theorem InstanceExists_false_only_on_404:
  assumes "InstanceExists x c node w = (Ok False, w')"
  shows "\<exists>i err. parseCloudscaleProviderID x (node_ProviderID node) = Ok i \<and>
     Servers_Get c (x_uuid_String x (pid_id i)) w = (Inl err, w') \<and> errors_As_response err = Some 404"
proof -
  have p: "node_ProviderID node \<noteq> []" using assms by (auto simp: InstanceExists_def)
  obtain lim where lim: "findByNode x c (Some node) w = (lim, w')" "lim_Error lim = None" "lim_elements lim = []"
    using assms p
    by (auto simp: InstanceExists_def AtMostOne_None_iff split: prod.splits res.splits option.splits)
  then obtain i where i: "parseCloudscaleProviderID x (node_ProviderID node) = Ok i"
    using p by (auto simp: findByNode_provider split: res.splits)
  with lim p have "getByProviderID x c i w = (lim, w')" by (simp add: findByNode_provider)
  from getByProviderID_empty [OF this lim(2,3)] i show ?thesis by blast
qed

theorem InstanceExists_false_only_on_404_witness:
  "InstanceExists sample_ext idle_client missing_node () = (Ok False, ()) \<and>
   (\<exists>i err. parseCloudscaleProviderID sample_ext (node_ProviderID missing_node) = Ok i \<and>
     Servers_Get idle_client (x_uuid_String sample_ext (pid_id i)) () = (Inl err, ()) \<and>
     errors_As_response err = Some 404)"
proof -
  have p: "parseCloudscaleProviderID sample_ext (''cloudscale://'' @ sample_uuid_text) = Ok \<lparr>pid_id = [128, 185]\<rparr>"
    by (simp add: parse_unfold sample_uuid_text_def sample_ext_def ProviderName_def strings_Cut.simps
        strings_Trim_def strings_TrimLeft_def strings_TrimRight_def)
  have "InstanceExists sample_ext idle_client missing_node () = (Ok False, ())"
    by (simp add: InstanceExists_def findByNode_provider p [simplified] missing_node_def getByProviderID_def
        idle_client_def limiter_AtMostOne_def)
  from this InstanceExists_false_only_on_404 [OF this] show ?thesis by blast
qed

text \<open>
  C29. The metadata of a node names the server it was made from: the provider ID is that of the
  server's UUID, the addresses are those of \<open>nodeAddresses\<close>, and the region is the zone without its
  trailing digits.
\<close>

theorem InstanceMetadata_faithful:
  assumes "get_InstanceMetadata x c node w = (Ok md, w')"
  shows "\<exists>server i digits. findByNode x c (Some node) w = (limiter_New None [server], w') \<and>
     x_uuid_Parse x (srv_UUID server) = Inr i \<and>
     im_ProviderID md = ''cloudscale://'' @ x_uuid_String x i \<and>
     im_InstanceType md = srv_FlavorSlug server \<and>
     im_NodeAddresses md = nodeAddresses (Some server) \<and> im_Zone md = srv_ZoneSlug server \<and>
     im_Zone md = im_Region md @ digits \<and> set digits \<subseteq> set ''0123456789'' \<and>
     (im_Region md = [] \<or> last (im_Region md) \<notin> set ''0123456789'')"
proof -
  from assms obtain lim server i where
    f: "findByNode x c (Some node) w = (lim, w')" "limiter_One lim = Ok server" and
    u: "x_uuid_Parse x (srv_UUID server) = Inr i" and
    md: "md = \<lparr>im_ProviderID = ProviderID_String x \<lparr>pid_id = i\<rparr>, im_InstanceType = srv_FlavorSlug server,
       im_NodeAddresses = nodeAddresses (Some server), im_Zone = srv_ZoneSlug server,
       im_Region = strings_TrimRight (srv_ZoneSlug server) ''0123456789''\<rparr>"
    by (auto simp: get_InstanceMetadata_def split: prod.splits res.splits sum.splits)
  from f(2) have "lim = limiter_New None [server]"
    by (cases lim) (simp add: One_iff limiter_New_def)
  moreover obtain digits where "srv_ZoneSlug server = strings_TrimRight (srv_ZoneSlug server) ''0123456789'' @ digits"
    "set digits \<subseteq> set ''0123456789''"
    "strings_TrimRight (srv_ZoneSlug server) ''0123456789'' = [] \<or>
     last (strings_TrimRight (srv_ZoneSlug server) ''0123456789'') \<notin> set ''0123456789''"
    using TrimRight_decomp [of "srv_ZoneSlug server" "''0123456789''"] by blast
  ultimately show ?thesis using f(1) u
    by (intro exI [of _ server] exI [of _ i] exI [of _ digits])
       (simp add: md ProviderID_String_def ProviderName_def)
qed

theorem InstanceMetadata_faithful_witness:
  "\<exists>md. get_InstanceMetadata sample_ext (idle_client\<lparr>Servers_List := (\<lambda>w. (Inr [sample_server], w))\<rparr>)
       sample_node () = (Ok md, ()) \<and> im_Zone md = ''lpg1''"
proof -
  let ?c = "idle_client\<lparr>Servers_List := (\<lambda>w. (Inr [sample_server], w))\<rparr>"
  have f: "findByNode sample_ext ?c (Some sample_node) () = (limiter_New None [sample_server], ())"
    by (simp add: findByNode_def srv_findByName_def sample_node_def sample_server_def)
  then obtain md where md: "get_InstanceMetadata sample_ext ?c sample_node () = (Ok md, ())"
    by (simp add: get_InstanceMetadata_def limiter_One_def sample_server_def sample_ext_def)
  from InstanceMetadata_faithful [OF md] f have "im_Zone md = ''lpg1''"
    by (auto simp: limiter_New_def sample_server_def)
  with md show ?thesis by blast
qed

end
