(* ===== verification/Cloud.thy ===== *)
theory Cloud
  imports Loadbalancer Instances
begin

text \<open>
  The cloud provider itself (\<open>src/pkg/cloudscale_ccm/cloud.go\<close>): its configuration from the environment,
  its construction, and the interfaces it offers to Kubernetes. The environment is a function from
  names to values, empty for a variable that is not set. The SDK's \<open>NewClient\<close>, the version of the
  build, the registry of the Kubernetes library and the builders that \<open>Initialize\<close> receives are
  arguments. What is logged is part of the result, since it must not contain the access token.
\<close>

section \<open>Configuration\<close>

definition accessToken :: string where "accessToken = ''CLOUDSCALE_ACCESS_TOKEN''"
definition apiURL :: string where "apiURL = ''CLOUDSCALE_API_URL''"
definition apiTimeoutEnv :: string where "apiTimeoutEnv = ''CLOUDSCALE_API_TIMEOUT''"
definition DefaultTimeout :: int where "DefaultTimeout = 20 * Second"

text \<open>
  \<open>%.4s\<close> cuts a string after four characters, where a character is a UTF-8 sequence or a byte that
  is not part of one.
\<close>

fun take_runes :: "nat \<Rightarrow> string \<Rightarrow> string" where
  "take_runes 0 s = []"
| "take_runes (Suc n) [] = []"
| "take_runes (Suc n) (c # s) =
     (let k = max 1 (utf8_len (c # s)) in take k (c # s) @ take_runes n (drop k (c # s)))"

definition maskAccessToken :: "string \<Rightarrow> string" where
  "maskAccessToken token =
     (if length token < 4 then [] else take_runes 4 token @ replicate (length token - 4) (CHR ''*''))"

text \<open>The product of two durations, in 64 bits.\<close>

definition duration_mult :: "int \<Rightarrow> int \<Rightarrow> int" where
  "duration_mult a b = sint (word_of_int a * word_of_int b :: 64 word)"

definition apiTimeout :: "(string \<Rightarrow> string) \<Rightarrow> int" where
  "apiTimeout env =
     (let seconds = fst (strconv_Atoi (env apiTimeoutEnv)) in
      if seconds > 0 then duration_mult seconds Second else DefaultTimeout)"

section \<open>The API client\<close>

datatype log_value = LogString string | LogDuration int

datatype log_entry = InfoS string "(string \<times> log_value) list" | LogInfo string | Warning string

text \<open>The HTTP client with its static token and its timeout, and the client of the SDK.\<close>

record http_client =
  hc_AccessToken :: string
  hc_Timeout :: int

record 'w sdk_client =
  sc_calls :: "'w client"
  sc_UserAgent :: string

definition newCloudscaleClient ::
  "(http_client \<Rightarrow> 'w sdk_client) \<Rightarrow> string \<Rightarrow> (string \<Rightarrow> string) \<Rightarrow> string \<Rightarrow> int \<Rightarrow> log_entry list \<times> 'w sdk_client" where
  "newCloudscaleClient NewClient GitVersion env token timeout =
     (let httpClient = \<lparr>hc_AccessToken = token, hc_Timeout = timeout\<rparr>;
          logged = InfoS ''cloudscale API client''
            [(''url'', LogString (env apiURL)), (''token'', LogString (maskAccessToken (env accessToken))),
             (''timeout'', LogDuration timeout)];
          c = NewClient httpClient
      in ([logged], c\<lparr>sc_UserAgent := sc_UserAgent c @ '' ccm/'' @ GitVersion\<rparr>))"

section \<open>The provider\<close>

type_synonym 'w recorder = "Service \<Rightarrow> string \<Rightarrow> string \<Rightarrow> string \<Rightarrow> 'w \<Rightarrow> 'w"

record 'w cloud =
  cl_instances :: "'w client"
  cl_loadbalancer :: "'w loadbalancer"
  cl_eventRecorder :: "'w recorder option"

text \<open>
  \<open>l\<close> holds the mutex map and the iteration orders of the new provider; there is no Kubernetes client
  before \<open>Initialize\<close>. \<open>config\<close> says whether a configuration file was given.
\<close>

definition newCloudscaleProvider ::
  "(http_client \<Rightarrow> 'w sdk_client) \<Rightarrow> string \<Rightarrow> 'w loadbalancer \<Rightarrow> (string \<Rightarrow> string) \<Rightarrow> bool \<Rightarrow> log_entry list \<times> 'w cloud res" where
  "newCloudscaleProvider NewClient GitVersion l env config =
     (let warned = (if config then [Warning ''--cloud-config received but ignored''] else []);
          token = env accessToken in
      if length token = 0 then (warned, Err (ErrorMsg (''no '' @ accessToken @ '' configured'')))
      else case newCloudscaleClient NewClient GitVersion env token (apiTimeout env) of (logged, client) \<Rightarrow>
        (warned @ logged, Ok \<lparr>cl_instances = sc_calls client,
           cl_loadbalancer = l\<lparr>l_client := sc_calls client, l_k8s := None\<rparr>, cl_eventRecorder = None\<rparr>))"

text \<open>The registration with the Kubernetes library when the package is loaded.\<close>

definition init_provider ::
  "(string \<Rightarrow> (bool \<Rightarrow> log_entry list \<times> 'w cloud res) \<Rightarrow> 'r) \<Rightarrow> (http_client \<Rightarrow> 'w sdk_client) \<Rightarrow> string \<Rightarrow> 'w loadbalancer \<Rightarrow>
   (string \<Rightarrow> string) \<Rightarrow> 'r" where
  "init_provider RegisterCloudProvider NewClient GitVersion l env =
     RegisterCloudProvider ProviderName (newCloudscaleProvider NewClient GitVersion l env)"

text \<open>\<open>Initialize\<close>, less the goroutine that shuts the event broadcaster down.\<close>

definition Initialize :: "(string \<Rightarrow> 'w k8s) \<Rightarrow> ('w k8s \<Rightarrow> string \<Rightarrow> 'w recorder) \<Rightarrow> 'w cloud \<Rightarrow> 'w cloud" where
  "Initialize ClientOrDie NewRecorder c =
     (let k = ClientOrDie ''cloudscale-cloud-controller-manager'';
          recorder = NewRecorder k ''cloudscale-cloud-controller-manager'' in
      c\<lparr>cl_eventRecorder := Some recorder,
        cl_loadbalancer := (cl_loadbalancer c)\<lparr>l_k8s := Some k, l_Event := recorder\<rparr>\<rparr>)"

text \<open>The interfaces the provider offers; of those that are not supported nothing is known, hence \<open>unit\<close>.\<close>

definition cloud_LoadBalancer :: "'w cloud \<Rightarrow> 'w loadbalancer option \<times> bool" where
  "cloud_LoadBalancer c = (Some (cl_loadbalancer c), True)"

definition cloud_Instances :: "'w cloud \<Rightarrow> unit option \<times> bool" where
  "cloud_Instances c = (None, False)"

definition cloud_InstancesV2 :: "'w cloud \<Rightarrow> 'w client option \<times> bool" where
  "cloud_InstancesV2 c = (Some (cl_instances c), True)"

definition cloud_Zones :: "'w cloud \<Rightarrow> unit option \<times> bool" where
  "cloud_Zones c = (None, False)"

definition cloud_Clusters :: "'w cloud \<Rightarrow> unit option \<times> bool" where
  "cloud_Clusters c = (None, False)"

definition cloud_Routes :: "'w cloud \<Rightarrow> unit option \<times> bool" where
  "cloud_Routes c = (None, False)"

definition cloud_ProviderName :: "'w cloud \<Rightarrow> string" where
  "cloud_ProviderName c = ProviderName"

definition HasClusterID :: "'w cloud \<Rightarrow> bool" where
  "HasClusterID c = False"

section \<open>Laws\<close>

lemma take_runes_ascii: "\<forall>c \<in> set s. (of_char c :: nat) < 128 \<Longrightarrow> take_runes n s = take n s"
  by (induction n s rule: take_runes.induct) (auto simp: utf8_len_def)

lemma maskAccessToken_same:
  assumes "\<forall>c \<in> set t \<union> set u. (of_char c :: nat) < 128" "length t = length u" "take 4 t = take 4 u"
  shows "maskAccessToken t = maskAccessToken u"
  using assms by (simp add: maskAccessToken_def take_runes_ascii)

lemma duration_mult_exact_iff:
  assumes "0 \<le> a * b"
  shows "duration_mult a b = a * b \<longleftrightarrow> a * b < 2 ^ 63"
proof -
  have "duration_mult a b = signed_take_bit 63 (a * b)"
    by (simp add: duration_mult_def of_int_mult [symmetric] sint_sbintrunc' del: of_int_mult)
  moreover have "signed_take_bit 63 (a * b) = a * b \<longleftrightarrow> - (2 ^ 63) \<le> a * b \<and> a * b < 2 ^ 63"
    by (simp add: signed_take_bit_int_eq_self_iff)
  ultimately show ?thesis using assms by auto
qed

section \<open>Properties\<close>

text \<open>
  C36. Starting up reveals at most the length of the access token and its first four characters: with two
  ASCII tokens that agree in these and an environment that is the same otherwise, the provider logs
  exactly the same.
\<close>

theorem startup_log_hides_token:
  assumes "\<forall>c \<in> set t \<union> set u. (of_char c :: nat) < 128" "length t = length u" "take 4 t = take 4 u"
  shows "fst (newCloudscaleProvider NewClient ver l (env(accessToken := t)) config) =
    fst (newCloudscaleProvider NewClient' ver' l' (env(accessToken := u)) config)"
proof -
  have "maskAccessToken t = maskAccessToken u" by (rule maskAccessToken_same [OF assms])
  moreover have "apiTimeout (env(accessToken := v)) = apiTimeout env" "apiURL \<noteq> accessToken" for v
    by (simp_all add: apiTimeout_def apiTimeoutEnv_def accessToken_def apiURL_def)
  moreover have "t = [] \<longleftrightarrow> u = []" using assms(2) by (metis length_0_conv)
  ultimately show ?thesis by (simp add: newCloudscaleProvider_def newCloudscaleClient_def Let_def)
qed

theorem startup_log_hides_token_witness:
  "fst (newCloudscaleProvider (\<lambda>h. \<lparr>sc_calls = idle_client :: unit client, sc_UserAgent = hc_AccessToken h\<rparr>) ''1.0'' sample_loadbalancer
      ((\<lambda>_. [])(accessToken := ''1234secret'')) True) =
   fst (newCloudscaleProvider (\<lambda>h. \<lparr>sc_calls = idle_client :: unit client, sc_UserAgent = []\<rparr>) ''1.0'' sample_loadbalancer
      ((\<lambda>_. [])(accessToken := ''1234public'')) True)"
  by (rule startup_log_hides_token) simp_all

text \<open>
  C35. The configured timeout is used as given exactly up to 9223372036 seconds: the conversion to
  nanoseconds is done in 64 bits, and every larger number of seconds gives some other timeout.
\<close>

theorem apiTimeout_exact_iff:
  assumes "env apiTimeoutEnv = show_int n" "0 < n" "n < 2 ^ 63"
  shows "apiTimeout env = n * Second \<longleftrightarrow> n \<le> 9223372036"
proof -
  have "strconv_Atoi (show_int n) = (n, None)" using assms(2,3) by (simp add: Atoi_show_int)
  then have "apiTimeout env = duration_mult n Second" using assms(1,2) by (simp add: apiTimeout_def)
  then show ?thesis using duration_mult_exact_iff [of n Second] assms(2) by auto
qed

theorem apiTimeout_exact_iff_witness: "apiTimeout (\<lambda>_. show_int 9223372037) \<noteq> 9223372037 * Second"
  using apiTimeout_exact_iff [of "\<lambda>_. show_int 9223372037" 9223372037] by simp

end
