(* ===== verification/Controller_Main.thy ===== *)
theory Controller_Main
  imports Cloud
begin

text \<open>
  The process around the provider (\<open>src/cmd/cloudscale-cloud-controller-manager/main.go\<close>). The options of
  the Kubernetes library, its registry of providers and the command it builds are not part of the
  repository: they are arguments here. \<open>klog.Fatalf\<close> ends the process; the library calls it too, so
  that \<open>InitCloudProvider\<close> need not return.
\<close>

section \<open>Operations\<close>

datatype 'a process = Returns 'a | Fatal string "error option" | Crash string

text \<open>The options and the completed configuration, as far as the code looks at them.\<close>

record ccm_options =
  opt_CloudProviderName :: string
  opt_CloudConfigFile :: string
  opt_AllowUntaggedCloud :: bool

type_synonym 'w init_provider_call = "string \<Rightarrow> string \<Rightarrow> ('w cloud option \<times> error option) process"

definition cloudInitializer :: "'w init_provider_call \<Rightarrow> ccm_options \<Rightarrow> log_entry list \<times> 'w cloud process" where
  "cloudInitializer InitCloudProvider config =
     (case InitCloudProvider (opt_CloudProviderName config) (opt_CloudConfigFile config) of
        Fatal msg err \<Rightarrow> ([], Fatal msg err)
      | Crash msg \<Rightarrow> ([], Crash msg)
      | Returns (cloud, Some err) \<Rightarrow> ([], Fatal ''Cloud provider could not be initialized: '' (Some err))
      | Returns (None, None) \<Rightarrow> ([], Fatal ''Cloud provider is nil'' None)
      | Returns (Some cloud, None) \<Rightarrow>
          if \<not> HasClusterID cloud then
            if opt_AllowUntaggedCloud config then
              ([Warning (''Detected a cluster without a ClusterID. A ClusterID will be required in the future. '' @
                 ''Please tag your cluster to avoid any future issues''),
                LogInfo ''cloudscale-cloud-controller-manager initialized''], Returns cloud)
            else ([], Fatal (''No ClusterID found. A ClusterID is required for the cloud provider to function properly. '' @
                 ''This check can be bypassed by setting the allow-untagged-cloud option'') None)
          else ([LogInfo ''cloudscale-cloud-controller-manager initialized''], Returns cloud))"

text \<open>
  \<open>main\<close>: the name of the provider is set in the options before their error is looked at. \<open>cli_Run\<close> stands
  for building the command and running it to its exit code.
\<close>

definition ccm_main ::
  "ccm_options option \<times> error option \<Rightarrow> (ccm_options \<Rightarrow> (ccm_options \<Rightarrow> log_entry list \<times> 'w cloud process) \<Rightarrow> int) \<Rightarrow>
   'w init_provider_call \<Rightarrow> int process" where
  "ccm_main NewCloudControllerManagerOptions cli_Run InitCloudProvider =
     (case NewCloudControllerManagerOptions of (ccmOptions, err) \<Rightarrow>
        (case ccmOptions of
           None \<Rightarrow> Crash ''nil pointer dereference''
         | Some opts \<Rightarrow>
             let opts' = opts\<lparr>opt_CloudProviderName := ProviderName\<rparr> in
             (case err of
                Some e \<Rightarrow> Fatal ''unable to initialize command options: '' (Some e)
              | None \<Rightarrow> Returns (cli_Run opts' (cloudInitializer InitCloudProvider)))))"

section \<open>Properties\<close>

text \<open>
  What the library documents of \<open>InitCloudProvider\<close> once one provider is registered: without a name there
  is no provider and no error; a configuration file that is given but cannot be opened ends the process;
  for a name that is not registered there is an error; and for the registered name it is what the
  factory delivers, which is told whether there is a configuration. \<open>opens\<close> says which files can be opened.
\<close>

definition registered ::
  "'w init_provider_call \<Rightarrow> (string \<Rightarrow> bool) \<Rightarrow> string \<Rightarrow> (bool \<Rightarrow> log_entry list \<times> 'w cloud res) \<Rightarrow> bool" where
  "registered InitCloudProvider opens provider factory \<longleftrightarrow> (\<forall>name file.
     if name = [] then InitCloudProvider name file = Returns (None, None)
     else if file \<noteq> [] \<and> \<not> opens file then (\<exists>msg err. InitCloudProvider name file = Fatal msg err)
     else if name \<noteq> provider then (\<exists>err. InitCloudProvider name file = Returns (None, Some err))
     else case snd (factory (file \<noteq> [])) of
       Ok c \<Rightarrow> InitCloudProvider name file = Returns (Some c, None)
     | Err e \<Rightarrow> (\<exists>err. InitCloudProvider name file = Returns (None, Some err))
     | Panic msg \<Rightarrow> InitCloudProvider name file = Crash msg)"

text \<open>The conditions under which the controller starts.\<close>

definition can_start :: "(string \<Rightarrow> bool) \<Rightarrow> (string \<Rightarrow> string) \<Rightarrow> ccm_options \<Rightarrow> bool" where
  "can_start opens env config \<longleftrightarrow> opt_CloudProviderName config = ''cloudscale'' \<and>
     (opt_CloudConfigFile config \<noteq> [] \<longrightarrow> opens (opt_CloudConfigFile config)) \<and>
     env ''CLOUDSCALE_ACCESS_TOKEN'' \<noteq> [] \<and> opt_AllowUntaggedCloud config"

lemma newCloudscaleProvider_cases:
  assumes "calls = sc_calls (NewClient \<lparr>hc_AccessToken = env accessToken, hc_Timeout = apiTimeout env\<rparr>)"
  shows "env accessToken = [] \<Longrightarrow> \<exists>e. snd (newCloudscaleProvider NewClient ver l env given) = Err e"
    and "env accessToken \<noteq> [] \<Longrightarrow> snd (newCloudscaleProvider NewClient ver l env given) =
      Ok \<lparr>cl_instances = calls, cl_loadbalancer = l\<lparr>l_client := calls, l_k8s := None\<rparr>, cl_eventRecorder = None\<rparr>"
  by (simp_all add: assms newCloudscaleProvider_def newCloudscaleClient_def Let_def)

text \<open>
  C37. The controller starts exactly when it is asked for the cloudscale provider, a configuration file,
  if one is named, can be opened, an access token is configured and clusters without an ID are
  allowed (the provider never has a cluster ID); in all other cases the process ends with a message,
  without a word of having been initialized. Once it has started and the library has initialized the
  provider, the load balancer handlers and the instances work over the one client made for the token
  and the configured timeout, the handlers on the cluster they were given, and no other interface is
  offered. The library is assumed to behave as documented for the one provider that \<open>init\<close> registers.
\<close>

theorem controller_starts_iff:
  assumes "init_provider (registered InitCloudProvider opens) NewClient ver l env"
    and "calls = sc_calls (NewClient \<lparr>hc_AccessToken = env accessToken, hc_Timeout = apiTimeout env\<rparr>)"
  shows "if can_start opens env config
    then \<exists>c warning. cloudInitializer InitCloudProvider config =
        ([Warning warning, LogInfo ''cloudscale-cloud-controller-manager initialized''], Returns c) \<and>
      (\<forall>ClientOrDie NewRecorder k. k = ClientOrDie ''cloudscale-cloud-controller-manager'' \<longrightarrow>
        (let c' = Initialize ClientOrDie NewRecorder c in
          cloud_InstancesV2 c' = (Some calls, True) \<and>
          cloud_LoadBalancer c' = (Some (l\<lparr>l_client := calls, l_k8s := Some k,
            l_Event := NewRecorder k ''cloudscale-cloud-controller-manager''\<rparr>), True) \<and>
          \<not> snd (cloud_Instances c') \<and> \<not> snd (cloud_Zones c') \<and> \<not> snd (cloud_Clusters c') \<and> \<not> snd (cloud_Routes c')))
    else \<exists>msg err. cloudInitializer InitCloudProvider config = ([], Fatal msg err)"
proof -
  let ?name = "opt_CloudProviderName config" and ?file = "opt_CloudConfigFile config"
  let ?c = "\<lparr>cl_instances = calls, cl_loadbalancer = l\<lparr>l_client := calls, l_k8s := None\<rparr>, cl_eventRecorder = None\<rparr>"
  have documented: "registered InitCloudProvider opens ''cloudscale'' (newCloudscaleProvider NewClient ver l env)"
    using assms(1) by (simp add: init_provider_def ProviderName_def)
  note factory = newCloudscaleProvider_cases [of calls NewClient env, OF assms(2)] and init = documented [unfolded registered_def, rule_format, of ?name ?file]
  consider "?name = []" | "?name \<noteq> []" "?file \<noteq> []" "\<not> opens ?file" | "?name \<noteq> []" "?file = [] \<or> opens ?file" "?name \<noteq> ''cloudscale''"
    | "?file = [] \<or> opens ?file" "?name = ''cloudscale''" "env accessToken = []"
    | "?file = [] \<or> opens ?file" "?name = ''cloudscale''" "env accessToken \<noteq> []" by blast
  then show ?thesis
  proof cases
    case 5
    then have "InitCloudProvider ?name ?file = Returns (Some ?c, None)" using init factory(2) by auto
    then show ?thesis using 5
      by (auto simp: can_start_def accessToken_def cloudInitializer_def HasClusterID_def Initialize_def Let_def cloud_InstancesV2_def
          cloud_LoadBalancer_def cloud_Instances_def cloud_Zones_def cloud_Clusters_def cloud_Routes_def)
  next
    case 4
    obtain e where "snd (newCloudscaleProvider NewClient ver l env (?file \<noteq> [])) = Err e" using factory(1) [OF 4(3)] by blast
    then obtain err where "InitCloudProvider ?name ?file = Returns (None, Some err)" using 4(1,2) init by auto
    then show ?thesis using 4 by (simp add: can_start_def accessToken_def cloudInitializer_def)
  qed (use init in \<open>auto simp: can_start_def cloudInitializer_def\<close>)
qed

text \<open>A library in which one provider is registered and one file can be opened.\<close>

definition sample_opens :: "string \<Rightarrow> bool" where
  "sample_opens file \<longleftrightarrow> file = ''/etc/cloud.conf''"

definition sample_init :: "unit init_provider_call" where
  "sample_init name file =
     (if name = [] then Returns (None, None)
      else if file \<noteq> [] \<and> \<not> sample_opens file then Fatal (''Couldn't open cloud provider configuration '' @ file) None
      else if name \<noteq> ''cloudscale'' then Returns (None, Some (ErrorMsg ''unknown cloud provider''))
      else Returns (Some \<lparr>cl_instances = idle_client,
        cl_loadbalancer = sample_loadbalancer\<lparr>l_client := idle_client, l_k8s := None\<rparr>, cl_eventRecorder = None\<rparr>, None))"

theorem controller_starts_iff_witness:
  "(\<exists>c logged. cloudInitializer sample_init \<lparr>opt_CloudProviderName = ''cloudscale'',
      opt_CloudConfigFile = ''/etc/cloud.conf'', opt_AllowUntaggedCloud = True\<rparr> = (logged, Returns c)) \<and>
   (\<exists>msg err. cloudInitializer sample_init \<lparr>opt_CloudProviderName = ''cloudscale'',
      opt_CloudConfigFile = ''/missing'', opt_AllowUntaggedCloud = True\<rparr> = ([], Fatal msg err))"
proof -
  let ?config = "\<lambda>file. \<lparr>opt_CloudProviderName = ''cloudscale'', opt_CloudConfigFile = file, opt_AllowUntaggedCloud = True\<rparr>"
  let ?new = "\<lambda>h. \<lparr>sc_calls = idle_client, sc_UserAgent = []\<rparr>"
  have "init_provider (registered sample_init sample_opens) ?new ''1.0'' sample_loadbalancer (\<lambda>_. ''t0ken'')"
    by (simp add: init_provider_def registered_def ProviderName_def sample_init_def newCloudscaleProvider_def newCloudscaleClient_def Let_def)
  note starts = controller_starts_iff [OF this refl]
  have "can_start sample_opens (\<lambda>_. ''t0ken'') (?config ''/etc/cloud.conf'')" "\<not> can_start sample_opens (\<lambda>_. ''t0ken'') (?config ''/missing'')"
    by (simp_all add: can_start_def sample_opens_def)
  then show ?thesis using starts [of "?config ''/etc/cloud.conf''"] starts [of "?config ''/missing''"] by auto
qed

text \<open>
  Options that cannot be made crash the process instead of ending it with a message: the code sets
  the name of the provider in them before it looks at the error, and on an error they are nil.
\<close>

lemma option_error_crashes:
  assumes "NewCloudControllerManagerOptions = (None, Some e)"
  shows "ccm_main NewCloudControllerManagerOptions cli_Run InitCloudProvider = Crash ''nil pointer dereference''"
  using assms by (simp add: ccm_main_def)

end
