(* ===== verification/Serve_Mux.thy ===== *)
theory Serve_Mux
  imports Go_Base "HOL-Library.Sublist"
begin

text \<open>
  The request multiplexer of Go's \<open>net/http\<close>, as far as the HTTP servers of the repository use it
  (\<open>src/pkg/internal/testkit/api.go\<close>, \<open>src/cmd/http-echo/main.go\<close>): patterns of an optional method and a
  path, where a path that ends in a slash stands for everything below it. Patterns with a host or with
  wildcards, which no caller has, are refused like malformed ones.
\<close>

section \<open>Paths\<close>

fun split_char :: "char \<Rightarrow> string \<Rightarrow> string list" where
  "split_char c [] = [[]]"
| "split_char c (d # s) =
     (if d = c then [] # split_char c s
      else case split_char c s of [] \<Rightarrow> [[d]] | seg # segs \<Rightarrow> (d # seg) # segs)"

definition clean_step :: "string list \<Rightarrow> string \<Rightarrow> string list" where
  "clean_step stack seg =
     (if seg = [] \<or> seg = ''.'' then stack else if seg = ''..'' then butlast stack else stack @ [seg])"

text \<open>\<open>path.Clean\<close> of a rooted path, and \<open>cleanPath\<close>, which keeps a slash at the end.\<close>

definition path_Clean :: "string \<Rightarrow> string" where
  "path_Clean p = ''/'' @ strings_Join (foldl clean_step [] (split_char (CHR ''/'') p)) ''/''"

definition cleanPath :: "string \<Rightarrow> string" where
  "cleanPath p =
     (if p = [] then ''/''
      else let q = (if hd p = CHR ''/'' then p else ''/'' @ p); np = path_Clean q in
        if last q = CHR ''/'' \<and> np \<noteq> ''/'' then np @ ''/'' else np)"

section \<open>Patterns\<close>

record pattern =
  pat_Method :: "string option"
  pat_Path :: string

text \<open>A pattern as text: a method and a path, separated by blanks, or a path.\<close>

definition plain_path :: "string \<Rightarrow> bool" where
  "plain_path p \<longleftrightarrow> p \<noteq> [] \<and> hd p = CHR ''/'' \<and> set p \<inter> {CHR ''{'', CHR ''}''} = {} \<and> cleanPath p = p"

definition parse_pattern :: "string \<Rightarrow> pattern option" where
  "parse_pattern s =
     (let blank = (\<lambda>c. c = CHR '' '' \<or> c = CHR 0x09);
          first = takeWhile (\<lambda>c. \<not> blank c) s; rest = dropWhile (\<lambda>c. \<not> blank c) s in
      if rest = [] then (if plain_path s then Some \<lparr>pat_Method = None, pat_Path = s\<rparr> else None)
      else let path = dropWhile blank rest in
        if first \<noteq> [] \<and> CHR ''/'' \<notin> set first \<and> plain_path path then Some \<lparr>pat_Method = Some first, pat_Path = path\<rparr> else None)"

definition method_le :: "string option \<Rightarrow> string option \<Rightarrow> bool" where
  "method_le m n \<longleftrightarrow> n = None \<or> m = n \<or> m = Some ''HEAD'' \<and> n = Some ''GET''"

definition path_le :: "string \<Rightarrow> string \<Rightarrow> bool" where
  "path_le p q \<longleftrightarrow> p = q \<or> last q = CHR ''/'' \<and> prefix q p"

definition more_specific :: "pattern \<Rightarrow> pattern \<Rightarrow> bool" where
  "more_specific p q \<longleftrightarrow> method_le (pat_Method p) (pat_Method q) \<and> path_le (pat_Path p) (pat_Path q)"

text \<open>Two patterns conflict when they match a common request and neither is the more specific one.\<close>

definition conflicts :: "pattern \<Rightarrow> pattern \<Rightarrow> bool" where
  "conflicts p q \<longleftrightarrow>
     (method_le (pat_Method p) (pat_Method q) \<or> method_le (pat_Method q) (pat_Method p)) \<and>
     (path_le (pat_Path p) (pat_Path q) \<or> path_le (pat_Path q) (pat_Path p)) \<and>
     more_specific p q = more_specific q p"

section \<open>Registration and dispatch\<close>

type_synonym 'h mux = "(pattern \<times> 'h) list"

definition mux_HandleFunc :: "string \<Rightarrow> 'h \<Rightarrow> 'h mux \<Rightarrow> 'h mux res" where
  "mux_HandleFunc text h mux = (case parse_pattern text of
       None \<Rightarrow> Panic (''parsing '' @ text)
     | Some p \<Rightarrow> if list_ex (\<lambda>(q, _). conflicts p q) mux then Panic (''pattern '' @ text @ '' conflicts'') else Ok (mux @ [(p, h)]))"

text \<open>The match for a path among the patterns with a given method: the path itself, or the longest one above it.\<close>

fun longest :: "(pattern \<times> 'h) list \<Rightarrow> (pattern \<times> 'h) option" where
  "longest [] = None"
| "longest (e # es) = (case longest es of
       Some f \<Rightarrow> if length (pat_Path (fst e)) \<ge> length (pat_Path (fst f)) then Some e else Some f
     | None \<Rightarrow> Some e)"

definition match_path :: "'h mux \<Rightarrow> string option \<Rightarrow> string \<Rightarrow> (pattern \<times> 'h) option" where
  "match_path mux method path = longest [e \<leftarrow> mux. pat_Method (fst e) = method \<and> path_le path (pat_Path (fst e))]"

definition mux_match :: "'h mux \<Rightarrow> string \<Rightarrow> string \<Rightarrow> (pattern \<times> 'h) option" where
  "mux_match mux method path = (case match_path mux (Some method) path of
       Some e \<Rightarrow> Some e
     | None \<Rightarrow> (case (if method = ''HEAD'' then match_path mux (Some ''GET'') path else None) of
           Some e \<Rightarrow> Some e
         | None \<Rightarrow> match_path mux None path))"

datatype 'h route = Handle 'h | Redirect string | NotFound | MethodNotAllowed

definition mux_dispatch :: "'h mux \<Rightarrow> string \<Rightarrow> string \<Rightarrow> 'h route" where
  "mux_dispatch mux method url =
     (let path = (if method = ''CONNECT'' then url else cleanPath url);
          found = mux_match mux method path;
          below = mux_match mux method (path @ ''/'') in
      if (case found of Some e \<Rightarrow> pat_Path (fst e) \<noteq> path | None \<Rightarrow> True) \<and> last path \<noteq> CHR ''/'' \<and>
         (case below of Some e \<Rightarrow> pat_Path (fst e) = path @ ''/'' | None \<Rightarrow> False) then Redirect (path @ ''/'')
      else if path \<noteq> url then Redirect path
      else case found of
          Some e \<Rightarrow> Handle (snd e)
        | None \<Rightarrow> if list_ex (\<lambda>e. path_le path (pat_Path (fst e))) mux then MethodNotAllowed else NotFound)"

section \<open>Laws\<close>

lemma split_char_absent: "c \<notin> set s \<Longrightarrow> split_char c s = [s]"
  by (induction s) auto

lemma split_char_append: "c \<notin> set a \<Longrightarrow> split_char c (a @ c # b) = a # split_char c b"
  by (induction a) auto

text \<open>A segment that \<open>path.Clean\<close> leaves alone.\<close>

definition plain_segment :: "string \<Rightarrow> bool" where
  "plain_segment s \<longleftrightarrow> s \<noteq> [] \<and> s \<noteq> ''.'' \<and> s \<noteq> ''..'' \<and>
     set s \<inter> {CHR ''/'', CHR ''{'', CHR ''}'', CHR '' '', CHR 0x09} = {}"

definition path_of :: "string list \<Rightarrow> string" where
  "path_of segs = concat (map (\<lambda>s. ''/'' @ s) segs)"

lemma clean_plain: "list_all plain_segment segs \<Longrightarrow> foldl clean_step stack segs = stack @ segs"
  by (induction segs arbitrary: stack) (auto simp: clean_step_def plain_segment_def)

lemma split_path:
  assumes "list_all plain_segment segs"
  shows "split_char (CHR ''/'') (path_of segs) = [] # segs \<or> segs = []"
proof -
  have "split_char (CHR ''/'') (a @ path_of segs) = a # segs" if "CHR ''/'' \<notin> set a" for a
    using assms that
  proof (induction segs arbitrary: a)
    case (Cons s segs)
    have "CHR ''/'' \<notin> set s" using Cons.prems(1) by (auto simp: plain_segment_def)
    then show ?case using Cons.IH [of s] Cons.prems by (simp add: path_of_def split_char_append)
  qed (simp add: path_of_def split_char_absent)
  from this [of "[]"] show ?thesis by simp
qed

lemma path_of_Join: "segs \<noteq> [] \<Longrightarrow> path_of segs = ''/'' @ strings_Join segs ''/''"
proof (induction segs)
  case (Cons s segs)
  then show ?case by (cases segs) (simp_all add: path_of_def)
qed simp

lemma path_of_last:
  assumes "list_all plain_segment segs" "segs \<noteq> []"
  shows "last (path_of segs) \<noteq> CHR ''/''" "path_of segs \<noteq> []"
proof -
  obtain init s where segs: "segs = init @ [s]" using assms(2) by (metis append_butlast_last_id)
  then have "s \<noteq> []" "CHR ''/'' \<notin> set s" using assms(1) by (auto simp: plain_segment_def)
  then have "last s \<noteq> CHR ''/''" using last_in_set by metis
  with \<open>s \<noteq> []\<close> show "last (path_of segs) \<noteq> CHR ''/''" by (simp add: segs path_of_def)
  show "path_of segs \<noteq> []" using assms(2) by (cases segs) (simp_all add: path_of_def)
qed

lemma cleanPath_plain:
  assumes "list_all plain_segment segs" "segs \<noteq> []"
  shows "cleanPath (path_of segs) = path_of segs"
proof -
  have "split_char (CHR ''/'') (path_of segs) = [] # segs" using split_path [OF assms(1)] assms(2) by blast
  then have "foldl clean_step [] (split_char (CHR ''/'') (path_of segs)) = segs"
    using clean_plain [OF assms(1), of "[]"] by (simp add: clean_step_def)
  then have "path_Clean (path_of segs) = path_of segs" using path_of_Join [OF assms(2)] by (simp add: path_Clean_def)
  moreover have "hd (path_of segs) = CHR ''/''" using assms(2) by (cases segs) (simp_all add: path_of_def)
  ultimately show ?thesis using path_of_last [OF assms] by (simp add: cleanPath_def)
qed

lemma parse_plain:
  assumes "list_all plain_segment segs" "segs \<noteq> []"
  shows "parse_pattern (path_of segs) = Some \<lparr>pat_Method = None, pat_Path = path_of segs\<rparr>"
proof -
  have chars: "set (path_of segs) \<inter> {CHR ''{'', CHR ''}'', CHR '' '', CHR 0x09} = {}"
    using assms(1) by (auto simp: path_of_def plain_segment_def list_all_iff)
  then have "dropWhile (\<lambda>c. \<not> (c = CHR '' '' \<or> c = CHR 0x09)) (path_of segs) = []" by auto
  moreover have "plain_path (path_of segs)"
    using chars cleanPath_plain [OF assms] assms(2) by (cases segs) (auto simp: plain_path_def path_of_def)
  ultimately show ?thesis by (simp add: parse_pattern_def)
qed

lemma parse_root: "parse_pattern ''/'' = Some \<lparr>pat_Method = None, pat_Path = ''/''\<rparr>"
  by code_simp

lemma longest_max: "longest es = Some f \<Longrightarrow> f \<in> set es \<and> (\<forall>e \<in> set es. length (pat_Path (fst e)) \<le> length (pat_Path (fst f)))"
proof (induction es arbitrary: f)
  case (Cons a es)
  show ?case
  proof (cases "longest es")
    case None
    then have "es = []" by (cases es) (auto split: option.splits if_splits)
    with Cons.prems show ?thesis by simp
  next
    case (Some g)
    with Cons.IH [OF Some] Cons.prems show ?thesis by (force split: if_splits)
  qed
qed simp

lemma longest_None [simp]: "longest es = None \<longleftrightarrow> es = []"
  by (cases es) (auto split: option.split)

lemma path_le_length: "path_le p q \<Longrightarrow> length q \<le> length p \<and> (length q = length p \<longrightarrow> q = p)"
  by (auto simp: path_le_def prefix_def)

text \<open>Patterns without a method, with paths that are all different.\<close>

definition plain_mux :: "'h mux \<Rightarrow> bool" where
  "plain_mux mux \<longleftrightarrow> (\<forall>e \<in> set mux. pat_Method (fst e) = None) \<and> distinct (map (pat_Path \<circ> fst) mux)"

lemma plain_match:
  assumes "plain_mux mux"
  shows "mux_match mux method path = longest [e \<leftarrow> mux. path_le path (pat_Path (fst e))]"
proof -
  have "match_path mux (Some m) path = None" for m using assms by (auto simp: match_path_def plain_mux_def filter_empty_conv)
  moreover have "match_path mux None path = longest [e \<leftarrow> mux. path_le path (pat_Path (fst e))]"
    unfolding match_path_def using assms by (intro arg_cong [where f = longest] filter_cong) (auto simp: plain_mux_def)
  ultimately show ?thesis by (simp add: mux_match_def)
qed

lemma plain_match_exact:
  assumes "plain_mux mux" "e \<in> set mux" "pat_Path (fst e) = path"
  shows "mux_match mux method path = Some e"
proof -
  let ?es = "[e \<leftarrow> mux. path_le path (pat_Path (fst e))]"
  have e: "e \<in> set ?es" using assms(2,3) by (simp add: path_le_def)
  then obtain f where f: "longest ?es = Some f" by (metis longest_None empty_iff list.set(1) not_None_eq)
  then have "f \<in> set mux" "path_le path (pat_Path (fst f))" "length path \<le> length (pat_Path (fst f))"
    using conjunct1 [OF longest_max [OF f]] bspec [OF conjunct2 [OF longest_max [OF f]] e] assms(3) by simp_all
  then have "pat_Path (fst f) = pat_Path (fst e)" using path_le_length [of path] assms(3) by fastforce
  then have "f = e" using assms(1,2) \<open>f \<in> set mux\<close> unfolding plain_mux_def distinct_map inj_on_def by auto
  then show ?thesis using f plain_match [OF assms(1)] by simp
qed

lemma dispatch_exact:
  assumes "plain_mux mux" "e \<in> set mux" "pat_Path (fst e) = path" "cleanPath path = path"
  shows "mux_dispatch mux method path = Handle (snd e)"
  using plain_match_exact [OF assms(1-3)] assms(3,4) by (simp add: mux_dispatch_def Let_def)

text \<open>Everything else goes to the pattern for the root, if no other pattern ends in a slash.\<close>

lemma dispatch_default:
  assumes "plain_mux mux" "e \<in> set mux" "pat_Path (fst e) = ''/''" "\<And>f. f \<in> set mux \<Longrightarrow> f \<noteq> e \<Longrightarrow> last (pat_Path (fst f)) \<noteq> CHR ''/''"
    and "cleanPath path = path" "path \<notin> (pat_Path \<circ> fst) ` set mux" "hd path = CHR ''/''" "path \<noteq> []"
  shows "mux_dispatch mux method path = Handle (snd e)"
proof -
  have only: "mux_match mux method q = Some e" if "q \<notin> (pat_Path \<circ> fst) ` set mux - {''/''}" "q \<noteq> []" "hd q = CHR ''/''" for q
  proof -
    have "path_le q (pat_Path (fst f)) \<longleftrightarrow> f = e" if "f \<in> set mux" for f
    proof
      assume le: "path_le q (pat_Path (fst f))"
      show "f = e"
      proof (rule ccontr)
        assume "f \<noteq> e"
        then have "q = pat_Path (fst f)" using le assms(4) \<open>f \<in> set mux\<close> by (auto simp: path_le_def)
        moreover have "pat_Path (fst f) \<noteq> ''/''" using \<open>f \<noteq> e\<close> assms(4) \<open>f \<in> set mux\<close> by fastforce
        ultimately show False using \<open>q \<notin> (pat_Path \<circ> fst) ` set mux - {''/''}\<close> \<open>f \<in> set mux\<close> by auto
      qed
    next
      assume "f = e"
      then show "path_le q (pat_Path (fst f))" using assms(3) \<open>q \<noteq> []\<close> \<open>hd q = CHR ''/''\<close> by (cases q) (auto simp: path_le_def)
    qed
    then have "longest [f \<leftarrow> mux. path_le q (pat_Path (fst f))] = longest [f \<leftarrow> mux. f = e]"
      by (intro arg_cong [where f = longest] filter_cong) auto
    moreover obtain f where "longest [f \<leftarrow> mux. f = e] = Some f" using assms(2) by (metis (mono_tags) filter_empty_conv longest_None not_None_eq)
    ultimately show ?thesis using longest_max [of "[f \<leftarrow> mux. f = e]" f] plain_match [OF assms(1)] by simp
  qed
  have "mux_match mux method path = Some e" using assms(6-8) by (intro only) auto
  moreover have "path @ ''/'' \<notin> (pat_Path \<circ> fst) ` set mux - {''/''}"
  proof
    assume "path @ ''/'' \<in> (pat_Path \<circ> fst) ` set mux - {''/''}"
    then obtain f where f: "f \<in> set mux" "pat_Path (fst f) = path @ ''/''" "path @ ''/'' \<noteq> ''/''" by auto
    then have "f \<noteq> e" using assms(3) by auto
    then show False using assms(4) [OF f(1)] f(2) by simp
  qed
  then have "mux_match mux method (path @ ''/'') = Some e" using assms(7,8) by (intro only) auto
  moreover have "path @ ''/'' \<noteq> ''/''" using assms(8) by simp
  ultimately show ?thesis using assms(3,5) by (simp add: mux_dispatch_def Let_def)
qed

end
