(* ===== verification/Testkit.thy ===== *)
theory Testkit
  imports Serve_Mux Cloud_Types
begin

text \<open>
  The test kit (\<open>src/pkg/internal/testkit\<close>): the mock of the cloudscale API on which the tests of the
  repository rest, the client for the test pages of nginx, and the builders for nodes and services.
  \<open>encoding/json\<close> on the types of the SDK, the HTTP client and \<open>time.Parse\<close> are arguments.
\<close>

section \<open>The mock API server\<close>

text \<open>What a route replies: a text as it is, or a value as JSON.\<close>

datatype mock_data = Text string | ServerList "Server list" | OneServer Server
  | LoadBalancerList "LoadBalancer list" | OneLoadBalancer LoadBalancer

record mock_request =
  rq_Method :: string
  rq_Path :: string
  rq_Body :: string

text \<open>A response, or a connection that is cut off because the handler panicked.\<close>

datatype response = Responds int string | CutOff | RedirectsTo string | Refused

datatype mock_handler = Reply int mock_data | Custom "mock_request \<Rightarrow> response"

text \<open>
  The server keeps the pointer to the multiplexer it was started with. As \<open>Close\<close> drops both and nothing
  replaces a multiplexer, it is the one of the mock from then on, or nil: \<open>Some False\<close>.
\<close>

record MockAPIServer =
  mk_mux :: "mock_handler mux option"
  mk_server :: "bool option"
  mk_lastsent :: string

definition NewMockAPIServer :: MockAPIServer where
  "NewMockAPIServer = \<lparr>mk_mux = None, mk_server = None, mk_lastsent = []\<rparr>"

definition mock_mux :: "MockAPIServer \<Rightarrow> mock_handler mux res" where
  "mock_mux m = (case mk_mux m of Some mux \<Rightarrow> Ok mux | None \<Rightarrow> mux_HandleFunc ''/'' (Reply 404 (Text ''{}'')) [])"

definition mock_HandleFunc :: "MockAPIServer \<Rightarrow> string \<Rightarrow> mock_handler \<Rightarrow> MockAPIServer res" where
  "mock_HandleFunc m pattern h =
     bind_res (mock_mux m) (\<lambda>mux. bind_res (mux_HandleFunc pattern h mux) (\<lambda>mux'. Ok (m\<lparr>mk_mux := Some mux'\<rparr>)))"

definition mock_On :: "MockAPIServer \<Rightarrow> string \<Rightarrow> int \<Rightarrow> mock_data \<Rightarrow> MockAPIServer res" where
  "mock_On m pattern status data = mock_HandleFunc m pattern (Reply status data)"

text \<open>The handler that \<open>On\<close> registers.\<close>

definition mock_reply ::
  "(mock_data \<Rightarrow> error + string) \<Rightarrow> int \<Rightarrow> mock_data \<Rightarrow> mock_request \<Rightarrow> MockAPIServer \<Rightarrow> response \<times> MockAPIServer" where
  "mock_reply marshal status data r m =
     (case (case data of Text v \<Rightarrow> Inr v | _ \<Rightarrow> marshal data) of
        Inl e \<Rightarrow> (CutOff, m)
      | Inr body \<Rightarrow> (Responds status body,
          if rq_Method r = ''POST'' \<or> rq_Method r = ''PUT'' \<or> rq_Method r = ''PATCH'' then m\<lparr>mk_lastsent := rq_Body r\<rparr> else m))"

fun on_uuids :: "(MockAPIServer \<Rightarrow> 'a \<Rightarrow> MockAPIServer res) \<Rightarrow> MockAPIServer \<Rightarrow> 'a list \<Rightarrow> MockAPIServer res" where
  "on_uuids on m [] = Ok m"
| "on_uuids on m (s # ss) = bind_res (on m s) (\<lambda>m'. on_uuids on m' ss)"

definition WithServers :: "MockAPIServer \<Rightarrow> Server list \<Rightarrow> MockAPIServer res" where
  "WithServers m servers =
     bind_res (mock_On m ''/v1/servers'' 200 (ServerList servers)) (\<lambda>m'.
       on_uuids (\<lambda>m s. if srv_UUID s \<noteq> [] then mock_On m (''/v1/servers/'' @ srv_UUID s) 200 (OneServer s) else Ok m) m' servers)"

definition WithLoadBalancers :: "MockAPIServer \<Rightarrow> LoadBalancer list \<Rightarrow> MockAPIServer res" where
  "WithLoadBalancers m lbs =
     bind_res (mock_On m ''/v1/load-balancers'' 200 (LoadBalancerList lbs)) (\<lambda>m'.
       on_uuids (\<lambda>m l. if lb_UUID l \<noteq> [] then mock_On m (''/v1/load-balancers/'' @ lb_UUID l) 200 (OneLoadBalancer l) else Ok m) m' lbs)"

text \<open>The client points at the address of the server and sends no token.\<close>

definition mock_Client :: "MockAPIServer \<Rightarrow> string \<Rightarrow> (string \<times> string) res" where
  "mock_Client m url = (if mk_server m = None then Panic ''must call Start() before accessing the client'' else Ok (url, []))"

definition LastSent :: "(string \<Rightarrow> error + 'v) \<Rightarrow> MockAPIServer \<Rightarrow> 'v res" where
  "LastSent unmarshal m = (case unmarshal (mk_lastsent m) of
       Inl e \<Rightarrow> Panic (''failed to unmarshal: '' @ mk_lastsent m)
     | Inr v \<Rightarrow> Ok v)"

definition mock_Start :: "MockAPIServer \<Rightarrow> MockAPIServer res" where
  "mock_Start m =
     (if mk_server m \<noteq> None then Panic ''must call Close() before starting another time''
      else Ok (m\<lparr>mk_server := Some (mk_mux m \<noteq> None)\<rparr>))"

definition mock_Close :: "MockAPIServer \<Rightarrow> MockAPIServer" where
  "mock_Close m = (if mk_server m \<noteq> None then m\<lparr>mk_server := None, mk_mux := None\<rparr> else m)"

text \<open>A request to the server.\<close>

definition mock_request_to :: "(mock_data \<Rightarrow> error + string) \<Rightarrow> mock_request \<Rightarrow> MockAPIServer \<Rightarrow> response \<times> MockAPIServer" where
  "mock_request_to marshal r m =
     (case mk_server m of
        None \<Rightarrow> (Refused, m)
      | Some False \<Rightarrow> (CutOff, m)
      | Some True \<Rightarrow> (case mux_dispatch (the (mk_mux m)) (rq_Method r) (rq_Path r) of
            Handle (Reply status data) \<Rightarrow> mock_reply marshal status data r m
          | Handle (Custom f) \<Rightarrow> (f r, m)
          | Redirect path \<Rightarrow> (RedirectsTo path, m)
          | NotFound \<Rightarrow> (Responds 404 (''404 page not found'' @ [CHR 0x0A]), m)
          | MethodNotAllowed \<Rightarrow> (Responds 405 (''Method Not Allowed'' @ [CHR 0x0A]), m)))"

section \<open>The test page of nginx\<close>

record 't HelloResponse =
  hr_ServerAddress :: string
  hr_ServerName :: string
  hr_Date :: 't
  hr_URI :: string
  hr_RequestID :: string

definition JoinHostPort :: "string \<Rightarrow> string \<Rightarrow> string" where
  "JoinHostPort host port = (if strings_Contains host '':'' then ''['' @ host @ '']:'' @ port else host @ '':'' @ port)"

text \<open>The parts of \<open>net/http\<close> that \<open>HTTPRead\<close> calls.\<close>

record ('w, 'q, 'p) http_calls =
  h_NewRequest :: "string \<Rightarrow> error + 'q"
  h_Do :: "'q \<Rightarrow> 'w \<Rightarrow> (error + 'p) \<times> 'w"
  h_ReadAll :: "'p \<Rightarrow> 'w \<Rightarrow> (error + string) \<times> 'w"
  h_Close :: "'p \<Rightarrow> 'w \<Rightarrow> 'w"

definition HTTPRead :: "('w, 'q, 'p) http_calls \<Rightarrow> string \<Rightarrow> ('w, string) io" where
  "HTTPRead h url w =
     (case h_NewRequest h url of
        Inl e \<Rightarrow> (Err (Wrapped ''failed to create request: '' e), w)
      | Inr req \<Rightarrow> (case h_Do h req w of
            (Inl e, w1) \<Rightarrow> (Err (Wrapped ''request failed: '' e), w1)
          | (Inr resp, w1) \<Rightarrow> (case h_ReadAll h resp w1 of
                (Inl e, w2) \<Rightarrow> (Err (Wrapped ''read failed: '' e), h_Close h resp w2)
              | (Inr body, w2) \<Rightarrow> (Ok body, h_Close h resp w2))))"

text \<open>The value of a line \<open>name: value\<close>.\<close>

definition line_value :: "string \<Rightarrow> string" where
  "line_value line = strings_SplitN2 line '': '' ! 1"

definition hello_line :: "(string \<Rightarrow> error + 't) \<Rightarrow> string \<Rightarrow> 't HelloResponse \<Rightarrow> 't HelloResponse res" where
  "hello_line Parse line r =
     (if strings_HasPrefix line ''Server address: '' then Ok (r\<lparr>hr_ServerAddress := line_value line\<rparr>)
      else if strings_HasPrefix line ''Server name: '' then Ok (r\<lparr>hr_ServerName := line_value line\<rparr>)
      else if strings_HasPrefix line ''URI: '' then Ok (r\<lparr>hr_URI := line_value line\<rparr>)
      else if strings_HasPrefix line ''Request ID: '' then Ok (r\<lparr>hr_RequestID := line_value line\<rparr>)
      else if strings_HasPrefix line ''Date: '' then
        (case Parse (line_value line) of
           Inl e \<Rightarrow> Err (Wrapped (''failed to parse '' @ line_value line @ '': '') e)
         | Inr d \<Rightarrow> Ok (r\<lparr>hr_Date := d\<rparr>))
      else Ok r)"

fun hello_lines :: "(string \<Rightarrow> error + 't) \<Rightarrow> string list \<Rightarrow> 't HelloResponse \<Rightarrow> 't HelloResponse res" where
  "hello_lines Parse [] r = Ok r"
| "hello_lines Parse (l # ls) r = bind_res (hello_line Parse l r) (\<lambda>r'. hello_lines Parse ls r')"

text \<open>\<open>Parse\<close> is \<open>time.Parse\<close> with the layout of the page, \<open>zero\<close> the zero time.\<close>

definition HelloNginx ::
  "('w, 'q, 'p) http_calls \<Rightarrow> (string \<Rightarrow> error + 't) \<Rightarrow> 't \<Rightarrow> string \<Rightarrow> 16 word \<Rightarrow> ('w, 't HelloResponse) io" where
  "HelloNginx h Parse zero addr port =
     bind_io (HTTPRead h (''http://'' @ JoinHostPort addr (show_nat (unat port)))) (\<lambda>body.
       res_io (hello_lines Parse (split_char (CHR 0x0A) body)
         \<lparr>hr_ServerAddress = [], hr_ServerName = [], hr_Date = zero, hr_URI = [], hr_RequestID = []\<rparr>))"

section \<open>Nodes and services for tests\<close>

record test_node =
  tn_Name :: string
  tn_ProviderID :: string

definition NewNode :: "string \<Rightarrow> test_node" where
  "NewNode name = \<lparr>tn_Name = name, tn_ProviderID = []\<rparr>"

definition node_V1 :: "test_node \<Rightarrow> Node" where
  "node_V1 n = \<lparr>node_Name = tn_Name n, node_ProviderID = tn_ProviderID n, node_Labels = []\<rparr>"

definition WithProviderID :: "string \<Rightarrow> test_node \<Rightarrow> test_node" where
  "WithProviderID i n = n\<lparr>tn_ProviderID := i\<rparr>"

definition node_WithName :: "string \<Rightarrow> test_node \<Rightarrow> test_node" where
  "node_WithName name n = n\<lparr>tn_Name := name\<rparr>"

record test_service =
  ts_Name :: string

definition NewService :: "string \<Rightarrow> test_service" where
  "NewService name = \<lparr>ts_Name = name\<rparr>"

definition service_V1 :: "test_service \<Rightarrow> Service" where
  "service_V1 s = \<lparr>svc_Name = ts_Name s, svc_Namespace = [], svc_UID = [], svc_Annotations = None, svc_Type = [],
     svc_LoadBalancerClass = None, svc_Ports = [], svc_ExternalTrafficPolicy = [], svc_HealthCheckNodePort = 0\<rparr>"

definition service_WithName :: "string \<Rightarrow> test_service \<Rightarrow> test_service" where
  "service_WithName name s = s\<lparr>ts_Name := name\<rparr>"

section \<open>Laws\<close>

definition root_pattern :: pattern where
  "root_pattern = \<lparr>pat_Method = None, pat_Path = ''/''\<rparr>"

definition route_pattern :: "string list \<Rightarrow> pattern" where
  "route_pattern segs = \<lparr>pat_Method = None, pat_Path = path_of segs\<rparr>"

text \<open>A mock with routes for paths without special characters, beside the one for everything else.\<close>

definition routed :: "MockAPIServer \<Rightarrow> (string list \<times> mock_handler) list \<Rightarrow> bool" where
  "routed m rs \<longleftrightarrow> mk_mux m = Some ((root_pattern, Reply 404 (Text ''{}'')) # map (\<lambda>(segs, h). (route_pattern segs, h)) rs) \<and>
     (\<forall>segs \<in> fst ` set rs. segs \<noteq> [] \<and> list_all plain_segment segs) \<and> distinct (map (path_of \<circ> fst) rs)"

lemma path_not_root: "list_all plain_segment segs \<Longrightarrow> segs \<noteq> [] \<Longrightarrow> path_of segs \<noteq> ''/''"
  using path_of_last(1) by force

lemma no_conflict:
  assumes "list_all plain_segment segs" "segs \<noteq> []"
  shows "\<not> conflicts (route_pattern segs) root_pattern"
    and "list_all plain_segment segs' \<Longrightarrow> segs' \<noteq> [] \<Longrightarrow> path_of segs \<noteq> path_of segs' \<Longrightarrow> \<not> conflicts (route_pattern segs) (route_pattern segs')"
proof -
  have "path_le (path_of segs) ''/''"
    using assms(2) by (cases segs) (simp_all add: path_le_def path_of_def)
  moreover have "\<not> path_le ''/'' (path_of segs)" using path_of_last(1) [OF assms] path_not_root [OF assms] by (auto simp: path_le_def)
  ultimately show "\<not> conflicts (route_pattern segs) root_pattern"
    by (simp add: conflicts_def more_specific_def route_pattern_def root_pattern_def method_le_def)
  show "\<not> conflicts (route_pattern segs) (route_pattern segs')"
    if "list_all plain_segment segs'" "segs' \<noteq> []" "path_of segs \<noteq> path_of segs'"
    using path_of_last(1) [OF assms] path_of_last(1) [OF that(1,2)] that(3) by (simp add: conflicts_def route_pattern_def path_le_def)
qed

lemma routed_HandleFunc:
  assumes "routed m rs \<or> mk_mux m = None \<and> rs = []" "list_all plain_segment segs" "segs \<noteq> []" "path_of segs \<notin> (path_of \<circ> fst) ` set rs"
  shows "\<exists>m'. mock_HandleFunc m (path_of segs) h = Ok m' \<and> routed m' (rs @ [(segs, h)]) \<and>
    mk_server m' = mk_server m \<and> mk_lastsent m' = mk_lastsent m"
proof -
  let ?mux = "(root_pattern, Reply 404 (Text ''{}'')) # map (\<lambda>(segs, h). (route_pattern segs, h)) rs"
  have "mux_HandleFunc ''/'' (Reply 404 (Text ''{}'')) [] = Ok [(root_pattern, Reply 404 (Text ''{}''))]"
    by (simp add: mux_HandleFunc_def parse_root root_pattern_def)
  then have "mock_mux m = Ok ?mux" using assms(1) by (auto simp: mock_mux_def routed_def)
  moreover have "\<not> list_ex (\<lambda>(q, _). conflicts (route_pattern segs) q) ?mux"
  proof -
    have "\<not> conflicts (route_pattern segs) (route_pattern s)" if "(s, h') \<in> set rs" for s h'
    proof (rule no_conflict(2) [OF assms(2,3)])
      show "list_all plain_segment s" "s \<noteq> []" using assms(1) that by (force simp: routed_def)+
      show "path_of segs \<noteq> path_of s" using assms(4) that by force
    qed
    then show ?thesis using no_conflict(1) [OF assms(2,3)] by (auto simp: list_ex_iff)
  qed
  ultimately have "mock_HandleFunc m (path_of segs) h = Ok (m\<lparr>mk_mux := Some (?mux @ [(route_pattern segs, h)])\<rparr>)"
    using parse_plain [OF assms(2,3)] by (simp add: mock_HandleFunc_def mux_HandleFunc_def route_pattern_def)
  moreover have "routed (m\<lparr>mk_mux := Some (?mux @ [(route_pattern segs, h)])\<rparr>) (rs @ [(segs, h)])"
    using assms by (auto simp: routed_def)
  ultimately show ?thesis by simp
qed

lemma routed_plain_mux:
  assumes "routed m rs"
  shows "plain_mux (the (mk_mux m))"
proof -
  have "pat_Path (route_pattern s) \<noteq> ''/''" if "s \<in> fst ` set rs" for s
    using assms that path_not_root unfolding routed_def route_pattern_def by fastforce
  then have "''/'' \<notin> (\<lambda>e. pat_Path (route_pattern (fst e))) ` set rs" by force
  moreover have "map (pat_Path \<circ> fst \<circ> (\<lambda>(segs, h). (route_pattern segs, h))) rs = map (path_of \<circ> fst) rs"
    by (auto simp: route_pattern_def)
  ultimately show ?thesis using assms
    by (auto simp: plain_mux_def routed_def root_pattern_def route_pattern_def comp_def case_prod_beta)
qed

lemma routed_dispatch:
  assumes "routed m rs"
  shows "(segs, h) \<in> set rs \<Longrightarrow> mux_dispatch (the (mk_mux m)) method (path_of segs) = Handle h"
    and "cleanPath p = p \<Longrightarrow> p \<noteq> [] \<Longrightarrow> hd p = CHR ''/'' \<Longrightarrow> p \<notin> (path_of \<circ> fst) ` set rs \<Longrightarrow>
      mux_dispatch (the (mk_mux m)) method p = Handle (Reply 404 (Text ''{}''))"
proof -
  let ?root = "(root_pattern, Reply 404 (Text ''{}''))"
  note mux = routed_plain_mux [OF assms]
  have mem: "set (the (mk_mux m)) = insert ?root ((\<lambda>(segs, h). (route_pattern segs, h)) ` set rs)" using assms by (simp add: routed_def)
  have plain: "segs \<noteq> [] \<and> list_all plain_segment segs" if "(segs, h) \<in> set rs" for segs h using assms that by (force simp: routed_def)
  show "mux_dispatch (the (mk_mux m)) method (path_of segs) = Handle h" if r: "(segs, h) \<in> set rs"
  proof -
    have "(route_pattern segs, h) \<in> set (the (mk_mux m))" using r unfolding mem by force
    from dispatch_exact [OF mux this] show ?thesis using cleanPath_plain plain [OF r] by (simp add: route_pattern_def)
  qed
  show "mux_dispatch (the (mk_mux m)) method p = Handle (Reply 404 (Text ''{}''))"
    if p: "cleanPath p = p" "p \<noteq> []" "hd p = CHR ''/''" "p \<notin> (path_of \<circ> fst) ` set rs"
  proof (cases "p = ''/''")
    case True
    have "mux_dispatch (the (mk_mux m)) method p = Handle (snd ?root)"
      by (rule dispatch_exact [OF mux, of ?root]) (use True p(1) in \<open>simp_all add: mem root_pattern_def\<close>)
    then show ?thesis by simp
  next
    case False
    have "mux_dispatch (the (mk_mux m)) method p = Handle (snd ?root)"
    proof (rule dispatch_default [OF mux, of ?root])
      show "last (pat_Path (fst f)) \<noteq> CHR ''/''" if "f \<in> set (the (mk_mux m))" "f \<noteq> ?root" for f
        using that plain path_of_last(1) unfolding mem by (auto simp: route_pattern_def)
      show "p \<notin> (pat_Path \<circ> fst) ` set (the (mk_mux m))"
        using False p(4) unfolding mem by (force simp: root_pattern_def route_pattern_def)
    qed (use p in \<open>simp_all add: mem root_pattern_def\<close>)
    then show ?thesis by simp
  qed
qed

text \<open>The loop that adds one route for each resource with a UUID.\<close>

lemma on_uuids_routed:
  assumes "routed m rs" "\<forall>s \<in> set ss. uuid s \<noteq> [] \<longrightarrow> plain_segment (uuid s)" "distinct [u \<leftarrow> map uuid ss. u \<noteq> []]"
    and "\<And>s. s \<in> set ss \<Longrightarrow> uuid s \<noteq> [] \<Longrightarrow> path_of (base @ [uuid s]) \<notin> (path_of \<circ> fst) ` set rs" "list_all plain_segment base"
  shows "\<exists>m'. on_uuids (\<lambda>m s. if uuid s \<noteq> [] then mock_HandleFunc m (path_of (base @ [uuid s])) (h s) else Ok m) m ss = Ok m' \<and>
    routed m' (rs @ map (\<lambda>s. (base @ [uuid s], h s)) [s \<leftarrow> ss. uuid s \<noteq> []]) \<and> mk_server m' = mk_server m"
  using assms(1-4)
proof (induction ss arbitrary: m rs)
  case (Cons s ss)
  show ?case
  proof (cases "uuid s = []")
    case True
    with Cons show ?thesis by simp
  next
    case False
    have "list_all plain_segment (base @ [uuid s])" using Cons.prems(2) assms(5) False by simp
    then obtain m1 where m1: "mock_HandleFunc m (path_of (base @ [uuid s])) (h s) = Ok m1" "routed m1 (rs @ [(base @ [uuid s], h s)])"
      "mk_server m1 = mk_server m"
      using routed_HandleFunc [of m rs "base @ [uuid s]" "h s"] Cons.prems(1) Cons.prems(4) [of s] False by auto
    have "path_of (base @ [uuid t]) \<notin> (path_of \<circ> fst) ` set (rs @ [(base @ [uuid s], h s)])" if "t \<in> set ss" "uuid t \<noteq> []" for t
    proof -
      have "uuid s \<notin> uuid ` set ss" using Cons.prems(3) False by simp
      then have "uuid t \<noteq> uuid s" using that(1) by (metis image_eqI)
      then show ?thesis using Cons.prems(4) [of t] that by (auto simp: path_of_def)
    qed
    then have "\<exists>m'. on_uuids (\<lambda>m s. if uuid s \<noteq> [] then mock_HandleFunc m (path_of (base @ [uuid s])) (h s) else Ok m) m1 ss = Ok m' \<and>
        routed m' ((rs @ [(base @ [uuid s], h s)]) @ map (\<lambda>s. (base @ [uuid s], h s)) [s \<leftarrow> ss. uuid s \<noteq> []]) \<and> mk_server m' = mk_server m1"
      using Cons.prems(2,3) False by (intro Cons.IH [OF m1(2)]) auto
    then show ?thesis using m1 False by simp
  qed
qed simp

abbreviation GET :: "string \<Rightarrow> mock_request" where
  "GET path \<equiv> \<lparr>rq_Method = ''GET'', rq_Path = path, rq_Body = []\<rparr>"

lemma request_reply:
  assumes "routed m rs" "mk_server m = Some True"
  shows "(segs, Reply status data) \<in> set rs \<Longrightarrow> rq_Path r = path_of segs \<Longrightarrow> mock_request_to marshal r m = mock_reply marshal status data r m"
    and "cleanPath (rq_Path r) = rq_Path r \<Longrightarrow> rq_Path r \<noteq> [] \<Longrightarrow> hd (rq_Path r) = CHR ''/'' \<Longrightarrow>
      rq_Path r \<notin> (path_of \<circ> fst) ` set rs \<Longrightarrow> mock_request_to marshal r m = mock_reply marshal 404 (Text ''{}'') r m"
  using routed_dispatch [OF assms(1)] assms(2) by (simp_all add: mock_request_to_def)

text \<open>The test page as nginx prints it.\<close>

definition hello_page :: "('t \<Rightarrow> string) \<Rightarrow> 't HelloResponse \<Rightarrow> string" where
  "hello_page fmt r = strings_Join [''Server address: '' @ hr_ServerAddress r, ''Server name: '' @ hr_ServerName r,
     ''Date: '' @ fmt (hr_Date r), ''URI: '' @ hr_URI r, ''Request ID: '' @ hr_RequestID r, []] [CHR 0x0A]"

lemma line_value_append: "CHR '':'' \<notin> set name \<Longrightarrow> line_value (name @ '': '' @ v) = v"
  using Cut_first [of "CHR '':''" name "'' ''" v] by (simp add: line_value_def strings_SplitN2_def)

lemma hello_page_lines:
  assumes "\<forall>f \<in> {hr_ServerAddress r, hr_ServerName r, fmt (hr_Date r), hr_URI r, hr_RequestID r}. CHR 0x0A \<notin> set f"
  shows "split_char (CHR 0x0A) (hello_page fmt r) = [''Server address: '' @ hr_ServerAddress r, ''Server name: '' @ hr_ServerName r,
     ''Date: '' @ fmt (hr_Date r), ''URI: '' @ hr_URI r, ''Request ID: '' @ hr_RequestID r, []]"
proof -
  have step: "split_char (CHR 0x0A) (a @ CHR 0x0A # b) = a # split_char (CHR 0x0A) b" if "CHR 0x0A \<notin> set a" for a b
    using that by (rule split_char_append)
  show ?thesis using assms unfolding hello_page_def strings_Join.simps append_assoc
    by (simp del: append_assoc add: append_assoc [symmetric] step)
qed

section \<open>Properties\<close>

text \<open>
  C38. The mock of the server endpoints: for servers with different UUIDs of ordinary characters, the
  routes can be registered without a panic, and a started mock then answers the list of all servers
  on \<open>/v1/servers\<close>, the server with a UUID on its own path, and 404 with an empty object on every
  other path.
\<close>

theorem WithServers_serves:
  assumes "\<forall>s \<in> set servers. srv_UUID s \<noteq> [] \<longrightarrow> plain_segment (srv_UUID s)" "distinct [u \<leftarrow> map srv_UUID servers. u \<noteq> []]"
    and "\<And>d. marshal d = Inr (json d)"
  shows "\<exists>m m'. WithServers NewMockAPIServer servers = Ok m \<and> mock_Start m = Ok m' \<and>
    fst (mock_request_to marshal (GET ''/v1/servers'') m') = Responds 200 (json (ServerList servers)) \<and>
    (\<forall>s \<in> set servers. srv_UUID s \<noteq> [] \<longrightarrow>
       fst (mock_request_to marshal (GET (''/v1/servers/'' @ srv_UUID s)) m') = Responds 200 (json (OneServer s))) \<and>
    (\<forall>p. cleanPath p = p \<and> p \<noteq> [] \<and> hd p = CHR ''/'' \<and> p \<noteq> ''/v1/servers'' \<and> (\<forall>s \<in> set servers. p \<noteq> ''/v1/servers/'' @ srv_UUID s) \<longrightarrow>
       fst (mock_request_to marshal (GET p) m') = Responds 404 ''{}'')"
proof -
  let ?base = "[''v1'', ''servers'']" and ?h = "\<lambda>s. Reply 200 (OneServer s)"
  have base: "list_all plain_segment ?base" by (simp add: plain_segment_def)
  have paths: "path_of ?base = ''/v1/servers''" "path_of (?base @ [u]) = ''/v1/servers/'' @ u" for u by (simp_all add: path_of_def)
  obtain m0 where m0: "mock_HandleFunc NewMockAPIServer (path_of ?base) (Reply 200 (ServerList servers)) = Ok m0"
    "routed m0 [(?base, Reply 200 (ServerList servers))]" "mk_server m0 = None"
    using routed_HandleFunc [of NewMockAPIServer "[]" ?base] base by (auto simp: NewMockAPIServer_def)
  let ?rs = "[(?base, Reply 200 (ServerList servers))] @ map (\<lambda>s. (?base @ [srv_UUID s], ?h s)) [s \<leftarrow> servers. srv_UUID s \<noteq> []]"
  obtain m where m: "on_uuids (\<lambda>m s. if srv_UUID s \<noteq> [] then mock_HandleFunc m (path_of (?base @ [srv_UUID s])) (?h s) else Ok m) m0 servers = Ok m"
    "routed m ?rs" "mk_server m = None"
    using on_uuids_routed [OF m0(2) assms(1,2) _ base, of ?h] m0(3) by (auto simp: path_of_def)
  have ok: "WithServers NewMockAPIServer servers = Ok m"
    using m0(1) m(1) unfolding WithServers_def mock_On_def paths by simp
  let ?m = "m\<lparr>mk_server := Some True\<rparr>"
  have start: "mock_Start m = Ok ?m" using m(2,3) by (simp add: mock_Start_def routed_def)
  have routed: "routed ?m ?rs" using m(2) by (simp add: routed_def)
  note reply = request_reply [OF routed, simplified]
  have all: "fst (mock_request_to marshal (GET ''/v1/servers'') ?m) = Responds 200 (json (ServerList servers))"
    using request_reply(1) [OF routed, of ?base 200 "ServerList servers" "GET ''/v1/servers''" marshal] assms(3) paths(1)
    by (simp add: mock_reply_def)
  have one: "fst (mock_request_to marshal (GET (''/v1/servers/'' @ srv_UUID s)) ?m) = Responds 200 (json (OneServer s))"
    if "s \<in> set servers" "srv_UUID s \<noteq> []" for s
    using request_reply(1) [OF routed, of "?base @ [srv_UUID s]" 200 "OneServer s" "GET (''/v1/servers/'' @ srv_UUID s)" marshal] that assms(3) paths(2) [of "srv_UUID s"]
    by (simp add: mock_reply_def image_iff)
  have other: "fst (mock_request_to marshal (GET p) ?m) = Responds 404 ''{}''"
    if "cleanPath p = p" "p \<noteq> []" "hd p = CHR ''/''" "p \<noteq> ''/v1/servers''" "\<forall>s \<in> set servers. p \<noteq> ''/v1/servers/'' @ srv_UUID s" for p
  proof -
    have "p \<notin> (path_of \<circ> fst) ` set ?rs" using that(4,5) paths by (auto simp: path_of_def)
    then show ?thesis using request_reply(2) [OF routed, of "GET p" marshal] that by (simp add: mock_reply_def)
  qed
  show ?thesis using ok start all one other by blast
qed

theorem WithServers_serves_witness:
  "\<exists>m m'. WithServers NewMockAPIServer [sample_server] = Ok m \<and> mock_Start m = Ok m' \<and>
     fst (mock_request_to (\<lambda>d. Inr ''[...]'') (GET ''/v1/servers'') m') = Responds 200 ''[...]'' \<and>
     fst (mock_request_to (\<lambda>d. Inr ''[...]'') (GET ''/v1/volumes'') m') = Responds 404 ''{}''"
proof -
  have uuid: "plain_segment (srv_UUID sample_server)" by (simp add: sample_server_def sample_uuid_text_def plain_segment_def)
  have clean: "cleanPath ''/v1/volumes'' = ''/v1/volumes''" by code_simp
  have hyps: "\<forall>s \<in> set [sample_server]. srv_UUID s \<noteq> [] \<longrightarrow> plain_segment (srv_UUID s)" "distinct [u \<leftarrow> map srv_UUID [sample_server]. u \<noteq> []]"
    "\<And>d :: mock_data. Inr ''[...]'' = (Inr ((\<lambda>d. ''[...]'') d) :: error + string)" using uuid by simp_all
  from WithServers_serves [OF hyps] obtain m m' where m: "WithServers NewMockAPIServer [sample_server] = Ok m" "mock_Start m = Ok m'"
    "fst (mock_request_to (\<lambda>d. Inr ''[...]'') (GET ''/v1/servers'') m') = Responds 200 ''[...]''" and
    other: "\<forall>p. cleanPath p = p \<and> p \<noteq> [] \<and> hd p = CHR ''/'' \<and> p \<noteq> ''/v1/servers'' \<and> (\<forall>s \<in> set [sample_server]. p \<noteq> ''/v1/servers/'' @ srv_UUID s) \<longrightarrow>
       fst (mock_request_to (\<lambda>d. Inr ''[...]'') (GET p) m') = Responds 404 ''{}''" by blast
  from spec [OF other, of "''/v1/volumes''"] clean m show ?thesis by simp
qed

text \<open>
  Routes registered on a running mock take effect at once. A path the mock answers with 404 while it
  is running is answered with the new reply as soon as \<open>On\<close> has returned, although its comment says
  that it has no effect on a started server.
\<close>

lemma On_affects_running_mock:
  assumes "routed m rs" "mk_server m = Some True" "list_all plain_segment segs" "segs \<noteq> []" "path_of segs \<notin> (path_of \<circ> fst) ` set rs"
  shows "fst (mock_request_to marshal (GET (path_of segs)) m) = Responds 404 ''{}'' \<and>
    (\<exists>m'. mock_On m (path_of segs) status (Text body) = Ok m' \<and> fst (mock_request_to marshal (GET (path_of segs)) m') = Responds status body)"
proof
  have p: "cleanPath (path_of segs) = path_of segs" "path_of segs \<noteq> []" "hd (path_of segs) = CHR ''/''"
    using cleanPath_plain [OF assms(3,4)] path_of_last(2) [OF assms(3,4)] assms(4) by (simp, simp, cases segs) (simp_all add: path_of_def)
  show "fst (mock_request_to marshal (GET (path_of segs)) m) = Responds 404 ''{}''"
    using request_reply(2) [OF assms(1,2), of "GET (path_of segs)" marshal] p assms(5) by (simp add: mock_reply_def)
  obtain m' where m': "mock_HandleFunc m (path_of segs) (Reply status (Text body)) = Ok m'" "routed m' (rs @ [(segs, Reply status (Text body))])"
    "mk_server m' = Some True" using routed_HandleFunc [OF _ assms(3,4,5)] assms(1,2) by metis
  from request_reply(1) [OF m'(2,3), of segs status "Text body" "GET (path_of segs)" marshal]
  show "\<exists>m'. mock_On m (path_of segs) status (Text body) = Ok m' \<and> fst (mock_request_to marshal (GET (path_of segs)) m') = Responds status body"
    using m'(1) by (auto simp: mock_On_def mock_reply_def)
qed

text \<open>
  C39. The client for the test page reads back what the page shows: for a response whose fields have no
  line breaks, and a time format that \<open>time.Parse\<close> undoes, \<open>HelloNginx\<close> returns exactly the response
  that the page was printed from.
\<close>

theorem HelloNginx_roundtrip:
  assumes "HTTPRead h (''http://'' @ JoinHostPort addr (show_nat (unat port))) w = (Ok (hello_page fmt r), w')"
    and "\<forall>f \<in> {hr_ServerAddress r, hr_ServerName r, fmt (hr_Date r), hr_URI r, hr_RequestID r}. CHR 0x0A \<notin> set f"
    and "Parse (fmt (hr_Date r)) = Inr (hr_Date r)"
  shows "HelloNginx h Parse zero addr port w = (Ok r, w')"
proof -
  note v = line_value_append [of "''Server address''"] line_value_append [of "''Server name''"] line_value_append [of "''Date''"]
    line_value_append [of "''URI''"] line_value_append [of "''Request ID''"]
  have "hello_lines Parse (split_char (CHR 0x0A) (hello_page fmt r))
      \<lparr>hr_ServerAddress = [], hr_ServerName = [], hr_Date = zero, hr_URI = [], hr_RequestID = []\<rparr> = Ok r"
    unfolding hello_page_lines [where r = r and fmt = fmt, OF assms(2)] using assms(3) v by (simp add: hello_line_def)
  then show ?thesis using assms(1) by (simp add: HelloNginx_def bind_io_apply)
qed

theorem HelloNginx_roundtrip_witness:
  "HelloNginx \<lparr>h_NewRequest = (\<lambda>url. Inr url), h_Do = (\<lambda>q w. (Inr q, w)),
       h_ReadAll = (\<lambda>p w. (Inr (if p = ''http://[::1]:80'' then hello_page (\<lambda>d. ''today'')
          \<lparr>hr_ServerAddress = ''[::1]:80'', hr_ServerName = ''web: 1'', hr_Date = (), hr_URI = ''/'', hr_RequestID = ''42''\<rparr> else []), w)),
       h_Close = (\<lambda>p w. Suc w)\<rparr> (\<lambda>s. Inr ()) () ''::1'' 80 0 =
     (Ok \<lparr>hr_ServerAddress = ''[::1]:80'', hr_ServerName = ''web: 1'', hr_Date = (), hr_URI = ''/'', hr_RequestID = ''42''\<rparr>, 1)"
proof (rule HelloNginx_roundtrip [where fmt = "\<lambda>d. ''today''"])
  have "JoinHostPort ''::1'' (show_nat (unat (80 :: 16 word))) = ''[::1]:80''" by code_simp
  then show "HTTPRead \<lparr>h_NewRequest = (\<lambda>url. Inr url), h_Do = (\<lambda>q w. (Inr q, w)),
       h_ReadAll = (\<lambda>p w. (Inr (if p = ''http://[::1]:80'' then hello_page (\<lambda>d. ''today'')
          \<lparr>hr_ServerAddress = ''[::1]:80'', hr_ServerName = ''web: 1'', hr_Date = (), hr_URI = ''/'', hr_RequestID = ''42''\<rparr> else []), w)),
       h_Close = (\<lambda>p w. Suc w)\<rparr> (''http://'' @ JoinHostPort ''::1'' (show_nat (unat (80 :: 16 word)))) 0 =
     (Ok (hello_page (\<lambda>d. ''today'') \<lparr>hr_ServerAddress = ''[::1]:80'', hr_ServerName = ''web: 1'', hr_Date = (), hr_URI = ''/'', hr_RequestID = ''42''\<rparr>), 1)"
    by (simp add: HTTPRead_def)
qed simp_all

end
