(* ===== verification/Http_Echo.thy ===== *)
theory Http_Echo
  imports Serve_Mux
begin

text \<open>
  The echo server that the integration tests put behind a load balancer to see whether it speaks the
  PROXY protocol (\<open>src/cmd/http-echo/main.go\<close>). The listener, the library for the PROXY protocol and
  the parsing of the command line are arguments; a connection is one the library has wrapped, with
  the header it found, or any other.
\<close>

section \<open>Operations\<close>

datatype 'h conn = ProxyConn "'h option" | OtherConn

record echo_request =
  er_Method :: string
  er_RequestURI :: string
  er_Path :: string
  er_RemoteAddr :: string

datatype echo_response = EchoResponse int string | EchoRedirect string

text \<open>The value the context of a connection has for \<open>HasProxyHeader\<close>.\<close>

definition ConnContext :: "'h conn \<Rightarrow> bool" where
  "ConnContext c = (case c of ProxyConn header \<Rightarrow> header \<noteq> None | OtherConn \<Rightarrow> False)"

text \<open>\<open>fmt.Fprintln\<close> of a truth value.\<close>

definition println_bool :: "bool \<Rightarrow> string" where
  "println_bool b = (if b then ''true'' else ''false'') @ [CHR 0x0A]"

definition proxy_used_handler :: "bool \<Rightarrow> echo_response" where
  "proxy_used_handler hasProxyHeader = EchoResponse 200 (println_bool hasProxyHeader)"

definition echo_router :: "(bool \<Rightarrow> echo_response) mux res" where
  "echo_router = mux_HandleFunc ''GET /proxy-protocol/used'' proxy_used_handler []"

text \<open>
  Serving a request by a router, and with the line that is printed afterwards. The response is what the
  handler writes; of one to a \<open>HEAD\<close> request the transport, which is not modelled, sends no body.
\<close>

definition router_ServeHTTP :: "(bool \<Rightarrow> echo_response) mux \<Rightarrow> bool \<Rightarrow> echo_request \<Rightarrow> echo_response" where
  "router_ServeHTTP router ctx r = (case mux_dispatch router (er_Method r) (er_Path r) of
       Handle h \<Rightarrow> h ctx
     | Redirect path \<Rightarrow> EchoRedirect path
     | NotFound \<Rightarrow> EchoResponse 404 (''404 page not found'' @ [CHR 0x0A])
     | MethodNotAllowed \<Rightarrow> EchoResponse 405 (''Method Not Allowed'' @ [CHR 0x0A]))"

definition echo_log :: "(echo_request \<Rightarrow> echo_response) \<Rightarrow> echo_request \<Rightarrow> echo_response \<times> string" where
  "echo_log h r = (h r, er_Method r @ '' '' @ er_RequestURI r @ '' ('' @ er_RemoteAddr r @ '')'' @ [CHR 0x0A])"

text \<open>
  \<open>serve\<close>: what is printed at the start, and the function that answers the requests of the connections
  from then on; the process panics when it cannot listen.
\<close>

definition echo_serve ::
  "(string \<Rightarrow> error option) \<Rightarrow> string \<Rightarrow> int \<Rightarrow> (string \<times> ('h conn \<Rightarrow> echo_request \<Rightarrow> echo_response \<times> string)) res" where
  "echo_serve Listen host port =
     bind_res echo_router (\<lambda>router.
       let addr = host @ '':'' @ show_int port in
       case Listen addr of
         Some err \<Rightarrow> Panic ''listen''
       | None \<Rightarrow> Ok (''Listening on '' @ addr @ [CHR 0x0A], \<lambda>c r. echo_log (router_ServeHTTP router (ConnContext c)) r))"

text \<open>\<open>main\<close>, with the values of the flags given on the command line.\<close>

definition echo_main ::
  "(string \<Rightarrow> error option) \<Rightarrow> string option \<Rightarrow> int option \<Rightarrow> (string \<times> ('h conn \<Rightarrow> echo_request \<Rightarrow> echo_response \<times> string)) res" where
  "echo_main Listen host port =
     echo_serve Listen (case host of Some h \<Rightarrow> h | None \<Rightarrow> ''127.0.0.1'') (case port of Some p \<Rightarrow> p | None \<Rightarrow> 8080)"

section \<open>Laws\<close>

definition used_pattern :: pattern where
  "used_pattern = \<lparr>pat_Method = Some ''GET'', pat_Path = ''/proxy-protocol/used''\<rparr>"

lemma echo_router_Ok: "echo_router = Ok [(used_pattern, proxy_used_handler)]"
proof -
  have "parse_pattern ''GET /proxy-protocol/used'' = Some used_pattern" by code_simp
  then show ?thesis by (simp add: echo_router_def mux_HandleFunc_def)
qed

lemma used_clean: "cleanPath ''/proxy-protocol/used'' = ''/proxy-protocol/used''"
  by code_simp

lemma used_path_le: "path_le p (pat_Path used_pattern) \<longleftrightarrow> p = ''/proxy-protocol/used''"
  by (auto simp: path_le_def used_pattern_def)

lemma used_match:
  "mux_match [(used_pattern, h)] method p =
     (if p = ''/proxy-protocol/used'' \<and> method \<in> {''GET'', ''HEAD''} then Some (used_pattern, h) else None)"
  by (simp add: mux_match_def match_path_def used_path_le) (auto simp: used_pattern_def)

lemma used_dispatch:
  assumes "cleanPath p = p"
  shows "mux_dispatch [(used_pattern, h)] method p =
    (if p \<noteq> ''/proxy-protocol/used'' then NotFound else if method \<in> {''GET'', ''HEAD''} then Handle h else MethodNotAllowed)"
proof -
  have "p @ ''/'' \<noteq> ''/proxy-protocol/used''"
  proof
    assume "p @ ''/'' = ''/proxy-protocol/used''"
    then have "last (p @ ''/'') = last ''/proxy-protocol/used''" by (rule arg_cong)
    then show False by simp
  qed
  then show ?thesis
    using assms by (simp add: mux_dispatch_def Let_def used_match used_path_le) (auto simp: used_pattern_def)
qed

section \<open>Properties\<close>

text \<open>
  C40. The echo server tells whether the PROXY protocol was used, and nothing else: for a request with a
  clean path, on its one path the handler answers \<open>GET\<close> and \<open>HEAD\<close> requests with \<open>true\<close> exactly when the
  connection came with a PROXY header, other methods are refused, and every other path does not exist.
  Each request is logged with its method, its target and the address it came from.
\<close>

theorem echo_tells_proxy_protocol:
  assumes "echo_serve Listen host port = Ok (printed, answer)" "cleanPath (er_Path r) = er_Path r"
  shows "answer c r =
    (if er_Path r \<noteq> ''/proxy-protocol/used'' then EchoResponse 404 (''404 page not found'' @ [CHR 0x0A])
     else if er_Method r \<notin> {''GET'', ''HEAD''} then EchoResponse 405 (''Method Not Allowed'' @ [CHR 0x0A])
     else EchoResponse 200 ((if \<exists>header. c = ProxyConn (Some header) then ''true'' else ''false'') @ [CHR 0x0A]),
     er_Method r @ '' '' @ er_RequestURI r @ '' ('' @ er_RemoteAddr r @ '')'' @ [CHR 0x0A])"
proof -
  have "answer = (\<lambda>c r. echo_log (router_ServeHTTP [(used_pattern, proxy_used_handler)] (ConnContext c)) r)"
    using assms(1) by (simp add: echo_serve_def echo_router_Ok Let_def split: option.splits)
  moreover have "ConnContext c \<longleftrightarrow> (\<exists>header. c = ProxyConn (Some header))"
    by (cases c) (auto simp: ConnContext_def)
  ultimately show ?thesis
    by (simp add: echo_log_def router_ServeHTTP_def used_dispatch [OF assms(2)] proxy_used_handler_def println_bool_def)
qed

theorem echo_tells_proxy_protocol_witness:
  "\<exists>printed answer. echo_main (\<lambda>addr. None) None None = Ok (printed, answer) \<and>
     answer (ProxyConn (Some ())) \<lparr>er_Method = ''GET'', er_RequestURI = ''/proxy-protocol/used'',
       er_Path = ''/proxy-protocol/used'', er_RemoteAddr = ''10.0.0.1:4711''\<rparr> =
     (EchoResponse 200 (''true'' @ [CHR 0x0A]), ''GET /proxy-protocol/used (10.0.0.1:4711)'' @ [CHR 0x0A])"
proof -
  obtain printed and answer :: "unit conn \<Rightarrow> echo_request \<Rightarrow> echo_response \<times> string" where
    main: "echo_serve (\<lambda>addr. None) ''127.0.0.1'' 8080 = Ok (printed, answer)"
    by (simp add: echo_serve_def echo_router_Ok Let_def)
  let ?r = "\<lparr>er_Method = ''GET'', er_RequestURI = ''/proxy-protocol/used'', er_Path = ''/proxy-protocol/used'', er_RemoteAddr = ''10.0.0.1:4711''\<rparr>"
  have "cleanPath (er_Path ?r) = er_Path ?r" by (simp add: used_clean)
  from echo_tells_proxy_protocol [OF main this, of "ProxyConn (Some ())"] main show ?thesis
    by (simp add: echo_main_def)
qed

end
