(* ===== verification/Spec2Isabelle.thy ===== *)
theory Spec2Isabelle
  imports Handler_Confinement Controller_Main Testkit Http_Echo
begin

text \<open>
  A verification development for the cloudscale.ch cloud controller manager
  (\<open>src/\<close>: \<open>cloudscale-cloud-controller-manager\<close>).

  \<^bold>\<open>The program.\<close> The controller manager connects a Kubernetes cluster to the cloudscale.ch API. It
  tells Kubernetes about the servers behind the nodes of the cluster, and for every service of type
  \<open>LoadBalancer\<close> it keeps a load balancer at cloudscale.ch in the state the service asks for. The
  second is the core: the handlers compute the desired state from the service and its nodes and the
  actual state from the API, derive a plan of actions from the two, run it, and start over until a
  plan leaves nothing to wait for. Around it are the process that starts the controller, and for the
  tests a mock of the API with helpers and a small echo server.

  \<^bold>\<open>The theories\<close>, in the order in which they build on each other:

  \<^item> \<open>Go_Base\<close>, the prelude: results with errors and panics, effects on an abstract world, the parts of
    \<open>strings\<close>, \<open>strconv\<close> and \<open>fmt\<close> that the program uses, maps with an open iteration order.
  \<^item> \<open>Json_List\<close>: decoding a JSON text into a list of strings, as \<open>encoding/json\<close> does it.
  \<^item> \<open>Compare\<close> (\<open>pkg/internal/compare\<close>): the keyed difference and matching of lists. The locale
    \<open>keyed_diff\<close> is the contract of the difference; \<open>go_diff\<close> interprets it on \<open>Diff\<close>.
  \<^item> \<open>Limiter\<close> (\<open>pkg/internal/limiter\<close>): search results with an error, and how they are read.
  \<^item> \<open>Cloud_Types\<close>: the types of the SDK and of Kubernetes and the calls of both, as records.
  \<^item> \<open>Actions\<close> (\<open>pkg/internal/actions\<close>): the steps of a plan. The locale \<open>action_contract\<close> states what
    the runner relies on; \<open>ccm_actions\<close> interprets it on \<open>Run\<close>.
  \<^item> \<open>Provider_Id\<close>, \<open>Server_Mapper\<close>, \<open>Instances\<close> (\<open>pkg/cloudscale_ccm/provider_id.go\<close>,
    \<open>server_mapper.go\<close>, \<open>instances.go\<close>): from nodes to servers and back.
  \<^item> \<open>Service_Info\<close>, \<open>Lb_Mapper\<close> (\<open>service_info.go\<close>, the constants of \<open>loadbalancer.go\<close>,
    \<open>lb_mapper.go\<close>): the annotations of a service with their defaults, and finding its load balancer.
  \<^item> \<open>Reconcile_Desired\<close>, \<open>Reconcile_Actual\<close>, \<open>Reconcile_Next\<close>, \<open>Reconcile_Loop\<close> (\<open>reconcile.go\<close>):
    the desired state, the actual state, the plan, and the loop that runs plans.
  \<^item> \<open>Kubeutil\<close> (\<open>pkg/internal/kubeutil\<close>): patching services and the release test, with the meaning of
    JSON patches as specification: which operation needs what to be there, and how keys are written
    in paths.
  \<^item> \<open>Service_Lock\<close> (\<open>loadbalancer.go\<close>: \<open>lockForService\<close>): the lock of a service as a step relation;
    \<open>service_lock\<close> interprets the locale \<open>invariant_system\<close> on it.
  \<^item> \<open>Loadbalancer\<close> (\<open>loadbalancer.go\<close>): the handlers and the checks in front of them.
  \<^item> \<open>Cloud\<close> (\<open>cloud.go\<close>), \<open>Controller_Main\<close> (\<open>cmd/cloudscale-cloud-controller-manager\<close>): the configuration
    from the environment, the provider and the interfaces it offers, and the process that starts it.
  \<^item> \<open>Serve_Mux\<close>: the request multiplexer of \<open>net/http\<close>, as the Go library documents it, for \<open>Testkit\<close>
    (\<open>pkg/internal/testkit\<close>: the mock API, the reader of test pages, the builders of nodes and services)
    and \<open>Http_Echo\<close> (\<open>cmd/http-echo\<close>).

  The theories about whole reconciliations add no code; they relate the model to the account of a
  user at cloudscale.ch:

  \<^item> \<open>Account\<close>: the resources of an account and \<open>documented_api\<close>, the condition that the calls of a client
    read and change an account the way the API documents it. It leaves open what a client cannot know:
    identifiers, the order of lists, how long a load balancer stays changing. Deleting a load balancer
    may take its pools with it and release its floating IPs.
  \<^item> \<open>Account_View\<close>: what \<open>actualLbState\<close> reads of an account.
  \<^item> \<open>Plan_Effects\<close>, \<open>Updates_In_Place\<close>, \<open>Round_Plans\<close>, \<open>Settings\<close>: what running a plan does to the account,
    block by block, by weakest preconditions of lists of actions.
  \<^item> \<open>Convergence\<close>: every round makes progress in a lexicographic measure (no load balancer yet, pools
    that differ, contents that differ, pauses left), so the rounds end in the desired state.
  \<^item> \<open>Simulated_Cloud\<close>: an executable account and client, and the proof that they meet \<open>documented_api\<close>.
  \<^item> \<open>Handler_Convergence\<close>: the resulting theorems about the handlers, with runs in the simulated cloud.
  \<^item> \<open>Confinement\<close>: \<open>truthful_api\<close>, a much weaker condition on the API. Every call may fail at any time,
    and one that reports a failure may have done its work; but reading changes nothing and, if it
    succeeds, reports what is there, and writing does what is documented or nothing. What the load
    balancers of others have is left as it was by every action that is not about them.
  \<^item> \<open>Confined_Rounds\<close>: the plans of a service hold only such actions, so a round, and with it the whole
    reconciliation, is confined to the load balancers of the service, however it ends.
  \<^item> \<open>Handler_Confinement\<close>: the resulting theorem about the handlers, and that the simulated cloud is
    truthful.

  \<^bold>\<open>How code and model correspond.\<close> A function of the source is a definition of the same name, with
  a prefix where two packages share one (\<open>limiter_Join\<close>, \<open>lb_findByName\<close>); loop bodies and blocks of long
  functions have definitions of their own, which the function composes in the order of the source.
  A struct is a record, an action type a constructor of \<open>action\<close>. A call with an error result
  delivers a \<open>res\<close>: \<open>Ok\<close>, \<open>Err\<close> or \<open>Panic\<close>, the last for nil pointer dereferences too. A call with effects
  takes the world \<open>'w\<close> and returns it changed. The API client, the Kubernetes client, the clock, the
  context and the iteration orders of maps are arguments (\<open>client\<close>, \<open>k8s\<close>, \<open>ext\<close>), about which nothing
  is assumed but what a theorem states as hypothesis. Pointers to pools are numbers, as pools are
  told apart by their pointers; pointers to host strings are pairs of an address and the string,
  since the code compares them. Integers are unbounded except where a width matters: \<open>strconv.Atoi\<close>
  has its 64-bit range, and the timeout is multiplied in 64 bits.

  \<^bold>\<open>Loops without a bound\<close> are the reconciliation and the paged listing of services. They take
  fuel and are \<open>None\<close> without it. \<open>reconcile_deadline\<close> shows that under a deadline one unit for every
  five seconds left and one more is enough; \<open>findIPsAssignedElsewhere_exact\<close> that one for each page is;
  \<open>UpdateLoadBalancer_converges\<close> that with the documented API there is a number of rounds from which on
  more fuel changes nothing.

  \<^bold>\<open>What is shown.\<close>

  \<^item> Convergence: if the API behaves as documented and accepts what the service asks for, updating and
    ensuring a load balancer succeed and leave the desired state, from whatever pools and contents
    there were, and deleting it succeeds and leaves none (\<open>UpdateLoadBalancer_converges\<close>,
    \<open>EnsureLoadBalancer_converges\<close>, \<open>EnsureLoadBalancerDeleted_converges\<close>); what is read of the account refines the account
    (\<open>actualLbState_refines_account\<close>).
  \<^item> Confinement: whatever the API answers and however the handlers of a service end, the load balancers
    of other services and all they have stay as they were (\<open>handlers_confined\<close>).
  \<^item> Correctness of the core: when a handler reports success, the load balancer has the structure that
    was asked for (\<open>EnsureLoadBalancer_success\<close>, \<open>reconcile_settles\<close>, \<open>EnsureLoadBalancerDeleted_deletes\<close>).
  \<^item> The plan: it is empty exactly when nothing is to be done, starts over exactly when the structure
    differs, deletes nothing that is desired, forgets nothing that is missing, and is refused exactly
    for a change of flavor, zone or named virtual IP addresses (\<open>nextLbActions_idle_iff\<close> and the theorems
    after it; naming no addresses is never refused, see \<open>nextLbActions_accepts\<close>).
  \<^item> The two states: one pool for each port with its members, monitor and listener, and only resources
    of the load balancer itself (\<open>desiredLbState_shape\<close>, \<open>actualLbState_own_resources\<close>).
  \<^item> Concurrency: handlers of one service exclude each other, those of different services do not wait
    for each other (\<open>lock_mutual_exclusion\<close>, \<open>lock_independence\<close>).
  \<^item> Safety of the rest: bad configurations change nothing, nodes are only reported gone on a 404,
    annotations and provider IDs round trip, and starting up logs next to nothing of the token.
  \<^item> The process starts exactly with the name of the provider, a token, the permission for clusters
    without an ID and no configuration file that cannot be opened (\<open>controller_starts_iff\<close>), the mock API and the reader of test pages do what the tests rely on
    (\<open>WithServers_serves\<close>, \<open>HelloNginx_roundtrip\<close>), and so does the echo server (\<open>echo_tells_proxy_protocol\<close>).
  \<^item> Defects that the model shows: errors lost when searches are joined, so that an outage reads as the
    absence of a load balancer (\<open>Join_drops_errors\<close>, \<open>outage_creates_second_lb\<close>), monitors with a
    host that are updated on every run (\<open>nextLbActions_host_never_settles\<close>), timeouts that
    overflow (\<open>apiTimeout_exact_iff\<close>), a crash in place of an error message (\<open>option_error_crashes\<close>), and
    a mock that does not behave as its comment says (\<open>On_affects_running_mock\<close>).

  \<^bold>\<open>What is not modelled:\<close> logging, but for the start of the process, where it matters for the token;
  the HTTP transport and the SDK behind the client; the Kubernetes library, which runs the controllers
  once the process has handed over to it; changes that others make to the account while a handler runs
  (the theorems about whole reconciliations are about one handler at a time); the goroutine that shuts
  the broadcaster of events down; what the mock API prints on the console, and host names and
  wildcards in the patterns of the multiplexer, which the repository does not use.
\<close>

section \<open>Across components\<close>

text \<open>
  C24. An outage of the API makes the controller order a second load balancer: for a service that
  carries the UUID of its load balancer, when the API fails both to return it and to list the load
  balancers, the actual state is read as empty without an error, and the plan for any desired state
  with a load balancer is to create one.
\<close>

theorem outage_creates_second_lb:
  assumes "annotation info LoadBalancerUUID \<noteq> []"
    and "LoadBalancers_Get c (annotation info LoadBalancerUUID) w = (Inl e1, w1)"
    and "LoadBalancers_List c w1 = (Inl e2, w2)" "st_lb desired = Some lb"
  shows "\<exists>actual w'. actualLbState c info w = (Ok actual, w') \<and>
    nextLbActions x ro (Some desired) (Some actual) = Ok [CreateLbAction lb, RefetchAction]"
  using actualLbState_absent [OF lookup_failure_reads_as_absent [OF assms(1-3)]] assms(4)
  by (simp add: nextLbActions_def empty_lbState_def)

theorem outage_creates_second_lb_witness:
  "\<exists>actual w'. actualLbState outage_client tracked_info () = (Ok actual, w') \<and>
     nextLbActions sample_ext sample_orders (Some (sample_state 0)) (Some actual) = Ok [CreateLbAction sample_lb, RefetchAction]"
  by (rule outage_creates_second_lb) (simp_all add: tracked_uuid outage_client_def)

end
